(* ===== verification/Prelude.thy ===== *)
theory Prelude
  imports Main
begin

text \<open>
  Shared vocabulary of the development. It fixes how the Go notions that every component uses
  are written: an \<open>error\<close> return is a value of a sum type (\<open>Inl\<close> the error, \<open>Inr\<close> the
  result), a call that only returns an error is an \<open>option\<close>, a byte string is a list of
  \<open>char\<close>. It also holds the generic lemmas on lists and results that several components use and
  the named collections that their proofs pass to the simplifier.
\<close>

section \<open>Collections\<close>

named_theorems go_simps
  \<open>evaluation rules of the model of the Go standard library\<close>

named_theorems model_defs
  \<open>definitions of operations that proofs unfold by default\<close>

section \<open>Results\<close>

type_synonym ('e, 'a) result = "'e + 'a"

text \<open>Sequencing of fallible steps: the first error is returned, as \<open>if err != nil { return err }\<close>.\<close>

definition bind_res :: "('e, 'a) result \<Rightarrow> ('a \<Rightarrow> ('e, 'b) result) \<Rightarrow> ('e, 'b) result" where
  "bind_res r f = (case r of Inl e \<Rightarrow> Inl e | Inr a \<Rightarrow> f a)"

lemma bind_res_simps [simp]:
  "bind_res (Inl e) f = Inl e"
  "bind_res (Inr a) f = f a"
  by (simp_all add: bind_res_def)

lemma bind_res_eq_Inr: "bind_res r f = Inr b \<longleftrightarrow> (\<exists>a. r = Inr a \<and> f a = Inr b)"
  by (cases r) auto

lemma bind_res_eq_Inl: "bind_res r f = Inl e \<longleftrightarrow> r = Inl e \<or> (\<exists>a. r = Inr a \<and> f a = Inl e)"
  by (cases r) auto

definition is_ok :: "('e, 'a) result \<Rightarrow> bool" where
  "is_ok r = (case r of Inl e \<Rightarrow> False | Inr a \<Rightarrow> True)"

lemma is_ok_simps [simp]: "\<not> is_ok (Inl e)" "is_ok (Inr a)"
  by (simp_all add: is_ok_def)

lemma is_ok_iff: "is_ok r \<longleftrightarrow> (\<exists>a. r = Inr a)"
  by (cases r) auto

section \<open>Lists\<close>

text \<open>\<open>before xs a b\<close>: some occurrence of \<open>a\<close> in \<open>xs\<close> stands strictly before one of \<open>b\<close>.\<close>

definition before :: "'a list \<Rightarrow> 'a \<Rightarrow> 'a \<Rightarrow> bool" where
  "before xs a b \<longleftrightarrow> (\<exists>us vs. xs = us @ b # vs \<and> a \<in> set us)"

lemma before_appendI: "a \<in> set us \<Longrightarrow> before (us @ b # vs) a b"
  by (auto simp: before_def)

lemma before_append1: "before us a b \<Longrightarrow> before (us @ vs) a b"
  by (force simp: before_def)

lemma before_set: "before xs a b \<Longrightarrow> a \<in> set xs \<and> b \<in> set xs"
  by (auto simp: before_def)

lemma before_snoc: "before (us @ [c]) a b \<longleftrightarrow> before us a b \<or> (c = b \<and> a \<in> set us)"
proof
  assume "before (us @ [c]) a b"
  then obtain xs ys where eq: "us @ [c] = xs @ b # ys" and a: "a \<in> set xs"
    by (auto simp: before_def)
  show "before us a b \<or> (c = b \<and> a \<in> set us)"
  proof (cases ys rule: rev_cases)
    case Nil
    with eq a show ?thesis by auto
  next
    case (snoc zs z)
    with eq have "us = xs @ b # zs" by simp
    with a show ?thesis by (auto simp: before_def)
  qed
qed (auto intro: before_append1 before_appendI)

lemma distinct_split_unique:
  "distinct (us @ x # vs) \<Longrightarrow> us @ x # vs = us' @ x # vs' \<Longrightarrow> us = us'"
proof (induction us arbitrary: us')
  case Nil
  then show ?case by (cases us') auto
next
  case (Cons a us)
  show ?case
  proof (cases us')
    case (Cons b bs)
    then have eq: "us @ x # vs = bs @ x # vs'" "a = b" using Cons.prems(2) by simp_all
    have "distinct (us @ x # vs)" using Cons.prems(1) by simp
    from Cons.IH [OF this eq(1)] eq(2) \<open>us' = b # bs\<close> show ?thesis by simp
  qed (use Cons.prems in auto)
qed

lemma before_trans:
  assumes "distinct xs" "before xs a b" "before xs b c"
  shows "before xs a c"
proof -
  obtain us vs where bc: "xs = us @ c # vs" "b \<in> set us" using assms(3) by (auto simp: before_def)
  obtain as bs where ab: "xs = as @ b # bs" "a \<in> set as" using assms(2) by (auto simp: before_def)
  obtain cs ds where us: "us = cs @ b # ds" using bc(2) by (meson split_list)
  have "as = cs"
    by (rule distinct_split_unique [of as b bs cs "ds @ c # vs"]) (use assms(1) ab(1) bc(1) us in simp_all)
  with ab us have "a \<in> set us" by simp
  with bc(1) show ?thesis by (simp add: before_appendI)
qed

lemma before_irrefl: "distinct xs \<Longrightarrow> \<not> before xs a a"
  by (auto simp: before_def)

lemma dropWhile_idem [simp]: "dropWhile P (dropWhile P xs) = dropWhile P xs"
  by (induction xs) auto

text \<open>Trimming a list at both ends.\<close>

definition trim_both :: "('a \<Rightarrow> bool) \<Rightarrow> 'a list \<Rightarrow> 'a list" where
  "trim_both P xs = rev (dropWhile P (rev (dropWhile P xs)))"

lemma trim_both_Nil [simp]: "trim_both P [] = []"
  by (simp add: trim_both_def)

lemma trim_both_eq_Nil: "trim_both P xs = [] \<longleftrightarrow> (\<forall>x \<in> set xs. P x)"
proof -
  have "trim_both P xs = [] \<longleftrightarrow> (\<forall>x \<in> set (dropWhile P xs). P x)"
    by (simp add: trim_both_def)
  also have "\<dots> \<longleftrightarrow> (\<forall>x \<in> set xs. P x)"
    by (metis dropWhile_eq_Nil_conv dropWhile_idem set_dropWhileD)
  finally show ?thesis .
qed

lemma trim_both_infix: "\<exists>us vs. xs = us @ trim_both P xs @ vs"
proof -
  let ?d = "dropWhile P xs"
  have "rev ?d = takeWhile P (rev ?d) @ dropWhile P (rev ?d)" by simp
  then have "?d = trim_both P xs @ rev (takeWhile P (rev ?d))"
    by (metis rev_append rev_rev_ident trim_both_def)
  then have "xs = takeWhile P xs @ trim_both P xs @ rev (takeWhile P (rev ?d))"
    by (metis takeWhile_dropWhile_id)
  then show ?thesis by blast
qed

lemma set_trim_both: "set (trim_both P xs) \<subseteq> set xs"
  using trim_both_infix [of xs P] by (metis Un_iff set_append subsetI)

lemma trim_both_hd_last:
  assumes "trim_both P xs \<noteq> []"
  shows "\<not> P (hd (trim_both P xs))" and "\<not> P (last (trim_both P xs))"
proof -
  let ?d = "dropWhile P xs"
  from assms have ne: "dropWhile P (rev ?d) \<noteq> []" by (auto simp: trim_both_def)
  have "\<not> P (hd (dropWhile P (rev ?d)))" using ne by (rule hd_dropWhile)
  then show "\<not> P (last (trim_both P xs))" by (simp add: trim_both_def last_rev)
  from ne have d: "?d \<noteq> []" by (cases "?d") simp_all
  have "last (dropWhile P (rev ?d)) = last (rev ?d)"
    using ne by (metis last_appendR takeWhile_dropWhile_id)
  then have "hd (trim_both P xs) = hd ?d" by (simp add: trim_both_def hd_rev last_rev)
  with hd_dropWhile [OF d] show "\<not> P (hd (trim_both P xs))" by simp
qed

lemma trim_both_id:
  assumes "xs \<noteq> [] \<Longrightarrow> \<not> P (hd xs)" and "xs \<noteq> [] \<Longrightarrow> \<not> P (last xs)"
  shows "trim_both P xs = xs"
proof (cases "xs = []")
  case False
  with assms have "dropWhile P xs = xs" by (cases xs) auto
  moreover from False assms(2) have "dropWhile P (rev xs) = rev xs"
    by (cases "rev xs") (auto simp: hd_rev [symmetric])
  ultimately show ?thesis by (simp add: trim_both_def)
qed simp

lemma trim_both_idem [simp]: "trim_both P (trim_both P xs) = trim_both P xs"
  by (rule trim_both_id) (auto dest: trim_both_hd_last)

lemma trim_both_map: "trim_both P (map f xs) = map f (trim_both (P \<circ> f) xs)"
  by (simp add: trim_both_def dropWhile_map rev_map)

section \<open>Step relations\<close>

text \<open>An invariant of a step relation holds in all states that are reachable from one where it holds.\<close>

locale preserved =
  fixes step :: "'s \<Rightarrow> 's \<Rightarrow> bool"
    and inv :: "'s \<Rightarrow> bool"
  assumes step_preserves: "step s t \<Longrightarrow> inv s \<Longrightarrow> inv t"
begin

lemma run_preserves: "step\<^sup>*\<^sup>* s t \<Longrightarrow> inv s \<Longrightarrow> inv t"
  by (induction rule: rtranclp_induct) (auto intro: step_preserves)

end

text \<open>Infinite executions: in each moment one step of the relation or none.\<close>

definition execution :: "('s \<Rightarrow> 's \<Rightarrow> bool) \<Rightarrow> (nat \<Rightarrow> 's) \<Rightarrow> bool" where
  "execution step run \<longleftrightarrow> (\<forall>i. run (Suc i) = run i \<or> step (run i) (run (Suc i)))"

lemma execution_steps:
  assumes "execution step run" "i \<le> j"
  shows "step\<^sup>*\<^sup>* (run i) (run j)"
  using assms(2)
proof (induction rule: dec_induct)
  case (step n)
  then show ?case using assms(1) unfolding execution_def by (metis rtranclp.rtrancl_into_rtrancl)
qed simp

text \<open>The rule of progress under weak fairness: what is kept until the goal is reached, and at some later moment
  takes the helpful step, reaches the goal.\<close>

lemma leads_to:
  assumes start: "P (run i)"
    and keeps: "\<And>j. i \<le> j \<Longrightarrow> P (run j) \<Longrightarrow> P (run (Suc j)) \<or> Q (run (Suc j))"
    and helps: "\<exists>j \<ge> i. P (run j) \<longrightarrow> Q (run (Suc j))"
  shows "\<exists>j \<ge> i. Q (run j)"
proof (rule ccontr)
  assume never: "\<not> (\<exists>j \<ge> i. Q (run j))"
  have "P (run j)" if "i \<le> j" for j
    using that
  proof (induction rule: dec_induct)
    case (step n)
    with keeps [of n] never show ?case by auto
  qed (rule start)
  with helps never show False by (meson le_SucI)
qed

end
