(* ===== verification/Go_Strings.thy ===== *)
theory Go_Strings
  imports Prelude
begin

text \<open>
  The part of the Go standard library on strings that the program calls: \<open>unicode/utf8\<close>
  decoding, \<open>strings.TrimSpace\<close>, \<open>ToLower\<close>, \<open>EqualFold\<close>, \<open>Split\<close>, \<open>Join\<close>,
  \<open>HasPrefix\<close>, \<open>TrimPrefix\<close>, \<open>TrimRight\<close>, \<open>Contains\<close>, \<open>LastIndex\<close>,
  \<open>strconv.Atoi\<close>, \<open>Itoa\<close> and \<open>net.SplitHostPort\<close>.

  A Go string is a sequence of bytes; so is \<open>string\<close> here, a list of 8-bit \<open>char\<close>s. A range
  loop, \<open>RuneCountInString\<close> and \<open>[]rune(s)\<close> decode UTF-8: \<open>runes s\<close> cuts \<open>s\<close> into
  the byte groups that one decoding step consumes, a well-formed code point or one invalid byte.

  Case mapping is exact on ASCII and on the two other code points whose lower case is an ASCII
  letter (U+0130 and U+212A), so that it is exact wherever the code compares the result with an
  ASCII word, which is the only use the code makes of it; other letters are left as they are.
  \<open>EqualFold\<close> is exact when one of the two strings is ASCII, as header names are.
\<close>

section \<open>UTF-8\<close>

definition byte :: "char \<Rightarrow> int" where
  "byte c = of_char c"

definition chr8 :: "int \<Rightarrow> char" where
  "chr8 n = char_of n"

lemma byte_range: "0 \<le> byte c" "byte c < 256"
proof -
  have "byte c = byte c mod 256" by (simp add: byte_def)
  then show "0 \<le> byte c" "byte c < 256"
    by (metis pos_mod_sign zero_less_numeral, metis pos_mod_bound zero_less_numeral)
qed

lemma byte_chr8: "0 \<le> n \<Longrightarrow> n < 256 \<Longrightarrow> byte (chr8 n) = n"
  by (simp add: byte_def chr8_def)

text \<open>
  The first byte fixes the length of the sequence and the range of the second byte
  (the tables \<open>first\<close> and \<open>acceptRanges\<close> of \<open>unicode/utf8\<close>); length 0 marks a byte that
  cannot start a sequence.
\<close>

definition utf8_lead :: "int \<Rightarrow> nat \<times> int \<times> int" where
  "utf8_lead b =
     (if b < 0x80 then (1, 0x80, 0xBF)
      else if b < 0xC2 then (0, 0x80, 0xBF)
      else if b < 0xE0 then (2, 0x80, 0xBF)
      else if b = 0xE0 then (3, 0xA0, 0xBF)
      else if b = 0xED then (3, 0x80, 0x9F)
      else if b < 0xF0 then (3, 0x80, 0xBF)
      else if b = 0xF0 then (4, 0x90, 0xBF)
      else if b < 0xF4 then (4, 0x80, 0xBF)
      else if b = 0xF4 then (4, 0x80, 0x8F)
      else (0, 0x80, 0xBF))"

definition is_cont :: "char \<Rightarrow> bool" where
  "is_cont c \<longleftrightarrow> 0x80 \<le> byte c \<and> byte c \<le> 0xBF"

text \<open>\<open>rune_len s\<close>: the length of the well-formed code point \<open>s\<close> starts with, 0 if there is none.\<close>

fun rune_len :: "string \<Rightarrow> nat" where
  "rune_len [] = 0"
| "rune_len (c # cs) =
     (let (sz, lo, hi) = utf8_lead (byte c) in
      if sz \<le> 1 then sz
      else if length cs < sz - 1 then 0
      else if lo \<le> byte (hd cs) \<and> byte (hd cs) \<le> hi \<and> list_all is_cont (take (sz - 2) (tl cs)) then sz
      else 0)"

text \<open>\<open>DecodeRuneInString\<close> consumes one byte when the input is not well formed.\<close>

definition rune_width :: "string \<Rightarrow> nat" where
  "rune_width s = max 1 (rune_len s)"

function runes :: "string \<Rightarrow> string list" where
  "runes s = (if s = [] then [] else take (rune_width s) s # runes (drop (rune_width s) s))"
  by pat_completeness auto
termination
  by (relation "measure length") (auto simp: rune_width_def)

declare runes.simps [simp del]

definition rune_count :: "string \<Rightarrow> nat" where
  "rune_count s = length (runes s)"

text \<open>The code point a group stands for; \<open>utf8.RuneError\<close> for an invalid byte.\<close>

definition rune_error :: int where
  "rune_error = 0xFFFD"

definition valid_rune :: "string \<Rightarrow> bool" where
  "valid_rune ch \<longleftrightarrow> ch \<noteq> [] \<and> rune_len ch = length ch"

fun code_point :: "string \<Rightarrow> int" where
  "code_point [a] = (if byte a < 0x80 then byte a else rune_error)"
| "code_point [a, b] = (byte a - 0xC0) * 64 + (byte b - 0x80)"
| "code_point [a, b, c] = (byte a - 0xE0) * 4096 + (byte b - 0x80) * 64 + (byte c - 0x80)"
| "code_point [a, b, c, d] =
     (byte a - 0xF0) * 262144 + (byte b - 0x80) * 4096 + (byte c - 0x80) * 64 + (byte d - 0x80)"
| "code_point _ = rune_error"

definition utf8_valid :: "string \<Rightarrow> bool" where
  "utf8_valid s = list_all valid_rune (runes s)"

text \<open>The encoding of \<open>utf8.RuneError\<close>, written for each invalid byte when runes are re-encoded.\<close>

definition rune_error_bytes :: string where
  "rune_error_bytes = [chr8 0xEF, chr8 0xBF, chr8 0xBD]"

definition re_encode :: "string \<Rightarrow> string" where
  "re_encode ch = (if valid_rune ch then ch else rune_error_bytes)"

subsection \<open>Decoding\<close>

lemma rune_width_pos [simp]: "0 < rune_width s"
  by (simp add: rune_width_def)

lemma rune_len_le: "rune_len s \<le> length s"
proof (cases s)
  case (Cons c cs)
  obtain sz lo hi where "utf8_lead (byte c) = (sz, lo, hi)" by (cases "utf8_lead (byte c)")
  with Cons show ?thesis by auto
qed simp

lemma rune_width_le: "s \<noteq> [] \<Longrightarrow> rune_width s \<le> length s"
  using rune_len_le [of s] by (cases s) (simp_all add: rune_width_def)

lemma runes_Nil [simp]: "runes [] = []"
  by (simp add: runes.simps)

lemma runes_eq_Nil [simp]: "runes s = [] \<longleftrightarrow> s = []"
  by (simp add: runes.simps [of s])

lemma runes_Cons:
  "s \<noteq> [] \<Longrightarrow> runes s = take (rune_width s) s # runes (drop (rune_width s) s)"
  by (simp add: runes.simps [of s])

lemma concat_runes [simp]: "concat (runes s) = s"
proof (induction s rule: runes.induct)
  case (1 s)
  then show ?case by (cases "s = []") (simp_all add: runes_Cons [of s])
qed

lemma runes_nonempty: "ch \<in> set (runes s) \<Longrightarrow> ch \<noteq> []"
proof (induction s rule: runes.induct)
  case (1 s)
  then have ne: "s \<noteq> []" by auto
  then have "take (rune_width s) s \<noteq> []" by (simp add: rune_width_def)
  with 1 ne show ?case unfolding runes_Cons [OF ne] set_simps by (metis insertE)
qed

text \<open>A well-formed code point is recognised by its own bytes, whatever follows.\<close>

lemma rune_len_append:
  assumes "rune_len s \<noteq> 0"
  shows "rune_len (take (rune_len s) s @ t) = rune_len s"
proof (cases s)
  case Nil
  with assms show ?thesis by simp
next
  case (Cons c cs)
  obtain sz lo hi where l: "utf8_lead (byte c) = (sz, lo, hi)" by (cases "utf8_lead (byte c)")
  show ?thesis
  proof (cases "sz \<le> 1")
    case True
    with assms Cons l have "sz = 1" by simp
    with Cons l show ?thesis by simp
  next
    case False
    with assms Cons l have len: "length cs \<ge> sz - 1" and rl: "rune_len s = sz"
      and ok: "lo \<le> byte (hd cs)" "byte (hd cs) \<le> hi" "list_all is_cont (take (sz - 2) (tl cs))"
      by (auto simp: Let_def split: if_splits)
    from False len obtain d ds where cs: "cs = d # ds" by (cases cs) auto
    from False obtain k where k: "sz = Suc (Suc k)"
      using less_imp_Suc_add [of 1 sz] by auto
    from len cs k have "take k (take k ds @ t) = take k ds" by simp
    with Cons cs k l ok len rl show ?thesis by (simp add: Let_def)
  qed
qed

lemma valid_rune_append: "valid_rune ch \<Longrightarrow> rune_width (ch @ t) = length ch"
  using rune_len_append [of ch t] by (cases ch) (auto simp: valid_rune_def rune_width_def)

lemma runes_valid_append: "valid_rune ch \<Longrightarrow> runes (ch @ t) = ch # runes t"
  by (subst runes_Cons) (auto simp: valid_rune_append valid_rune_def)

lemma runes_concat_valid: "list_all valid_rune cs \<Longrightarrow> runes (concat cs) = cs"
  by (induction cs) (auto simp: runes_valid_append)

lemma runes_valid_or_byte: "ch \<in> set (runes s) \<Longrightarrow> valid_rune ch \<or> length ch = 1"
proof (induction s rule: runes.induct)
  case (1 s)
  show ?case
  proof (cases "s = []")
    case False
    have "valid_rune (take (rune_width s) s) \<or> length (take (rune_width s) s) = 1"
    proof (cases "rune_len s = 0")
      case True
      with False show ?thesis by (cases s) (simp_all add: rune_width_def)
    next
      case nz: False
      then have "rune_width s = rune_len s" by (simp add: rune_width_def)
      moreover have "rune_len (take (rune_len s) s) = rune_len s"
        using rune_len_append [OF nz, of "[]"] by simp
      moreover have "length (take (rune_len s) s) = rune_len s" using rune_len_le [of s] by simp
      ultimately show ?thesis using False nz by (simp add: valid_rune_def)
    qed
    with 1 False show ?thesis unfolding runes_Cons [OF False] set_simps by blast
  qed (use 1 in simp)
qed

text \<open>Cutting a string between two groups does not change the groups before the cut.\<close>

lemma rune_len_prefix:
  assumes "rune_len p \<noteq> 0" shows "rune_len (p @ t) = rune_len p"
proof -
  have "p @ t = take (rune_len p) p @ (drop (rune_len p) p @ t)" by simp
  then show ?thesis using rune_len_append [OF assms] by metis
qed

lemma runes_append_cut:
  assumes "runes (p @ t) = cs @ ds" and "concat cs = p"
  shows "runes p = cs"
  using assms
proof (induction cs arbitrary: p)
  case Nil
  then show ?case by simp
next
  case (Cons c cs)
  let ?s = "p @ t"
  from Cons.prems(1) have "?s \<noteq> []" by auto
  with Cons.prems(1) have c: "c = take (rune_width ?s) ?s"
    and rest: "runes (drop (rune_width ?s) ?s) = cs @ ds"
    by (simp_all add: runes_Cons [of ?s])
  have lc: "length c = rune_width ?s"
    using c rune_width_le [OF \<open>?s \<noteq> []\<close>] by (simp only: length_take min.absorb2)
  have p: "p = c @ concat cs" using Cons.prems(2) by simp
  then have pne: "p \<noteq> []" using lc rune_width_pos [of ?s] by (cases c) simp_all
  have wp: "rune_width p = length c"
  proof (cases "rune_len p = 0")
    case False
    then show ?thesis using rune_len_prefix [OF False, of t] lc by (simp add: rune_width_def)
  next
    case True
    show ?thesis
    proof (rule ccontr)
      assume "rune_width p \<noteq> length c"
      with True lc have nz: "rune_len ?s \<noteq> 0" by (simp add: rune_width_def)
      then have rl: "rune_len ?s = length c" using lc by (simp add: rune_width_def)
      have "rune_len (take (rune_len ?s) ?s @ concat cs) = rune_len ?s"
        by (rule rune_len_append [OF nz])
      moreover have "take (rune_len ?s) ?s @ concat cs = p"
        unfolding rl using p by simp
      ultimately show False using True nz by simp
    qed
  qed
  have "drop (rune_width ?s) ?s = concat cs @ t" using p lc by simp
  with rest have "runes (concat cs) = cs" using Cons.IH [of "concat cs"] by simp
  with wp p runes_Cons [OF pne] show ?case by simp
qed

lemma runes_concat_take: "runes (concat (take n (runes s))) = take n (runes s)"
  by (rule runes_append_cut [where t = "concat (drop n (runes s))" and ds = "drop n (runes s)"])
    (simp_all flip: concat_append)

lemma runes_drop_concat: "runes (concat (drop n (runes s))) = drop n (runes s)"
proof (induction s arbitrary: n rule: runes.induct)
  case (1 s)
  then show ?case
    by (cases "s = []"; cases n) (simp_all add: runes_Cons [of s])
qed

lemma runes_infix:
  assumes "runes s = us @ cs @ vs"
  shows "runes (concat cs) = cs"
proof -
  have "runes (concat (cs @ vs)) = cs @ vs"
    using runes_drop_concat [of "length us" s] assms by simp
  then show ?thesis
    using runes_append_cut [of "concat cs" "concat vs" cs vs] by simp
qed

subsection \<open>ASCII\<close>

definition ascii :: "string \<Rightarrow> bool" where
  "ascii s = list_all (\<lambda>c. byte c < 0x80) s"

lemma rune_width_ascii: "byte c < 0x80 \<Longrightarrow> rune_width (c # cs) = 1"
  by (simp add: rune_width_def utf8_lead_def)

lemma valid_rune_ascii: "byte c < 0x80 \<Longrightarrow> valid_rune [c]"
  by (simp add: valid_rune_def utf8_lead_def)

lemma runes_ascii_Cons: "byte c < 0x80 \<Longrightarrow> runes (c # cs) = [c] # runes cs"
  using runes_valid_append [OF valid_rune_ascii, of c cs] by simp

lemma runes_ascii: "ascii s \<Longrightarrow> runes s = map (\<lambda>c. [c]) s"
  by (induction s) (auto simp: ascii_def runes_ascii_Cons)

section \<open>Trimming and case\<close>

text \<open>\<open>unicode.IsSpace\<close> on a decoded group.\<close>

definition space_points :: "int list" where
  "space_points = [9, 10, 11, 12, 13, 32, 0x85, 0xA0, 0x1680, 0x2000, 0x2001, 0x2002, 0x2003, 0x2004,
     0x2005, 0x2006, 0x2007, 0x2008, 0x2009, 0x200A, 0x2028, 0x2029, 0x202F, 0x205F, 0x3000]"

definition is_space :: "string \<Rightarrow> bool" where
  "is_space ch \<longleftrightarrow> valid_rune ch \<and> List.member space_points (code_point ch)"

text \<open>\<open>strings.TrimSpace\<close>\<close>

definition trim_space :: "string \<Rightarrow> string" where
  "trim_space s = concat (trim_both is_space (runes s))"

text \<open>\<open>strings.ToLower\<close>: a non-ASCII string is rebuilt rune by rune, invalid bytes become U+FFFD.\<close>

definition lower_char :: "char \<Rightarrow> char" where
  "lower_char c = (if 65 \<le> byte c \<and> byte c \<le> 90 then chr8 (byte c + 32) else c)"

definition lower_rune :: "string \<Rightarrow> string" where
  "lower_rune ch =
     (if length ch = 1 \<and> valid_rune ch then map lower_char ch
      else if valid_rune ch \<and> code_point ch = 0x130 then ''i''
      else if valid_rune ch \<and> code_point ch = 0x212A then ''k''
      else re_encode ch)"

definition to_lower :: "string \<Rightarrow> string" where
  "to_lower s = concat (map lower_rune (runes s))"

text \<open>\<open>strings.EqualFold\<close>: equality up to simple folding, rune by rune.\<close>

definition fold_rune :: "string \<Rightarrow> string" where
  "fold_rune ch =
     (if valid_rune ch \<and> code_point ch = 0x17F then ''s''
      else if valid_rune ch \<and> code_point ch = 0x130 then ch
      else lower_rune ch)"

definition equal_fold :: "string \<Rightarrow> string \<Rightarrow> bool" where
  "equal_fold s t \<longleftrightarrow> map fold_rune (runes s) = map fold_rune (runes t)"

subsection \<open>TrimSpace\<close>

lemma runes_trim_space: "runes (trim_space s) = trim_both is_space (runes s)"
proof -
  obtain us vs where "runes s = us @ trim_both is_space (runes s) @ vs"
    using trim_both_infix by blast
  then show ?thesis unfolding trim_space_def by (rule runes_infix)
qed

lemma trim_space_idem [simp]: "trim_space (trim_space s) = trim_space s"
  by (simp add: trim_space_def [of "trim_space s"] runes_trim_space) (simp add: trim_space_def)

lemma trim_space_Nil [simp]: "trim_space [] = []"
  by (simp add: trim_space_def)

lemma concat_eq_Nil_runes: "cs \<noteq> [] \<Longrightarrow> set cs \<subseteq> set (runes s) \<Longrightarrow> concat cs \<noteq> []"
  using runes_nonempty by (cases cs) fastforce+

lemma trim_space_eq_Nil: "trim_space s = [] \<longleftrightarrow> (\<forall>ch \<in> set (runes s). is_space ch)"
proof -
  have "trim_space s = [] \<longleftrightarrow> trim_both is_space (runes s) = []"
    using concat_eq_Nil_runes [of "trim_both is_space (runes s)" s] set_trim_both [of is_space "runes s"]
    by (auto simp: trim_space_def)
  then show ?thesis by (simp add: trim_both_eq_Nil)
qed

lemma trim_space_infix: "\<exists>us vs. s = us @ trim_space s @ vs"
proof -
  obtain us vs where "runes s = us @ trim_both is_space (runes s) @ vs"
    using trim_both_infix by blast
  then have "concat (runes s) = concat us @ trim_space s @ concat vs"
    unfolding trim_space_def by (metis concat_append)
  then show ?thesis by auto
qed

lemma rune_count_trim_space: "rune_count (trim_space s) \<le> rune_count s"
proof -
  obtain us vs where eq: "runes s = us @ trim_both is_space (runes s) @ vs"
    using trim_both_infix by blast
  have "length (runes s) = length us + length (trim_both is_space (runes s)) + length vs"
    by (subst eq) simp
  then show ?thesis by (simp add: rune_count_def runes_trim_space)
qed

subsection \<open>ToLower\<close>

lemma rune_error_valid: "valid_rune rune_error_bytes"
  by code_simp

lemma valid_re_encode: "valid_rune (re_encode ch)"
  by (simp add: re_encode_def rune_error_valid)

lemma valid_single: "valid_rune [c] \<longleftrightarrow> byte c < 0x80"
  by (auto simp: valid_rune_def utf8_lead_def)

lemma byte_lower_char: "byte c < 0x80 \<Longrightarrow> byte (lower_char c) < 0x80"
  by (simp add: lower_char_def byte_chr8)

lemma lower_char_idem: "lower_char (lower_char c) = lower_char c"
  by (simp add: lower_char_def byte_chr8)

lemma lower_rune_ascii: "byte c < 0x80 \<Longrightarrow> lower_rune [c] = [lower_char c]"
  by (simp add: lower_rune_def valid_single)

lemma lower_rune_wide: "valid_rune ch \<Longrightarrow> length ch \<noteq> 1 \<Longrightarrow>
    code_point ch \<noteq> 0x130 \<Longrightarrow> code_point ch \<noteq> 0x212A \<Longrightarrow> lower_rune ch = ch"
  by (simp add: lower_rune_def re_encode_def)

lemma lower_rune_invalid: "\<not> valid_rune ch \<Longrightarrow> lower_rune ch = rune_error_bytes"
  by (simp add: lower_rune_def re_encode_def)

lemma lower_rune_130: "valid_rune ch \<Longrightarrow> length ch \<noteq> 1 \<Longrightarrow> code_point ch = 0x130 \<Longrightarrow> lower_rune ch = ''i''"
  by (simp add: lower_rune_def)

lemma lower_rune_212A: "valid_rune ch \<Longrightarrow> length ch \<noteq> 1 \<Longrightarrow> code_point ch = 0x212A \<Longrightarrow> lower_rune ch = ''k''"
  by (simp add: lower_rune_def)

lemma lower_rune_i_k: "lower_rune ''i'' = ''i''" "lower_rune ''k'' = ''k''"
  by code_simp+

lemma lower_rune_error: "lower_rune rune_error_bytes = rune_error_bytes"
  by code_simp

text \<open>What lowering a group can do to it.\<close>

lemma lower_rune_cases:
  obtains (ascii) c where "ch = [c]" "byte c < 0x80"
  | (wide) "valid_rune ch" "length ch \<noteq> 1" "code_point ch \<noteq> 0x130" "code_point ch \<noteq> 0x212A"
  | (i) "valid_rune ch" "length ch \<noteq> 1" "code_point ch = 0x130"
  | (k) "valid_rune ch" "length ch \<noteq> 1" "code_point ch = 0x212A"
  | (invalid) "\<not> valid_rune ch"
proof (cases "valid_rune ch \<and> length ch = 1")
  case True
  then obtain c where "ch = [c]" by (cases ch) auto
  with True that(1) show ?thesis by (simp add: valid_single)
qed (use that in blast)

lemma valid_lower_rune: "valid_rune (lower_rune ch)"
  by (cases ch rule: lower_rune_cases)
    (simp_all add: lower_rune_ascii lower_rune_wide lower_rune_130 lower_rune_212A lower_rune_invalid
      valid_single byte_lower_char rune_error_valid, simp_all add: byte_def)

lemma runes_to_lower: "runes (to_lower s) = map lower_rune (runes s)"
  unfolding to_lower_def by (rule runes_concat_valid) (simp add: list_all_iff valid_lower_rune)

lemma lower_rune_idem: "lower_rune (lower_rune ch) = lower_rune ch"
  by (cases ch rule: lower_rune_cases)
    (simp_all add: lower_rune_ascii lower_rune_wide lower_rune_130 lower_rune_212A lower_rune_invalid
      byte_lower_char lower_char_idem lower_rune_i_k lower_rune_error)

lemma to_lower_idem [simp]: "to_lower (to_lower s) = to_lower s"
  by (simp add: to_lower_def [of "to_lower s"] runes_to_lower o_def lower_rune_idem)
    (simp add: to_lower_def)

lemma is_space_lower_char: "byte c < 0x80 \<Longrightarrow> is_space [lower_char c] = is_space [c]"
  by (auto simp: is_space_def valid_single byte_lower_char space_points_def lower_char_def byte_chr8)

lemma not_space_i_k: "\<not> is_space ''i''" "\<not> is_space ''k''" "\<not> is_space rune_error_bytes"
  by code_simp+

lemma is_space_lower_rune: "is_space (lower_rune ch) = is_space ch"
  by (cases ch rule: lower_rune_cases)
    (simp_all add: lower_rune_ascii lower_rune_wide lower_rune_130 lower_rune_212A lower_rune_invalid
      is_space_lower_char not_space_i_k, simp_all add: is_space_def space_points_def)

text \<open>Trimming and lowering commute, so a value that has gone through both is a fixed point of both.\<close>

lemma trim_space_to_lower: "trim_space (to_lower s) = to_lower (trim_space s)"
proof -
  have "trim_space (to_lower s) = concat (trim_both is_space (map lower_rune (runes s)))"
    by (simp add: trim_space_def runes_to_lower)
  also have "\<dots> = concat (map lower_rune (trim_both is_space (runes s)))"
    by (simp add: trim_both_map o_def is_space_lower_rune)
  also have "\<dots> = to_lower (trim_space s)"
    by (simp add: to_lower_def runes_trim_space)
  finally show ?thesis .
qed

lemma lower_trim_idem [simp]: "to_lower (trim_space (to_lower (trim_space s))) = to_lower (trim_space s)"
  by (simp add: trim_space_to_lower)

lemma to_lower_Nil [simp]: "to_lower [] = []"
  by (simp add: to_lower_def)

lemma to_lower_eq_Nil [simp]: "to_lower s = [] \<longleftrightarrow> s = []"
proof -
  have "runes (to_lower s) = [] \<longleftrightarrow> runes s = []" by (simp only: runes_to_lower map_is_Nil_conv)
  then show ?thesis by (simp only: runes_eq_Nil)
qed

subsection \<open>EqualFold\<close>

lemma equal_fold_refl [simp]: "equal_fold s s"
  by (simp add: equal_fold_def)

lemma equal_fold_sym: "equal_fold s t \<longleftrightarrow> equal_fold t s"
  by (auto simp: equal_fold_def)

lemma equal_fold_trans: "equal_fold s t \<Longrightarrow> equal_fold t u \<Longrightarrow> equal_fold s u"
  by (simp add: equal_fold_def)

section \<open>Searching, splitting and joining\<close>

text \<open>\<open>strings.Split\<close> with a one-byte separator: always at least one field.\<close>

fun split_on :: "char \<Rightarrow> string \<Rightarrow> string list" where
  "split_on d [] = [[]]"
| "split_on d (c # cs) =
     (if c = d then [] # split_on d cs
      else (case split_on d cs of [] \<Rightarrow> [[c]] | f # fs \<Rightarrow> (c # f) # fs))"

text \<open>\<open>strings.Join\<close>\<close>

fun join :: "string \<Rightarrow> string list \<Rightarrow> string" where
  "join sep [] = []"
| "join sep [x] = x"
| "join sep (x # y # ys) = x @ sep @ join sep (y # ys)"

fun has_prefix :: "string \<Rightarrow> string \<Rightarrow> bool" where
  "has_prefix s [] = True"
| "has_prefix [] (p # ps) = False"
| "has_prefix (c # cs) (p # ps) = (c = p \<and> has_prefix cs ps)"

definition trim_prefix :: "string \<Rightarrow> string \<Rightarrow> string" where
  "trim_prefix s p = (if has_prefix s p then drop (length p) s else s)"

fun contains :: "string \<Rightarrow> string \<Rightarrow> bool" where
  "contains [] p = (p = [])"
| "contains (c # cs) p = (has_prefix (c # cs) p \<or> contains cs p)"

text \<open>\<open>strings.TrimRight\<close> with a one-byte cutset.\<close>

definition trim_right_char :: "char \<Rightarrow> string \<Rightarrow> string" where
  "trim_right_char d s = rev (dropWhile (\<lambda>c. c = d) (rev s))"

text \<open>The text before and after the last \<open>d\<close>, if there is one (\<open>strings.LastIndex\<close> and slicing).\<close>

fun split_last :: "char \<Rightarrow> string \<Rightarrow> (string \<times> string) option" where
  "split_last d [] = None"
| "split_last d (c # cs) =
     (case split_last d cs of
        Some (a, b) \<Rightarrow> Some (c # a, b)
      | None \<Rightarrow> if c = d then Some ([], cs) else None)"

lemma split_on_nonempty [simp]: "split_on d s \<noteq> []"
  by (cases s) (auto split: list.splits)

lemma join_split_on: "join [d] (split_on d s) = s"
proof (induction s)
  case (Cons c cs)
  obtain f fs where sp: "split_on d cs = f # fs"
    using split_on_nonempty [of d cs] by (cases "split_on d cs") auto
  show ?case
  proof (cases "c = d")
    case True
    with Cons sp show ?thesis by simp
  next
    case False
    from Cons sp have "join [d] (f # fs) = cs" by simp
    then have "join [d] ((c # f) # fs) = c # cs" by (cases fs) auto
    with False sp show ?thesis by simp
  qed
qed simp

lemma split_on_no_sep: "f \<in> set (split_on d s) \<Longrightarrow> d \<notin> set f"
proof (induction s arbitrary: f)
  case (Cons c cs)
  then show ?case
    by (cases "split_on d cs") (auto split: if_splits)
qed simp

lemma has_prefix_iff: "has_prefix s p \<longleftrightarrow> (\<exists>t. s = p @ t)"
  by (induction s p rule: has_prefix.induct) auto

lemma trim_prefix_append [simp]: "trim_prefix (p @ t) p = t"
  by (auto simp: trim_prefix_def has_prefix_iff)

lemma split_last_Some: "split_last d s = Some (a, b) \<longleftrightarrow> s = a @ d # b \<and> d \<notin> set b"
proof (induction s arbitrary: a b)
  case (Cons c cs)
  show ?case
  proof (cases "split_last d cs")
    case None
    then have "\<nexists>u v. cs = u @ d # v \<and> d \<notin> set v" using Cons.IH by simp
    then have "d \<notin> set cs" using split_list_last by metis
    with None show ?thesis by (auto simp: append_eq_Cons_conv Cons_eq_append_conv)
  next
    case (Some p)
    then obtain u v where p: "split_last d cs = Some (u, v)" by (cases p) auto
    then have cs: "cs = u @ d # v" "d \<notin> set v" using Cons.IH by auto
    show ?thesis
    proof
      assume "split_last d (c # cs) = Some (a, b)"
      with p cs show "c # cs = a @ d # b \<and> d \<notin> set b" by auto
    next
      assume a: "c # cs = a @ d # b \<and> d \<notin> set b"
      then have "a \<noteq> []" using cs by auto
      then obtain a' where "a = c # a'" "cs = a' @ d # b" using a by (cases a) auto
      then have "split_last d cs = Some (a', b)" using Cons.IH a by blast
      with \<open>a = c # a'\<close> show "split_last d (c # cs) = Some (a, b)" by simp
    qed
  qed
qed simp

lemma split_last_None: "split_last d s = None \<longleftrightarrow> d \<notin> set s"
proof -
  have "split_last d s \<noteq> None \<longleftrightarrow> (\<exists>a b. s = a @ d # b \<and> d \<notin> set b)"
    by (metis option.exhaust option.simps(3) split_last_Some surj_pair)
  also have "\<dots> \<longleftrightarrow> d \<in> set s" using split_list_last [of d s] by auto
  finally show ?thesis by blast
qed

section \<open>Numbers\<close>

definition is_digit :: "char \<Rightarrow> bool" where
  "is_digit c \<longleftrightarrow> 48 \<le> byte c \<and> byte c \<le> 57"

definition digit_val :: "char \<Rightarrow> int" where
  "digit_val c = byte c - 48"

definition digits_val :: "string \<Rightarrow> int" where
  "digits_val s = fold (\<lambda>c n. 10 * n + digit_val c) s 0"

text \<open>
  \<open>strconv.Atoi\<close> on a 64-bit platform: an optional sign, at least one decimal digit, nothing
  else, and the value in the range of \<open>int\<close>; \<open>None\<close> is the error.
\<close>

definition in_int64 :: "int \<Rightarrow> bool" where
  "in_int64 n \<longleftrightarrow> - (2 ^ 63) \<le> n \<and> n < 2 ^ 63"

definition atoi :: "string \<Rightarrow> int option" where
  "atoi s =
     (let neg = (case s of c # _ \<Rightarrow> c = CHR ''-'' | [] \<Rightarrow> False);
          ds = (case s of c # cs \<Rightarrow> if c = CHR ''-'' \<or> c = CHR ''+'' then cs else s | [] \<Rightarrow> []);
          v = (if neg then - digits_val ds else digits_val ds)
      in if ds \<noteq> [] \<and> list_all is_digit ds \<and> in_int64 v then Some v else None)"

text \<open>\<open>strconv.Itoa\<close>\<close>

fun nat_digits :: "nat \<Rightarrow> string" where
  "nat_digits n = (if n < 10 then [chr8 (48 + int n)] else nat_digits (n div 10) @ [chr8 (48 + int (n mod 10))])"

declare nat_digits.simps [simp del]

definition itoa :: "int \<Rightarrow> string" where
  "itoa n = (if n < 0 then CHR ''-'' # nat_digits (nat (- n)) else nat_digits (nat n))"

lemma digits_val_snoc: "digits_val (ds @ [d]) = 10 * digits_val ds + digit_val d"
  by (simp add: digits_val_def)

lemma digit_chr8: "0 \<le> n \<Longrightarrow> n < 10 \<Longrightarrow> is_digit (chr8 (48 + n)) \<and> digit_val (chr8 (48 + n)) = n"
  by (simp add: is_digit_def digit_val_def byte_chr8)

lemma nat_digits_digits: "list_all is_digit (nat_digits n) \<and> digits_val (nat_digits n) = int n \<and> nat_digits n \<noteq> []"
proof (induction n rule: nat_digits.induct)
  case (1 n)
  show ?case
  proof (cases "n < 10")
    case True
    then show ?thesis
      using digit_chr8 [of "int n"] by (simp add: nat_digits.simps [of n] digits_val_def)
  next
    case False
    with 1 have IH: "list_all is_digit (nat_digits (n div 10))" "digits_val (nat_digits (n div 10)) = int (n div 10)"
      by auto
    have "int n = 10 * int (n div 10) + int (n mod 10)" by presburger
    with IH False show ?thesis
      using digit_chr8 [of "int (n mod 10)"] by (simp add: nat_digits.simps [of n] digits_val_snoc)
  qed
qed

lemma is_digit_not_sign: "is_digit c \<Longrightarrow> c \<noteq> CHR ''-'' \<and> c \<noteq> CHR ''+''"
  by (auto simp: is_digit_def byte_def)

lemma atoi_itoa: "0 \<le> n \<Longrightarrow> n < 2 ^ 63 \<Longrightarrow> atoi (itoa n) = Some n"
proof -
  assume n: "0 \<le> n" "n < 2 ^ 63"
  obtain c cs where ds: "nat_digits (nat n) = c # cs"
    using nat_digits_digits [of "nat n"] by (cases "nat_digits (nat n)") auto
  with nat_digits_digits [of "nat n"] is_digit_not_sign have "c \<noteq> CHR ''-''" "c \<noteq> CHR ''+''" by auto
  with n ds nat_digits_digits [of "nat n"] show ?thesis
    by (simp add: atoi_def itoa_def in_int64_def Let_def)
qed

section \<open>Host and port\<close>

text \<open>
  \<open>net.SplitHostPort\<close>: the port follows the last colon; a host in brackets may hold colons,
  another host may not; stray brackets are errors.
\<close>

definition split_host_port :: "string \<Rightarrow> (string \<times> string) option" where
  "split_host_port s =
     (case split_last CHR '':'' s of
        None \<Rightarrow> None
      | Some (h, p) \<Rightarrow>
          if has_prefix s ''['' then
            (case split_on CHR '']'' h of
               [inner, []] \<Rightarrow>
                 if CHR ''['' \<in> set (tl inner) \<or> CHR ''['' \<in> set p \<or> CHR '']'' \<in> set p then None
                 else Some (tl inner, p)
             | _ \<Rightarrow> None)
          else if CHR '':'' \<in> set h \<or> CHR ''['' \<in> set s \<or> CHR '']'' \<in> set s then None
          else Some (h, p))"

lemma split_host_port_plain:
  assumes "CHR '':'' \<notin> set h" "CHR '':'' \<notin> set p"
    and "CHR ''['' \<notin> set h" "CHR ''['' \<notin> set p" "CHR '']'' \<notin> set h" "CHR '']'' \<notin> set p"
  shows "split_host_port (h @ '':'' @ p) = Some (h, p)"
proof -
  have "split_last CHR '':'' (h @ '':'' @ p) = Some (h, p)" using assms by (simp add: split_last_Some)
  moreover have "\<not> has_prefix (h @ '':'' @ p) ''[''" using assms by (cases h) (auto simp: has_prefix_iff)
  ultimately show ?thesis using assms by (simp add: split_host_port_def)
qed

section \<open>Quoting\<close>

text \<open>\<open>strconv.Quote\<close> (\<open>%q\<close>), given the Unicode table \<open>strconv.IsPrint\<close> of code points.\<close>

definition hex_digit :: "int \<Rightarrow> char" where
  "hex_digit n = chr8 (if n < 10 then 48 + n else 87 + n)"

fun hex_digits :: "nat \<Rightarrow> int \<Rightarrow> string" where
  "hex_digits 0 n = []"
| "hex_digits (Suc k) n = hex_digits k (n div 16) @ [hex_digit (n mod 16)]"

definition quote_rune :: "(int \<Rightarrow> bool) \<Rightarrow> string \<Rightarrow> string" where
  "quote_rune is_print ch =
     (if \<not> valid_rune ch then [CHR 0x5C, CHR ''x''] @ concat (map (\<lambda>c. hex_digits 2 (byte c)) ch)
      else let r = code_point ch in
        if r = 0x22 \<or> r = 0x5C then CHR 0x5C # ch
        else if is_print r then ch
        else if r = 7 then [CHR 0x5C, CHR ''a'']
        else if r = 8 then [CHR 0x5C, CHR ''b'']
        else if r = 12 then [CHR 0x5C, CHR ''f'']
        else if r = 10 then [CHR 0x5C, CHR ''n'']
        else if r = 13 then [CHR 0x5C, CHR ''r'']
        else if r = 9 then [CHR 0x5C, CHR ''t'']
        else if r = 11 then [CHR 0x5C, CHR ''v'']
        else if r < 32 \<or> r = 127 then [CHR 0x5C, CHR ''x''] @ hex_digits 2 r
        else if r < 0x10000 then [CHR 0x5C, CHR ''u''] @ hex_digits 4 r
        else [CHR 0x5C, CHR ''U''] @ hex_digits 8 r)"

definition go_quote :: "(int \<Rightarrow> bool) \<Rightarrow> string \<Rightarrow> string" where
  "go_quote is_print s = [CHR 0x22] @ concat (map (quote_rune is_print) (runes s)) @ [CHR 0x22]"

subsection \<open>Printable ASCII\<close>

lemma not_space_printable: "32 < byte c \<Longrightarrow> byte c < 127 \<Longrightarrow> \<not> is_space [c]"
  by (simp add: is_space_def space_points_def)

lemma trim_space_printable:
  assumes "list_all (\<lambda>c. 32 < byte c \<and> byte c < 127) s"
  shows "trim_space s = s"
proof -
  have r: "runes s = map (\<lambda>c. [c]) s" by (rule runes_ascii) (use assms in \<open>auto simp: ascii_def list_all_iff\<close>)
  have "trim_both is_space (runes s) = runes s"
  proof (rule trim_both_id)
    show "\<not> is_space (hd (runes s))" if "runes s \<noteq> []"
      using assms that unfolding r by (cases s) (auto simp: not_space_printable)
    show "\<not> is_space (last (runes s))" if "runes s \<noteq> []"
      using assms that unfolding r by (cases s rule: rev_cases) (auto simp: not_space_printable)
  qed
  then show ?thesis by (simp add: trim_space_def)
qed

end
