(* ===== verification/Module_Sort.thy ===== *)
theory Module_Sort
  imports Go_Strings "HOL-Library.Char_ord" "HOL-Library.List_Lexorder" "HOL-Library.Multiset"
begin

text \<open>
  \<open>module/api.go\<close>: the startup modules of a service, their ordering by dependencies
  (\<open>Sort\<close>, Kahn's algorithm with the ready queue kept in registration order) and their execution
  (\<open>Execute\<close>). A module is its interface: \<open>Enabled\<close>, \<open>Description\<close>, \<open>Dependencies\<close>
  and \<open>Init\<close>; \<open>Init\<close> is a step on an arbitrary state \<open>'s\<close> that may return an error. A
  \<open>nil\<close> entry of the variadic argument is \<open>None\<close>. Node pointers are the node's name,
  which the first loop of \<open>Sort\<close> makes unique.

  The reference definition \<open>module_order\<close> repeatedly takes the earliest registered module all of
  whose dependencies have been taken; \<open>sort_modules_reference\<close> shows that \<open>Sort\<close> computes it, and the
  topological properties are proved on the reference.
\<close>

section \<open>Modules\<close>

record ('s, 'e) module =
  m_enabled :: bool
  m_name :: string
  m_desc :: string
  m_dependencies :: "string list"
  m_init :: "'s \<Rightarrow> 'e option \<times> 's"

text \<open>\<open>normalizeDependencies\<close>: trim, drop empty entries, keep the first of equal ones.\<close>

fun normalize_loop :: "string list \<Rightarrow> string list \<Rightarrow> string list \<Rightarrow> string list" where
  "normalize_loop seen ordered [] = ordered"
| "normalize_loop seen ordered (d # ds) =
     (let dependency = trim_space d in
      if dependency = [] then normalize_loop seen ordered ds
      else if dependency \<in> set seen then normalize_loop seen ordered ds
      else normalize_loop (dependency # seen) (ordered @ [dependency]) ds)"

definition normalize_dependencies :: "string list \<Rightarrow> string list" where
  "normalize_dependencies dependencies = normalize_loop [] [] dependencies"

definition new_module_wrapper ::
  "string \<Rightarrow> string \<Rightarrow> ('s \<Rightarrow> 'e option \<times> 's) \<Rightarrow> string list \<Rightarrow> ('s, 'e) module" where
  "new_module_wrapper name desc initFn dependencies =
     \<lparr> m_enabled = True, m_name = trim_space name, m_desc = trim_space desc,
       m_dependencies = normalize_dependencies dependencies, m_init = initFn \<rparr>"

section \<open>Sort\<close>

datatype sort_error =
    Empty_Name nat
  | Duplicate_Module string
  | Self_Dependency string
  | Unknown_Dependency string string
  | Dependency_Cycle "string list"

record 'm node =
  nd_module :: 'm
  nd_name :: string
  nd_index :: nat
  nd_depends_on :: "string list"
  nd_dependents :: "string list"
  nd_in_degree :: int

definition mk_node :: "('s, 'e) module \<Rightarrow> string \<Rightarrow> nat \<Rightarrow> ('s, 'e) module node" where
  "mk_node m name index =
     \<lparr> nd_module = m, nd_name = name, nd_index = index,
       nd_depends_on = normalize_dependencies (m_dependencies m), nd_dependents = [], nd_in_degree = 0 \<rparr>"

text \<open>First loop: one node per enabled module, rejecting empty and duplicate names.\<close>

fun collect_nodes ::
  "nat \<Rightarrow> ('s, 'e) module node list \<Rightarrow> ('s, 'e) module option list \<Rightarrow>
   (sort_error, ('s, 'e) module node list) result" where
  "collect_nodes index nodes [] = Inr nodes"
| "collect_nodes index nodes (None # ms) = collect_nodes (Suc index) nodes ms"
| "collect_nodes index nodes (Some m # ms) =
     (if \<not> m_enabled m then collect_nodes (Suc index) nodes ms
      else let name = trim_space (m_name m) in
        if name = [] then Inl (Empty_Name index)
        else if name \<in> set (map nd_name nodes) then Inl (Duplicate_Module name)
        else collect_nodes (Suc index) (nodes @ [mk_node m name index]) ms)"

text \<open>\<open>nodesByName[x]\<close> and a write through that pointer.\<close>

definition find_node :: "'m node list \<Rightarrow> string \<Rightarrow> 'm node option" where
  "find_node nodes x = find (\<lambda>n. nd_name n = x) nodes"

definition update_node :: "string \<Rightarrow> ('m node \<Rightarrow> 'm node) \<Rightarrow> 'm node list \<Rightarrow> 'm node list" where
  "update_node x f nodes = map (\<lambda>n. if nd_name n = x then f n else n) nodes"

definition add_in_degree :: "int \<Rightarrow> 'm node \<Rightarrow> 'm node" where
  "add_in_degree k n = n\<lparr>nd_in_degree := nd_in_degree n + k\<rparr>"

definition add_dependent :: "string \<Rightarrow> 'm node \<Rightarrow> 'm node" where
  "add_dependent x n = n\<lparr>nd_dependents := nd_dependents n @ [x]\<rparr>"

text \<open>Second loop: count the prerequisites of each node and record it with each of them.\<close>

fun link_deps :: "string \<Rightarrow> string list \<Rightarrow> 'm node list \<Rightarrow> (sort_error, 'm node list) result" where
  "link_deps current [] nodes = Inr nodes"
| "link_deps current (dependency # ds) nodes =
     (if dependency = current then Inl (Self_Dependency current)
      else case find_node nodes dependency of
        None \<Rightarrow> Inl (Unknown_Dependency current dependency)
      | Some _ \<Rightarrow> link_deps current ds
          (update_node dependency (add_dependent current) (update_node current (add_in_degree 1) nodes)))"

fun link_all :: "(string \<times> string list) list \<Rightarrow> 'm node list \<Rightarrow> (sort_error, 'm node list) result" where
  "link_all [] nodes = Inr nodes"
| "link_all ((current, ds) # rest) nodes = bind_res (link_deps current ds nodes) (link_all rest)"

definition node_table :: "'m node list \<Rightarrow> (string \<times> string list) list" where
  "node_table nodes = map (\<lambda>n. (nd_name n, nd_depends_on n)) nodes"

text \<open>The ready queue holds node pointers with the index that orders them.\<close>

type_synonym ready = "(nat \<times> string) list"

definition node_key :: "'m node \<Rightarrow> nat \<times> string" where
  "node_key n = (nd_index n, nd_name n)"

definition initial_ready :: "'m node list \<Rightarrow> ready" where
  "initial_ready nodes = sort_key fst (map node_key (filter (\<lambda>n. nd_in_degree n = 0) nodes))"

text \<open>
  The inner loop over the dependents of the node just taken. The \<open>None\<close> branch would be a nil
  dereference; it is never reached on linked nodes.
\<close>

fun release :: "string list \<Rightarrow> 'm node list \<Rightarrow> ready \<Rightarrow> 'm node list \<times> ready" where
  "release [] nodes ready = (nodes, ready)"
| "release (d # ds) nodes ready =
     (let nodes' = update_node d (add_in_degree (- 1)) nodes in
      case find_node nodes' d of
        None \<Rightarrow> release ds nodes' ready
      | Some n \<Rightarrow>
          if nd_in_degree n = 0 then release ds nodes' (sort_key fst (ready @ [node_key n]))
          else release ds nodes' ready)"

text \<open>
  The main loop. Every turn takes one entry from the queue, and an entry is only added when an
  in-degree falls from 1 to 0, so queue length plus positive in-degrees decreases.
\<close>

definition pending :: "'m node list \<Rightarrow> nat" where
  "pending nodes = length (filter (\<lambda>n. 0 < nd_in_degree n) nodes)"

lemma pending_dec_le: "pending (update_node d (add_in_degree (- 1)) nodes) \<le> pending nodes"
  by (induction nodes) (auto simp: pending_def update_node_def add_in_degree_def)

lemma pending_dec_less:
  assumes "find_node (update_node d (add_in_degree (- 1)) nodes) d = Some n" "nd_in_degree n = 0"
  shows "pending (update_node d (add_in_degree (- 1)) nodes) < pending nodes"
  using assms
proof (induction nodes)
  case (Cons a nodes)
  show ?case
  proof (cases "nd_name a = d")
    case True
    with Cons.prems have "nd_in_degree a = 1"
      by (auto simp: find_node_def update_node_def add_in_degree_def)
    then have "\<not> 0 < nd_in_degree (add_in_degree (- 1) a)" "0 < nd_in_degree a"
      by (simp_all add: add_in_degree_def)
    then show ?thesis
      using True pending_dec_le [of d nodes] by (simp add: pending_def update_node_def)
  next
    case False
    with Cons show ?thesis by (auto simp: pending_def update_node_def find_node_def)
  qed
qed (simp add: find_node_def update_node_def)

lemma release_measure:
  "length (snd (release ds nodes ready)) + pending (fst (release ds nodes ready))
     \<le> length ready + pending nodes"
proof (induction ds nodes ready rule: release.induct)
  case (2 d ds nodes ready)
  let ?n' = "update_node d (add_in_degree (- 1)) nodes"
  show ?case
  proof (cases "find_node ?n' d")
    case None
    with 2(1) [OF refl None] pending_dec_le [of d nodes] show ?thesis by (simp add: Let_def)
  next
    case (Some n)
    with 2(2,3) [OF refl Some] pending_dec_le [of d nodes] pending_dec_less [OF Some]
    show ?thesis by (cases "nd_in_degree n = 0") (auto simp: Let_def)
  qed
qed simp

function drain :: "'m node list \<Rightarrow> ready \<Rightarrow> 'm list \<Rightarrow> 'm node list \<times> 'm list" where
  "drain nodes [] ordered = (nodes, ordered)"
| "drain nodes ((i, x) # ready) ordered =
     (case find_node nodes x of
        None \<Rightarrow> (nodes, ordered)
      | Some current \<Rightarrow>
          let (nodes', ready') = release (nd_dependents current) nodes ready
          in drain nodes' ready' (ordered @ [nd_module current]))"
  by pat_completeness auto
termination
proof (relation "measure (\<lambda>(nodes, ready, _). length ready + pending nodes)", goal_cases)
  case (2 nodes i x ready ordered current nr nodes' ready')
  then have "(nodes', ready') = release (nd_dependents current) nodes ready" by simp
  then show ?case
    using release_measure [of "nd_dependents current" nodes ready] by (cases nr) (simp flip: 2(2))
qed simp

definition blocked_names :: "'m node list \<Rightarrow> string list" where
  "blocked_names nodes = sort (map nd_name (filter (\<lambda>n. 0 < nd_in_degree n) nodes))"

definition sort_modules ::
  "('s, 'e) module option list \<Rightarrow> (sort_error, ('s, 'e) module list) result" where
  "sort_modules modules =
     bind_res (collect_nodes 0 [] modules) (\<lambda>nodes0.
     bind_res (link_all (node_table nodes0) nodes0) (\<lambda>nodes.
       let (nodes', ordered) = drain nodes (initial_ready nodes) [] in
       if length ordered \<noteq> length nodes then Inl (Dependency_Cycle (blocked_names nodes'))
       else Inr ordered))"

section \<open>Execute\<close>

datatype 'e exec_error = Sort_Failed sort_error | Init_Failed string 'e

fun run_inits :: "('s, 'e) module list \<Rightarrow> 's \<Rightarrow> 'e exec_error option \<times> 's" where
  "run_inits [] s = (None, s)"
| "run_inits (current # rest) s =
     (case m_init current s of
        (Some e, s') \<Rightarrow> (Some (Init_Failed (trim_space (m_name current)) e), s')
      | (None, s') \<Rightarrow> run_inits rest s')"

definition execute :: "('s, 'e) module option list \<Rightarrow> 's \<Rightarrow> 'e exec_error option \<times> 's" where
  "execute modules s =
     (case sort_modules modules of
        Inl e \<Rightarrow> (Some (Sort_Failed e), s)
      | Inr ordered \<Rightarrow> run_inits ordered s)"

text \<open>What every initializer keeps, the execution keeps, whether it succeeds or not.\<close>

lemma run_inits_keeps:
  assumes "\<And>m s. m \<in> set ms \<Longrightarrow> P s \<Longrightarrow> P (snd (m_init m s))" "P s"
  shows "P (snd (run_inits ms s))"
  using assms
proof (induction ms s rule: run_inits.induct)
  case (2 current rest s)
  then have "P (snd (m_init current s))" by simp
  with 2 show ?case by (cases "m_init current s"; cases "fst (m_init current s)") auto
qed simp

section \<open>The reference order\<close>

type_synonym dep_table = "(string \<times> string list) list"

definition ready_names :: "dep_table \<Rightarrow> string list \<Rightarrow> string list" where
  "ready_names t taken = map fst (filter (\<lambda>(x, ds). x \<notin> set taken \<and> set ds \<subseteq> set taken) t)"

fun greedy_order :: "nat \<Rightarrow> dep_table \<Rightarrow> string list \<Rightarrow> string list" where
  "greedy_order 0 t taken = taken"
| "greedy_order (Suc k) t taken =
     (case ready_names t taken of [] \<Rightarrow> taken | x # _ \<Rightarrow> greedy_order k t (taken @ [x]))"

definition module_order :: "dep_table \<Rightarrow> string list" where
  "module_order t = greedy_order (length t) t []"

definition dep_rel :: "dep_table \<Rightarrow> (string \<times> string) set" where
  "dep_rel t = {(d, x). \<exists>ds. (x, ds) \<in> set t \<and> d \<in> set ds}"

section \<open>Normalised dependency lists\<close>

lemma normalize_loop_spec:
  assumes "set seen = set ordered" "distinct ordered"
  shows "distinct (normalize_loop seen ordered ds)"
    and "set (normalize_loop seen ordered ds) = set ordered \<union> (trim_space ` set ds - {[]})"
  using assms
  by (induction seen ordered ds rule: normalize_loop.induct) (auto simp: Let_def)

lemma distinct_normalize_dependencies: "distinct (normalize_dependencies ds)"
  by (simp add: normalize_dependencies_def normalize_loop_spec)

lemma set_normalize_dependencies: "set (normalize_dependencies ds) = trim_space ` set ds - {[]}"
  by (simp add: normalize_dependencies_def normalize_loop_spec)

lemma normalize_loop_fixed:
  assumes "distinct ds" "set ds \<inter> set seen = {}" "\<forall>d \<in> set ds. d \<noteq> [] \<and> trim_space d = d"
  shows "normalize_loop seen ordered ds = ordered @ ds"
  using assms by (induction seen ordered ds rule: normalize_loop.induct) (auto simp: Let_def)

lemma normalize_dependencies_idem:
  "normalize_dependencies (normalize_dependencies ds) = normalize_dependencies ds"
  unfolding normalize_dependencies_def [of "normalize_dependencies ds"]
  by (subst normalize_loop_fixed)
    (auto simp: distinct_normalize_dependencies set_normalize_dependencies)

section \<open>The reference order is topological\<close>

text \<open>The names of a table, and the modules whose dependencies can never all be taken.\<close>

definition names_of :: "dep_table \<Rightarrow> string set" where
  "names_of t = fst ` set t"

definition wf_table :: "dep_table \<Rightarrow> bool" where
  "wf_table t \<longleftrightarrow> distinct (map fst t) \<and> (\<forall>(x, ds) \<in> set t. set ds \<subseteq> names_of t)"

text \<open>\<open>taken\<close> lists modules of the table, each after all of its dependencies.\<close>

definition deps_first :: "dep_table \<Rightarrow> string list \<Rightarrow> bool" where
  "deps_first t taken \<longleftrightarrow>
     distinct taken \<and> set taken \<subseteq> names_of t \<and>
     (\<forall>us x vs. taken = us @ x # vs \<longrightarrow> (\<forall>ds. (x, ds) \<in> set t \<longrightarrow> set ds \<subseteq> set us))"

lemma deps_first_Nil [simp]: "deps_first t []"
  by (simp add: deps_first_def)

lemma deps_firstD: "deps_first t (us @ x # vs) \<Longrightarrow> (x, ds) \<in> set t \<Longrightarrow> set ds \<subseteq> set us"
  unfolding deps_first_def by blast

lemma ready_names_mem:
  "x \<in> set (ready_names t taken) \<longleftrightarrow>
     x \<notin> set taken \<and> (\<exists>ds. (x, ds) \<in> set t \<and> set ds \<subseteq> set taken)"
  by (force simp: ready_names_def)

lemma deps_first_snoc:
  assumes "wf_table t" "deps_first t taken" "x \<in> set (ready_names t taken)"
  shows "deps_first t (taken @ [x])"
proof -
  from assms(3) obtain ds where x: "x \<notin> set taken" "(x, ds) \<in> set t" "set ds \<subseteq> set taken"
    by (auto simp: ready_names_mem)
  have uniq: "ds' = ds" if "(x, ds') \<in> set t" for ds'
    using that x(2) assms(1) eq_key_imp_eq_value unfolding wf_table_def by metis
  have "set ds' \<subseteq> set us"
    if "taken @ [x] = us @ y # vs" "(y, ds') \<in> set t" for us y vs ds'
  proof (cases vs rule: rev_cases)
    case Nil
    with that x uniq show ?thesis by auto
  next
    case (snoc vs' z)
    with that(1) have "taken = us @ y # vs'" by simp
    with assms(2) that(2) show ?thesis by (auto simp: deps_first_def)
  qed
  moreover have "x \<in> names_of t" using x(2) by (force simp: names_of_def)
  ultimately show ?thesis using assms(2) x(1) by (auto simp: deps_first_def)
qed

lemma ready_names_hd: "ready_names t taken = x # xs \<Longrightarrow> x \<in> set (ready_names t taken)"
  by simp

lemma greedy_order_deps_first:
  "wf_table t \<Longrightarrow> deps_first t taken \<Longrightarrow> deps_first t (greedy_order k t taken)"
  by (induction k t taken rule: greedy_order.induct)
    (auto split: list.splits intro: deps_first_snoc ready_names_hd)

lemma deps_first_length: "wf_table t \<Longrightarrow> deps_first t taken \<Longrightarrow> length taken \<le> length t"
proof -
  assume "wf_table t" and df: "deps_first t taken"
  have "length taken = card (set taken)" using df by (simp add: deps_first_def distinct_card)
  also have "\<dots> \<le> card (names_of t)"
    using df by (auto simp: deps_first_def names_of_def intro!: card_mono)
  also have "\<dots> \<le> length t" using card_length [of "map fst t"] by (simp add: names_of_def)
  finally show ?thesis .
qed

text \<open>With as many turns as there are modules left, the loop only stops when nothing is ready.\<close>

lemma greedy_order_maximal:
  assumes "wf_table t" "deps_first t taken" "length t \<le> length taken + k"
  shows "ready_names t (greedy_order k t taken) = []"
  using assms
proof (induction k t taken rule: greedy_order.induct)
  case (1 t taken)
  show ?case
  proof (rule ccontr)
    assume "ready_names t (greedy_order 0 t taken) \<noteq> []"
    then obtain x where "x \<in> set (ready_names t taken)" by (cases "ready_names t taken") auto
    then have "deps_first t (taken @ [x])" using deps_first_snoc 1 by blast
    with deps_first_length 1 show False by fastforce
  qed
next
  case (2 k t taken)
  show ?case
  proof (cases "ready_names t taken")
    case (Cons x xs)
    with 2 show ?thesis by (auto intro: deps_first_snoc ready_names_hd)
  qed simp
qed

lemma module_order_deps_first: "wf_table t \<Longrightarrow> deps_first t (module_order t)"
  by (simp add: module_order_def greedy_order_deps_first)

lemma module_order_maximal: "wf_table t \<Longrightarrow> ready_names t (module_order t) = []"
  by (simp add: module_order_def greedy_order_maximal)

text \<open>The entry at each position is the earliest registered ready module.\<close>

lemma greedy_order_prefix: "\<exists>ys. greedy_order k t taken = taken @ ys"
  by (induction k t taken rule: greedy_order.induct) (auto split: list.splits)

lemma greedy_order_step:
  "greedy_order k t taken = us @ x # vs \<Longrightarrow> length taken \<le> length us \<Longrightarrow>
     \<exists>xs. ready_names t us = x # xs"
proof (induction k t taken rule: greedy_order.induct)
  case (2 k t taken)
  show ?case
  proof (cases "ready_names t taken")
    case (Cons y ys)
    with 2(2) have eq: "greedy_order k t (taken @ [y]) = us @ x # vs" by simp
    show ?thesis
    proof (cases "length us = length taken")
      case True
      obtain zs where "greedy_order k t (taken @ [y]) = (taken @ [y]) @ zs"
        using greedy_order_prefix by blast
      with eq True have "us = taken" "x = y" by (auto simp: append_eq_append_conv)
      with Cons show ?thesis by simp
    next
      case False
      with 2(1) [OF Cons eq] 2(3) show ?thesis by simp
    qed
  qed (use 2 in simp)
qed simp

lemma module_order_step: "module_order t = us @ x # vs \<Longrightarrow> \<exists>xs. ready_names t us = x # xs"
  unfolding module_order_def by (rule greedy_order_step) auto

text \<open>A module is left out exactly when it is on, or depends on, a dependency cycle.\<close>

lemma finite_dep_rel: "finite (dep_rel t)"
proof -
  have "dep_rel t \<subseteq> (\<Union>(x, ds) \<in> set t. set ds \<times> {x})" by (auto simp: dep_rel_def)
  moreover have "finite (\<Union>(x, ds) \<in> set t. set ds \<times> {x})" by auto
  ultimately show ?thesis by (rule finite_subset)
qed

lemma left_out_has_left_out_dep:
  assumes "wf_table t" "x \<in> names_of t" "x \<notin> set (module_order t)"
  shows "\<exists>d. (d, x) \<in> dep_rel t \<and> d \<in> names_of t \<and> d \<notin> set (module_order t)"
proof -
  from assms(2) obtain ds where ds: "(x, ds) \<in> set t" by (auto simp: names_of_def)
  have "x \<notin> set (ready_names t (module_order t))" by (simp add: module_order_maximal [OF assms(1)])
  with ds assms(3) have "\<not> set ds \<subseteq> set (module_order t)" by (auto simp: ready_names_mem)
  with ds assms(1) show ?thesis by (fastforce simp: dep_rel_def wf_table_def)
qed

lemma taken_dep_before:
  assumes "deps_first t taken" "(y, x) \<in> dep_rel t" "x \<in> set taken"
  shows "before taken y x"
proof -
  obtain ds where ds: "(x, ds) \<in> set t" "y \<in> set ds" using assms(2) by (auto simp: dep_rel_def)
  obtain us vs where us: "taken = us @ x # vs" using assms(3) by (meson split_list)
  with ds assms(1) have "y \<in> set us" using deps_firstD by blast
  with us show ?thesis by (simp add: before_appendI)
qed

lemma taken_deps_before:
  assumes "deps_first t taken" "(y, x) \<in> (dep_rel t)\<^sup>+" "x \<in> set taken"
  shows "before taken y x"
  using assms(2,3)
proof (induction rule: trancl_induct)
  case (base x)
  then show ?case using taken_dep_before [OF assms(1)] by blast
next
  case (step z x)
  then have "before taken z x" using taken_dep_before [OF assms(1)] by blast
  then have "before taken y z" using step.IH before_set by metis
  with \<open>before taken z x\<close> show ?case
    using assms(1) by (auto simp: deps_first_def intro: before_trans)
qed

lemma taken_not_on_cycle:
  assumes "deps_first t taken" "(y, y) \<in> (dep_rel t)\<^sup>+" "(y, x) \<in> (dep_rel t)\<^sup>*"
  shows "x \<notin> set taken"
proof
  assume x: "x \<in> set taken"
  have "y \<in> set taken"
    using assms(3) x taken_deps_before [OF assms(1)] before_set by (metis rtranclD)
  then have "before taken y y" using assms(2) taken_deps_before [OF assms(1)] by blast
  with assms(1) show False by (auto simp: deps_first_def dest: before_irrefl)
qed

text \<open>In a finite relation, following left-out dependencies backwards must close a cycle.\<close>

lemma finite_no_source_cycle:
  assumes "finite S" "x \<in> S" "\<And>z. z \<in> S \<Longrightarrow> \<exists>d \<in> S. (d, z) \<in> R"
  shows "\<exists>y \<in> S. (y, y) \<in> R\<^sup>+ \<and> (y, x) \<in> R\<^sup>*"
proof (rule ccontr)
  assume no: "\<not> ?thesis"
  let ?A = "{z \<in> S. (z, x) \<in> R\<^sup>*}"
  let ?Q = "R \<inter> (?A \<times> ?A)"
  have "finite ?A" using assms(1) by simp
  then have fin: "finite ?Q" by (meson finite_Int finite_SigmaI)
  have "acyclic ?Q"
  proof (rule acyclicI, intro allI notI)
    fix y assume y: "(y, y) \<in> ?Q\<^sup>+"
    then have "(y, y) \<in> R\<^sup>+" by (meson Int_lower1 trancl_mono)
    moreover have "y \<in> ?A" using y by (metis (no_types, lifting) Int_iff SigmaD1 tranclD)
    ultimately show False using no by auto
  qed
  then have "wf ?Q" using fin by (simp add: finite_acyclic_wf)
  moreover have "x \<in> ?A" using assms(2) by simp
  ultimately obtain m where m: "m \<in> ?A" "\<And>z. (z, m) \<in> ?Q \<Longrightarrow> z \<notin> ?A"
    by (metis (no_types, lifting) wfE_min)
  obtain d where d: "d \<in> S" "(d, m) \<in> R" using assms(3) m(1) by blast
  then have "d \<in> ?A" using m(1) by (auto intro: converse_rtrancl_into_rtrancl)
  with d m show False by auto
qed

lemma module_order_left_out:
  assumes "wf_table t"
  shows "x \<in> names_of t \<and> x \<notin> set (module_order t) \<longleftrightarrow>
    (\<exists>y. (y, y) \<in> (dep_rel t)\<^sup>+ \<and> (y, x) \<in> (dep_rel t)\<^sup>*)"
proof
  assume "x \<in> names_of t \<and> x \<notin> set (module_order t)"
  then have "x \<in> names_of t - set (module_order t)" by blast
  moreover have "finite (names_of t - set (module_order t))" by (simp add: names_of_def)
  moreover have "\<exists>d \<in> names_of t - set (module_order t). (d, z) \<in> dep_rel t"
    if "z \<in> names_of t - set (module_order t)" for z
    using left_out_has_left_out_dep [OF assms] that by blast
  ultimately show "\<exists>y. (y, y) \<in> (dep_rel t)\<^sup>+ \<and> (y, x) \<in> (dep_rel t)\<^sup>*"
    using finite_no_source_cycle by metis
next
  assume "\<exists>y. (y, y) \<in> (dep_rel t)\<^sup>+ \<and> (y, x) \<in> (dep_rel t)\<^sup>*"
  then obtain y where y: "(y, y) \<in> (dep_rel t)\<^sup>+" "(y, x) \<in> (dep_rel t)\<^sup>*" by blast
  then have "(y, x) \<in> (dep_rel t)\<^sup>+" by (meson trancl_rtrancl_trancl)
  then have "x \<in> names_of t" by (auto simp: dep_rel_def names_of_def dest!: tranclD2 intro: rev_image_eqI)
  with taken_not_on_cycle [OF module_order_deps_first [OF assms] y] show
    "x \<in> names_of t \<and> x \<notin> set (module_order t)" by blast
qed

lemma module_order_complete:
  assumes "wf_table t"
  shows "length (module_order t) = length t \<longleftrightarrow> acyclic (dep_rel t)"
proof -
  have df: "deps_first t (module_order t)" by (rule module_order_deps_first [OF assms])
  have "card (names_of t) = length t"
    using assms distinct_card [of "map fst t"] by (simp add: wf_table_def names_of_def)
  moreover have "card (set (module_order t)) = length (module_order t)" "set (module_order t) \<subseteq> names_of t"
    using df by (simp_all add: deps_first_def distinct_card)
  moreover have "finite (names_of t)" by (simp add: names_of_def)
  ultimately have "length (module_order t) = length t \<longleftrightarrow> names_of t = set (module_order t)"
    by (metis card_subset_eq)
  also have "\<dots> \<longleftrightarrow> (\<forall>x. \<not> (x \<in> names_of t \<and> x \<notin> set (module_order t)))"
    using df by (auto simp: deps_first_def)
  also have "\<dots> \<longleftrightarrow> acyclic (dep_rel t)"
    unfolding module_order_left_out [OF assms] acyclic_def by blast
  finally show ?thesis .
qed

section \<open>The linked graph\<close>

text \<open>The enabled modules with their positions, and the dependency table they span.\<close>

fun enabled_from :: "nat \<Rightarrow> ('s, 'e) module option list \<Rightarrow> (nat \<times> ('s, 'e) module) list" where
  "enabled_from i [] = []"
| "enabled_from i (None # ms) = enabled_from (Suc i) ms"
| "enabled_from i (Some m # ms) =
     (if m_enabled m then (i, m) # enabled_from (Suc i) ms else enabled_from (Suc i) ms)"

definition module_key :: "('s, 'e) module \<Rightarrow> string" where
  "module_key m = trim_space (m_name m)"

definition enabled_modules :: "('s, 'e) module option list \<Rightarrow> ('s, 'e) module list" where
  "enabled_modules ms = map snd (enabled_from 0 ms)"

definition table_of :: "('s, 'e) module option list \<Rightarrow> dep_table" where
  "table_of ms = map (\<lambda>m. (module_key m, normalize_dependencies (m_dependencies m))) (enabled_modules ms)"

definition nodes_of :: "('s, 'e) module option list \<Rightarrow> ('s, 'e) module node list" where
  "nodes_of ms = map (\<lambda>(i, m). mk_node m (module_key m) i) (enabled_from 0 ms)"

lemma mk_node_simps [simp]:
  "nd_module (mk_node m x i) = m" "nd_name (mk_node m x i) = x" "nd_index (mk_node m x i) = i"
  "nd_depends_on (mk_node m x i) = normalize_dependencies (m_dependencies m)"
  "nd_dependents (mk_node m x i) = []" "nd_in_degree (mk_node m x i) = 0"
  by (simp_all add: mk_node_def)

lemma collect_nodes_iff:
  "distinct (map nd_name nodes) \<Longrightarrow>
   collect_nodes i nodes ms = Inr nodes' \<longleftrightarrow>
     [] \<notin> set (map (\<lambda>(i, m). module_key m) (enabled_from i ms)) \<and>
     distinct (map nd_name nodes @ map (\<lambda>(i, m). module_key m) (enabled_from i ms)) \<and>
     nodes' = nodes @ map (\<lambda>(i, m). mk_node m (module_key m) i) (enabled_from i ms)"
proof (induction i nodes ms arbitrary: nodes' rule: collect_nodes.induct)
  case (3 i nodes m ms)
  show ?case
  proof (cases "m_enabled m \<and> module_key m \<noteq> [] \<and> module_key m \<notin> set (map nd_name nodes)")
    case True
    then have "distinct (map nd_name (nodes @ [mk_node m (module_key m) i]))" using 3 by simp
    with True 3(2) [of "module_key m" nodes'] show ?thesis by (auto simp: module_key_def Let_def)
  next
    case False
    with 3 show ?thesis by (auto simp: module_key_def Let_def)
  qed
qed auto

lemma enabled_from_sorted: "sorted_wrt (<) (map fst (enabled_from i ms)) \<and> (\<forall>p \<in> set (enabled_from i ms). i \<le> fst p)"
  by (induction i ms rule: enabled_from.induct) (auto simp: Suc_le_eq intro: less_imp_le)

definition link_upd :: "string \<Rightarrow> string list \<Rightarrow> 'm node \<Rightarrow> 'm node" where
  "link_upd c ds n = n\<lparr>
     nd_in_degree := nd_in_degree n + (if nd_name n = c then int (length ds) else 0),
     nd_dependents := nd_dependents n @ (if nd_name n \<in> set ds then [c] else []) \<rparr>"

lemma link_upd_simps [simp]:
  "nd_name (link_upd c ds n) = nd_name n" "nd_index (link_upd c ds n) = nd_index n"
  "nd_depends_on (link_upd c ds n) = nd_depends_on n" "nd_module (link_upd c ds n) = nd_module n"
  by (simp_all add: link_upd_def)

lemma map_name_update [simp]:
  "(\<And>n. nd_name (f n) = nd_name n) \<Longrightarrow> map nd_name (update_node x f ns) = map nd_name ns"
  by (induction ns) (simp_all add: update_node_def)

lemma add_simps [simp]:
  "nd_name (add_in_degree k n) = nd_name n" "nd_name (add_dependent x n) = nd_name n"
  "nd_index (add_in_degree k n) = nd_index n" "nd_depends_on (add_in_degree k n) = nd_depends_on n"
  "nd_dependents (add_in_degree k n) = nd_dependents n" "nd_module (add_in_degree k n) = nd_module n"
  "nd_in_degree (add_in_degree k n) = nd_in_degree n + k"
  by (simp_all add: add_in_degree_def add_dependent_def)

lemma find_node_None: "find_node ns x = None \<longleftrightarrow> x \<notin> set (map nd_name ns)"
  by (auto simp: find_node_def find_None_iff)

lemma find_node_Some:
  "distinct (map nd_name ns) \<Longrightarrow> find_node ns x = Some n \<longleftrightarrow> n \<in> set ns \<and> nd_name n = x"
  by (induction ns) (auto simp: find_node_def rev_image_eqI)

lemma find_node_update:
  "(\<And>n. nd_name (f n) = nd_name n) \<Longrightarrow> find_node (update_node x f ns) x = map_option f (find_node ns x)"
  by (induction ns) (auto simp: find_node_def update_node_def)

lemma link_deps_iff:
  "distinct ds \<Longrightarrow>
   link_deps c ds ns = Inr ns' \<longleftrightarrow>
     c \<notin> set ds \<and> set ds \<subseteq> set (map nd_name ns) \<and> ns' = map (link_upd c ds) ns"
proof (induction ds arbitrary: ns)
  case Nil
  have "map (link_upd c []) ns = ns" by (rule map_idI) (simp add: link_upd_def)
  then show ?case by auto
next
  case (Cons d ds)
  let ?ns = "update_node d (add_dependent c) (update_node c (add_in_degree 1) ns)"
  have nm: "map nd_name ?ns = map nd_name ns" by simp
  have upd: "map (link_upd c ds) ?ns = map (link_upd c (d # ds)) ns" if "d \<noteq> c"
    using that Cons.prems
    by (auto simp: update_node_def link_upd_def add_in_degree_def add_dependent_def)
  show ?case
  proof (cases "d = c \<or> d \<notin> set (map nd_name ns)")
    case True
    then show ?thesis by (auto simp: find_node_None [THEN iffD2])
  next
    case False
    then obtain n where "find_node ns d = Some n" by (metis find_node_None not_None_eq)
    with False Cons.IH [of ?ns] Cons.prems upd show ?thesis unfolding nm by auto
  qed
qed

lemma link_all_iff:
  "\<forall>(c, ds) \<in> set t. distinct ds \<Longrightarrow>
   link_all t ns = Inr ns' \<longleftrightarrow>
     (\<forall>(c, ds) \<in> set t. c \<notin> set ds \<and> set ds \<subseteq> set (map nd_name ns)) \<and>
     ns' = map (fold (\<lambda>(c, ds). link_upd c ds) t) ns"
proof (induction t arbitrary: ns)
  case (Cons p t)
  obtain c ds where p: "p = (c, ds)" by (cases p)
  have nm: "map nd_name (map (link_upd c ds) ns) = map nd_name ns" by simp
  have d: "distinct ds" "\<forall>(c, ds) \<in> set t. distinct ds" using Cons.prems p by auto
  have "link_all (p # t) ns = Inr ns' \<longleftrightarrow>
      c \<notin> set ds \<and> set ds \<subseteq> set (map nd_name ns) \<and> link_all t (map (link_upd c ds) ns) = Inr ns'"
    using p d(1) by (auto simp: bind_res_eq_Inr link_deps_iff)
  also have "\<dots> \<longleftrightarrow> c \<notin> set ds \<and> set ds \<subseteq> set (map nd_name ns) \<and>
      (\<forall>(c, ds) \<in> set t. c \<notin> set ds \<and> set ds \<subseteq> set (map nd_name ns)) \<and>
      ns' = map (fold (\<lambda>(c, ds). link_upd c ds) t) (map (link_upd c ds) ns)"
    unfolding Cons.IH [OF d(2)] nm ..
  finally show ?case using p by auto
qed auto

lemma fold_link_static [simp]:
  "nd_name (fold (\<lambda>(c, ds). link_upd c ds) t n) = nd_name n"
  "nd_index (fold (\<lambda>(c, ds). link_upd c ds) t n) = nd_index n"
  "nd_depends_on (fold (\<lambda>(c, ds). link_upd c ds) t n) = nd_depends_on n"
  "nd_module (fold (\<lambda>(c, ds). link_upd c ds) t n) = nd_module n"
  by (induction t arbitrary: n) auto

lemma fold_link_dependents:
  "nd_dependents (fold (\<lambda>(c, ds). link_upd c ds) t n) =
     nd_dependents n @ map fst (filter (\<lambda>(c, ds). nd_name n \<in> set ds) t)"
  by (induction t arbitrary: n) (auto simp: link_upd_def)

lemma fold_link_in_degree:
  "distinct (map fst t) \<Longrightarrow>
   nd_in_degree (fold (\<lambda>(c, ds). link_upd c ds) t n) =
     nd_in_degree n + (case map_of t (nd_name n) of None \<Rightarrow> 0 | Some ds \<Rightarrow> int (length ds))"
proof (induction t arbitrary: n)
  case (Cons p t)
  obtain c ds where p: "p = (c, ds)" by (cases p)
  with Cons.prems have "map_of t c = None" by (auto simp: map_of_eq_None_iff)
  with Cons p show ?case by (auto simp: link_upd_def split: option.split)
qed simp

section \<open>The queue refines the reference order\<close>

lemma mset_filter_disjoint:
  "(\<And>x. x \<in> set xs \<Longrightarrow> \<not> (A x \<and> B x)) \<Longrightarrow>
     mset (filter A xs) + mset (filter B xs) = mset (filter (\<lambda>x. A x \<or> B x) xs)"
  by (induction xs) auto

lemma filter_Cons_rest:
  assumes "filter P xs = y # ys" "distinct (map f xs)"
  shows "ys = filter (\<lambda>z. P z \<and> f z \<noteq> f y) xs"
proof -
  have "distinct (map f (filter P xs))" using assms(2) by (simp add: distinct_map_filter)
  with assms(1) have "filter (\<lambda>z. f z \<noteq> f y) (filter P xs) = ys"
    by (auto simp: rev_image_eqI intro!: filter_True)
  then show ?thesis by (simp add: conj_commute)
qed

lemma sorted_release: "sorted (map fst ready) \<Longrightarrow> sorted (map fst (snd (release ds nodes ready)))"
  by (induction ds nodes ready rule: release.induct) (auto simp: Let_def split: option.splits)

lemma release_nodes:
  "distinct ds \<Longrightarrow>
   fst (release ds nodes ready) =
     map (\<lambda>n. if nd_name n \<in> set ds then add_in_degree (- 1) n else n) nodes"
proof (induction ds nodes ready rule: release.induct)
  case (2 d ds nodes ready)
  let ?n' = "update_node d (add_in_degree (- 1)) nodes"
  have eq: "map (\<lambda>n. if nd_name n \<in> set ds then add_in_degree (- 1) n else n) ?n' =
    map (\<lambda>n. if nd_name n \<in> set (d # ds) then add_in_degree (- 1) n else n) nodes"
    using 2(4) by (auto simp: update_node_def)
  from 2 eq show ?case by (auto simp: Let_def split: option.split)
qed simp

text \<open>Released are the nodes among \<open>ds\<close> whose in-degree was 1.\<close>

definition released :: "string list \<Rightarrow> 'm node list \<Rightarrow> 'm node list" where
  "released ds nodes = filter (\<lambda>n. nd_name n \<in> set ds \<and> nd_in_degree n = 1) nodes"

lemma released_Cons:
  assumes "d \<notin> set ds" "distinct (map nd_name nodes)" "find_node nodes d = Some n"
  shows "mset (map node_key (released (d # ds) nodes)) =
    (if nd_in_degree n = 1 then {#node_key n#} else {#}) +
    mset (map node_key (released ds (update_node d (add_in_degree (- 1)) nodes)))"
proof -
  have n: "n \<in> set nodes" "nd_name n = d" using assms(2,3) by (simp_all add: find_node_Some)
  then obtain us vs where sp: "nodes = us @ n # vs" by (meson split_list)
  have fr: "d \<notin> nd_name ` set us" "d \<notin> nd_name ` set vs" using assms(2) sp n(2) by auto
  have same: "update_node d (add_in_degree (- 1)) xs = xs" if "d \<notin> nd_name ` set xs" for xs :: "'a node list"
    using that by (auto simp: update_node_def intro!: map_idI)
  have rel: "released (d # ds) xs = released ds xs" if "d \<notin> nd_name ` set xs" for xs :: "'a node list"
    using that by (auto simp: released_def intro!: filter_cong)
  have "update_node d (add_in_degree (- 1)) nodes = us @ add_in_degree (- 1) n # vs"
    using same [OF fr(1)] same [OF fr(2)] n(2) sp by (simp add: update_node_def)
  moreover have "released (d # ds) nodes =
      released ds us @ (if nd_in_degree n = 1 then [n] else []) @ released ds vs"
    using rel [OF fr(1)] rel [OF fr(2)] n(2) sp by (simp add: released_def)
  ultimately show ?thesis using n(2) assms(1) by (simp add: released_def)
qed

lemma release_ready:
  "distinct ds \<Longrightarrow> distinct (map nd_name nodes) \<Longrightarrow> set ds \<subseteq> set (map nd_name nodes) \<Longrightarrow>
   mset (snd (release ds nodes ready)) = mset ready + mset (map node_key (released ds nodes))"
proof (induction ds nodes ready rule: release.induct)
  case (1 nodes ready)
  then show ?case by (simp add: released_def)
next
  case (2 d ds nodes ready)
  let ?n' = "update_node d (add_in_degree (- 1)) nodes"
  have nm: "map nd_name ?n' = map nd_name nodes" by simp
  from 2(6) obtain n where n: "find_node nodes d = Some n"
    using find_node_None [of nodes d] by fastforce
  then have n': "find_node ?n' d = Some (add_in_degree (- 1) n)"
    by (simp add: find_node_update)
  have k: "node_key (add_in_degree (- 1) n) = node_key n" by (simp add: node_key_def)
  have IH1: "nd_in_degree n = 1 \<Longrightarrow>
      mset (snd (release ds ?n' (sort_key fst (ready @ [node_key n])))) =
      mset ready + {#node_key n#} + mset (map node_key (released ds ?n'))"
    using 2(2) [OF refl n'] 2(4-6) unfolding nm k by simp
  have IH2: "nd_in_degree n \<noteq> 1 \<Longrightarrow>
      mset (snd (release ds ?n' ready)) = mset ready + mset (map node_key (released ds ?n'))"
    using 2(3) [OF refl n'] 2(4-6) unfolding nm by simp
  have "d \<notin> set ds" using 2(4) by simp
  from released_Cons [OF this 2(5) n] IH1 IH2 n' k show ?case by (simp add: Let_def)
qed

text \<open>The state of the loop after the modules \<open>taken\<close>, as a function of the linked nodes.\<close>

definition nodes_at :: "'m node list \<Rightarrow> string list \<Rightarrow> 'm node list" where
  "nodes_at N taken =
     map (\<lambda>n. n\<lparr>nd_in_degree := int (card (set (nd_depends_on n) - set taken))\<rparr>) N"

definition is_ready :: "string list \<Rightarrow> 'm node \<Rightarrow> bool" where
  "is_ready taken n \<longleftrightarrow> nd_name n \<notin> set taken \<and> set (nd_depends_on n) \<subseteq> set taken"

definition ready_at :: "'m node list \<Rightarrow> string list \<Rightarrow> ready" where
  "ready_at N taken = map node_key (filter (is_ready taken) N)"

text \<open>What linking establishes about the nodes.\<close>

definition linked :: "'m node list \<Rightarrow> bool" where
  "linked N \<longleftrightarrow>
     sorted_wrt (<) (map nd_index N) \<and> wf_table (node_table N) \<and>
     (\<forall>n \<in> set N. distinct (nd_depends_on n) \<and> nd_name n \<notin> set (nd_depends_on n) \<and>
        nd_dependents n = map fst (filter (\<lambda>(c, ds). nd_name n \<in> set ds) (node_table N)))"

lemma map_fst_node_table [simp]: "map fst (node_table N) = map nd_name N"
  by (simp add: node_table_def comp_def)

lemma linked_distinct: "linked N \<Longrightarrow> distinct (map nd_name N)"
  by (simp add: linked_def wf_table_def)

lemma ready_at_names: "map snd (ready_at N taken) = ready_names (node_table N) taken"
  by (induction N) (auto simp: ready_at_def ready_names_def node_table_def is_ready_def node_key_def)

lemma sorted_ready_at: "linked N \<Longrightarrow> sorted_wrt (<) (map fst (ready_at N taken))"
proof -
  assume "linked N"
  then have "sorted_wrt (\<lambda>a b. nd_index a < nd_index b) N" by (simp add: linked_def sorted_wrt_map)
  then have "sorted_wrt (\<lambda>a b. nd_index a < nd_index b) (filter (is_ready taken) N)"
    by (rule sorted_wrt_filter)
  then show ?thesis by (simp add: ready_at_def node_key_def comp_def sorted_wrt_map)
qed

lemma sorted_key_unique:
  assumes "mset xs = mset ys" "sorted (map fst xs)" "sorted_wrt (<) (map fst ys)"
  shows "xs = ys"
proof -
  have dy: "distinct (map fst ys)" and sy: "sorted (map fst ys)"
    using assms(3) by (simp_all add: strict_sorted_iff)
  have "mset (map fst xs) = mset (map fst ys)" using assms(1) by simp
  with dy have dx: "distinct (map fst xs)" by (metis mset_eq_imp_distinct_iff)
  have st: "set xs = set ys" using assms(1) by (rule mset_eq_setD)
  show ?thesis
    by (rule map_sorted_distinct_set_unique [OF _ assms(2) dx sy dy st])
      (use dy st in \<open>simp add: distinct_map\<close>)
qed

lemma linked_nodeD:
  assumes "linked N" "n \<in> set N"
  shows "(nd_name n, nd_depends_on n) \<in> set (node_table N)" "distinct (nd_depends_on n)"
    "nd_name n \<notin> set (nd_depends_on n)"
    "set (nd_dependents n) = {nd_name k | k. k \<in> set N \<and> nd_name n \<in> set (nd_depends_on k)}"
    "distinct (nd_dependents n)"
proof -
  show "(nd_name n, nd_depends_on n) \<in> set (node_table N)"
    using assms(2) by (auto simp: node_table_def)
  show "distinct (nd_depends_on n)" "nd_name n \<notin> set (nd_depends_on n)"
    using assms by (auto simp: linked_def)
  have dp: "nd_dependents n = map fst (filter (\<lambda>(c, ds). nd_name n \<in> set ds) (node_table N))"
    using assms by (simp add: linked_def)
  show "set (nd_dependents n) = {nd_name k | k. k \<in> set N \<and> nd_name n \<in> set (nd_depends_on k)}"
    unfolding dp by (force simp: node_table_def)
  show "distinct (nd_dependents n)"
    unfolding dp using assms(1) by (auto simp: linked_def wf_table_def distinct_map_filter)
qed

lemma linked_name_inj:
  "linked N \<Longrightarrow> a \<in> set N \<Longrightarrow> b \<in> set N \<Longrightarrow> nd_name a = nd_name b \<Longrightarrow> a = b"
  using linked_distinct [of N] by (auto simp: distinct_map dest: inj_onD)

lemma nodes_at_static [simp]:
  "map nd_name (nodes_at N taken) = map nd_name N"
  by (simp add: nodes_at_def comp_def)

lemma card_one_less:
  "x \<in> D \<Longrightarrow> x \<notin> S \<Longrightarrow> finite D \<Longrightarrow> card (D - insert x S) = card (D - S) - 1 \<and> 0 < card (D - S)"
  by (metis Diff_iff Diff_insert card_Diff_singleton card_gt_0_iff empty_iff finite_Diff)

lemma mem_dependents:
  assumes "linked N" "n \<in> set N" "k \<in> set N"
  shows "nd_name k \<in> set (nd_dependents n) \<longleftrightarrow> nd_name n \<in> set (nd_depends_on k)"
  using linked_nodeD(4) [OF assms(1,2)] assms(3) linked_name_inj [OF assms(1)] by fastforce

lemma ready_at_Cons:
  assumes N: "linked N" and rdy: "ready_at N taken = (i, x) # r" and n: "n \<in> set N" "nd_name n = x"
  shows "is_ready taken n" and "r = map node_key (filter (\<lambda>k. is_ready taken k \<and> nd_name k \<noteq> x) N)"
proof -
  obtain k ks where f: "filter (is_ready taken) N = k # ks" "node_key k = (i, x)" "r = map node_key ks"
    using rdy by (auto simp: ready_at_def Cons_eq_map_conv)
  have "k \<in> set (filter (is_ready taken) N)" by (simp add: f(1))
  with f(2) n linked_name_inj [OF N] show "is_ready taken n" by (auto simp: node_key_def)
  from filter_Cons_rest [OF f(1) linked_distinct [OF N]] f(2,3)
  show "r = map node_key (filter (\<lambda>k. is_ready taken k \<and> nd_name k \<noteq> x) N)"
    by (simp add: node_key_def)
qed

lemma dependent_not_taken:
  assumes "linked N" "deps_first (node_table N) taken" "k \<in> set N" "x \<in> set (nd_depends_on k)" "x \<notin> set taken"
  shows "nd_name k \<notin> set taken"
proof
  assume "nd_name k \<in> set taken"
  then obtain us vs where "taken = us @ nd_name k # vs" by (meson split_list)
  with assms(2) linked_nodeD(1) [OF assms(1,3)] have "set (nd_depends_on k) \<subseteq> set taken"
    using deps_firstD by fastforce
  with assms(4,5) show False by blast
qed

lemma nodes_at_step:
  assumes N: "linked N" and n: "n \<in> set N" and x: "nd_name n \<notin> set taken"
  shows "fst (release (nd_dependents n) (nodes_at N taken) r) = nodes_at N (taken @ [nd_name n])"
proof -
  let ?c = "\<lambda>S k. k\<lparr>nd_in_degree := int (card (set (nd_depends_on k) - S))\<rparr>"
  have "(if nd_name k \<in> set (nd_dependents n) then add_in_degree (- 1) (?c (set taken) k)
      else ?c (set taken) k) = ?c (insert (nd_name n) (set taken)) k"
    if k: "k \<in> set N" for k
  proof (cases "nd_name n \<in> set (nd_depends_on k)")
    case True
    from card_one_less [OF this x] mem_dependents [OF N n k] True show ?thesis
      by (simp add: add_in_degree_def)
  next
    case False
    then have "set (nd_depends_on k) - insert (nd_name n) (set taken) = set (nd_depends_on k) - set taken"
      by blast
    with False mem_dependents [OF N n k] show ?thesis by simp
  qed
  then show ?thesis by (simp add: release_nodes [OF linked_nodeD(5) [OF N n]] nodes_at_def)
qed

lemma is_ready_step:
  assumes N: "linked N" and df: "deps_first (node_table N) taken"
    and n: "n \<in> set N" and x: "nd_name n \<notin> set taken" and k: "k \<in> set N"
  shows "is_ready (taken @ [nd_name n]) k \<longleftrightarrow>
    is_ready taken k \<and> nd_name k \<noteq> nd_name n \<or>
    nd_name k \<in> set (nd_dependents n) \<and> card (set (nd_depends_on k) - set taken) = 1"
proof (cases "nd_name n \<in> set (nd_depends_on k)")
  case True
  let ?x = "nd_name n" and ?D = "set (nd_depends_on k)"
  have ne: "nd_name k \<noteq> ?x" using True linked_nodeD(3) [OF N k] by metis
  have "?D \<subseteq> insert ?x (set taken) \<longleftrightarrow> ?D - set taken = {?x}" using True x by blast
  also have "\<dots> \<longleftrightarrow> card (?D - set taken) = 1"
    using True x by (metis Diff_iff card_1_singletonE is_singletonI is_singleton_altdef singletonD)
  finally show ?thesis
    using True mem_dependents [OF N n k] dependent_not_taken [OF N df k True x] ne x
    by (auto simp: is_ready_def)
next
  case False
  then have "set (nd_depends_on k) \<subseteq> insert (nd_name n) (set taken) \<longleftrightarrow> set (nd_depends_on k) \<subseteq> set taken"
    by blast
  with False mem_dependents [OF N n k] show ?thesis by (auto simp: is_ready_def)
qed

text \<open>Taking a ready module and releasing its dependents is one step of the reference order.\<close>

lemma release_step:
  assumes N: "linked N" and df: "deps_first (node_table N) taken"
    and rdy: "ready_at N taken = (i, nd_name n) # r" and n: "n \<in> set N"
  shows "release (nd_dependents n) (nodes_at N taken) r =
    (nodes_at N (taken @ [nd_name n]), ready_at N (taken @ [nd_name n]))"
proof -
  let ?x = "nd_name n" and ?ds = "nd_dependents n"
  let ?A = "\<lambda>k. is_ready taken k \<and> nd_name k \<noteq> ?x"
  let ?B = "\<lambda>k. nd_name k \<in> set ?ds \<and> card (set (nd_depends_on k) - set taken) = 1"
  have x: "?x \<notin> set taken" using ready_at_Cons(1) [OF N rdy n refl] by (simp add: is_ready_def)
  have rel: "map node_key (released ?ds (nodes_at N taken)) = map node_key (filter ?B N)"
    by (simp add: released_def nodes_at_def filter_map comp_def node_key_def)
  have sub: "set ?ds \<subseteq> set (map nd_name (nodes_at N taken))"
    unfolding nodes_at_static using linked_nodeD(4) [OF N n] by auto
  have "mset (snd (release ?ds (nodes_at N taken) r)) = mset r + mset (map node_key (filter ?B N))"
    using release_ready [OF linked_nodeD(5) [OF N n] _ sub, of r] linked_distinct [OF N] rel by simp
  also have "\<dots> = image_mset node_key (mset (filter ?A N) + mset (filter ?B N))"
    by (simp add: ready_at_Cons(2) [OF N rdy n refl])
  also have "mset (filter ?A N) + mset (filter ?B N) = mset (filter (\<lambda>k. ?A k \<or> ?B k) N)"
    by (rule mset_filter_disjoint) (use mem_dependents [OF N n] x in \<open>auto simp: is_ready_def\<close>)
  also have "filter (\<lambda>k. ?A k \<or> ?B k) N = filter (is_ready (taken @ [?x])) N"
    using is_ready_step [OF N df n x] by (intro filter_cong) auto
  finally have ms: "mset (snd (release ?ds (nodes_at N taken) r)) = mset (ready_at N (taken @ [?x]))"
    by (simp add: ready_at_def)
  have "sorted_wrt (<) (map fst ((i, ?x) # r))" using sorted_ready_at [OF N, of taken] rdy by simp
  then have "sorted (map fst r)" by (simp add: strict_sorted_iff)
  from sorted_key_unique [OF ms sorted_release [OF this] sorted_ready_at [OF N]]
    nodes_at_step [OF N n x] show ?thesis by (metis prod.collapse)
qed

text \<open>The whole loop computes the reference order.\<close>

definition module_at :: "'m node list \<Rightarrow> string \<Rightarrow> 'm option" where
  "module_at N x = map_option nd_module (find_node N x)"

lemma ready_at_mem: "(i, x) \<in> set (ready_at N taken) \<Longrightarrow> \<exists>n \<in> set N. nd_name n = x"
  by (auto simp: ready_at_def node_key_def)

lemma find_node_nodes_at:
  assumes "linked N" "n \<in> set N"
  shows "find_node (nodes_at N taken) (nd_name n) =
    Some (n\<lparr>nd_in_degree := int (card (set (nd_depends_on n) - set taken))\<rparr>)"
  using assms(2) linked_distinct [OF assms(1)]
  by (subst find_node_Some) (auto simp: nodes_at_def comp_def)

lemma drain_reference:
  assumes N: "linked N" and df: "deps_first (node_table N) taken"
    and k: "length N \<le> length taken + k" and ord: "map Some ordered = map (module_at N) taken"
  shows "\<exists>out. drain (nodes_at N taken) (ready_at N taken) ordered =
      (nodes_at N (greedy_order k (node_table N) taken), out) \<and>
    map Some out = map (module_at N) (greedy_order k (node_table N) taken)"
  using df k ord
proof (induction k arbitrary: taken ordered)
  case 0
  have wf: "wf_table (node_table N)" using N by (simp add: linked_def)
  have "ready_names (node_table N) taken = []"
    using greedy_order_maximal [OF wf 0(1), of 0] 0(2) by (simp add: node_table_def)
  then have "ready_at N taken = []" using ready_at_names [of N taken] by simp
  with 0 show ?case by auto
next
  case (Suc k)
  have wf: "wf_table (node_table N)" using N by (simp add: linked_def)
  show ?case
  proof (cases "ready_at N taken")
    case Nil
    then have "ready_names (node_table N) taken = []" using ready_at_names [of N taken] by simp
    with Nil Suc.prems show ?thesis by auto
  next
    case (Cons p r)
    obtain i x where p: "p = (i, x)" by (cases p)
    have rn: "ready_names (node_table N) taken = x # map snd r"
      using ready_at_names [of N taken] Cons p by simp
    from ready_at_mem [of i x N taken] Cons p obtain n where n: "n \<in> set N" "nd_name n = x"
      by auto
    from find_node_nodes_at [OF N n(1), of taken] n(2)
    obtain n' where n': "find_node (nodes_at N taken) x = Some n'" "nd_module n' = nd_module n"
        "nd_dependents n' = nd_dependents n" by auto
    have "module_at N x = Some (nd_module n)"
      using n linked_distinct [OF N] find_node_Some [of N x n] by (simp add: module_at_def)
    then have ord': "map Some (ordered @ [nd_module n]) = map (module_at N) (taken @ [x])"
      using Suc.prems(3) by simp
    have df': "deps_first (node_table N) (taken @ [x])"
      using deps_first_snoc [OF wf Suc.prems(1)] rn by simp
    have "drain (nodes_at N taken) (ready_at N taken) ordered =
        drain (nodes_at N (taken @ [x])) (ready_at N (taken @ [x])) (ordered @ [nd_module n])"
      using release_step [OF N Suc.prems(1), of i n r] Cons p n n' by simp
    with Suc.IH [OF df' _ ord'] Suc.prems(2) rn show ?thesis by simp
  qed
qed

section \<open>Sort against the reference\<close>

lemma node_table_nodes_of: "node_table (nodes_of ms) = table_of ms"
  by (simp add: node_table_def nodes_of_def table_of_def enabled_modules_def comp_def case_prod_beta)

lemma names_nodes_of: "map nd_name (nodes_of ms) = map module_key (enabled_modules ms)"
  by (simp add: nodes_of_def enabled_modules_def comp_def case_prod_beta)

lemma modules_nodes_of: "map nd_module (nodes_of ms) = enabled_modules ms"
  by (simp add: nodes_of_def enabled_modules_def comp_def case_prod_beta)

text \<open>The two kinds of input checks that \<open>Sort\<close> makes before it orders anything.\<close>

definition names_ok :: "('s, 'e) module option list \<Rightarrow> bool" where
  "names_ok ms \<longleftrightarrow>
     [] \<notin> set (map module_key (enabled_modules ms)) \<and> distinct (map module_key (enabled_modules ms))"

definition deps_known :: "('s, 'e) module option list \<Rightarrow> bool" where
  "deps_known ms \<longleftrightarrow>
     (\<forall>(c, ds) \<in> set (table_of ms). c \<notin> set ds \<and> set ds \<subseteq> names_of (table_of ms))"

lemma map_fst_table_of [simp]: "map fst (table_of ms) = map module_key (enabled_modules ms)"
  by (simp add: table_of_def comp_def)

lemma names_of_table_of: "names_of (table_of ms) = module_key ` set (enabled_modules ms)"
  unfolding names_of_def by (metis list.set_map map_fst_table_of)

lemma wf_table_of: "names_ok ms \<Longrightarrow> deps_known ms \<Longrightarrow> wf_table (table_of ms)"
  by (auto simp: wf_table_def names_ok_def deps_known_def)

lemma keys_enabled_from: "map (\<lambda>(i, m). module_key m) (enabled_from 0 ms) = map module_key (enabled_modules ms)"
  by (simp add: enabled_modules_def comp_def case_prod_beta)

lemma collect_nodes_top: "collect_nodes 0 [] ms = Inr nodes \<longleftrightarrow> names_ok ms \<and> nodes = nodes_of ms"
  by (simp add: collect_nodes_iff keys_enabled_from names_ok_def nodes_of_def)

definition link_node :: "dep_table \<Rightarrow> 'm node \<Rightarrow> 'm node" where
  "link_node t = fold (\<lambda>(c, ds). link_upd c ds) t"

definition linked_nodes :: "('s, 'e) module option list \<Rightarrow> ('s, 'e) module node list" where
  "linked_nodes ms = map (link_node (table_of ms)) (nodes_of ms)"

lemma link_node_static [simp]:
  "nd_name (link_node t n) = nd_name n" "nd_index (link_node t n) = nd_index n"
  "nd_depends_on (link_node t n) = nd_depends_on n" "nd_module (link_node t n) = nd_module n"
  by (simp_all add: link_node_def)

lemma link_all_top:
  "link_all (table_of ms) (nodes_of ms) = Inr N \<longleftrightarrow> deps_known ms \<and> N = linked_nodes ms"
proof -
  have "\<forall>(c, ds) \<in> set (table_of ms). distinct ds"
    by (auto simp: table_of_def distinct_normalize_dependencies)
  moreover have "set (map nd_name (nodes_of ms)) = names_of (table_of ms)"
    unfolding names_nodes_of names_of_table_of by simp
  ultimately show ?thesis
    by (simp add: link_all_iff deps_known_def linked_nodes_def link_node_def)
qed

lemma table_linked_nodes: "node_table (linked_nodes ms) = table_of ms"
proof -
  have "node_table (linked_nodes ms) = node_table (nodes_of ms)"
    by (simp add: node_table_def linked_nodes_def comp_def)
  then show ?thesis by (simp add: node_table_nodes_of)
qed

lemma linked_linked_nodes:
  assumes "names_ok ms" "deps_known ms"
  shows "linked (linked_nodes ms)"
proof -
  have "sorted_wrt (<) (map nd_index (linked_nodes ms))"
    using enabled_from_sorted [of 0 ms]
    by (simp add: linked_nodes_def nodes_of_def comp_def case_prod_beta)
  moreover have "wf_table (node_table (linked_nodes ms))"
    using wf_table_of [OF assms] by (simp add: table_linked_nodes)
  moreover have "distinct (nd_depends_on n) \<and> nd_name n \<notin> set (nd_depends_on n) \<and>
      nd_dependents n = map fst (filter (\<lambda>(c, ds). nd_name n \<in> set ds) (table_of ms))"
    if "n \<in> set (linked_nodes ms)" for n
  proof -
    from that obtain m where m: "m \<in> set (nodes_of ms)" "n = link_node (table_of ms) m"
      by (auto simp: linked_nodes_def)
    then have "(nd_name m, nd_depends_on m) \<in> set (table_of ms)"
      by (simp add: node_table_nodes_of [symmetric] node_table_def)
    moreover have "nd_dependents m = []" "distinct (nd_depends_on m)"
      using m(1) by (auto simp: nodes_of_def distinct_normalize_dependencies)
    ultimately show ?thesis
      using assms(2) m(2) by (auto simp: deps_known_def link_node_def fold_link_dependents)
  qed
  ultimately show ?thesis by (simp add: linked_def table_linked_nodes)
qed

lemma linked_nodes_start:
  assumes "names_ok ms" "deps_known ms"
  shows "nodes_at (linked_nodes ms) [] = linked_nodes ms"
    and "initial_ready (linked_nodes ms) = ready_at (linked_nodes ms) []"
proof -
  let ?N = "linked_nodes ms"
  have deg: "nd_in_degree n = int (card (set (nd_depends_on n)))" if "n \<in> set ?N" for n
  proof -
    from that obtain m where m: "m \<in> set (nodes_of ms)" "n = link_node (table_of ms) m"
      by (auto simp: linked_nodes_def)
    have "distinct (map fst (table_of ms))" using assms(1) by (simp add: names_ok_def)
    moreover have "(nd_name m, nd_depends_on m) \<in> set (table_of ms)"
      using m(1) by (simp add: node_table_nodes_of [symmetric] node_table_def)
    moreover have "nd_in_degree m = 0" "distinct (nd_depends_on m)"
      using m(1) by (auto simp: nodes_of_def distinct_normalize_dependencies)
    ultimately show ?thesis
      using m(2) by (simp add: link_node_def fold_link_in_degree map_of_is_SomeI distinct_card)
  qed
  show "nodes_at ?N [] = ?N" by (auto simp: nodes_at_def deg intro!: map_idI)
  have "filter (\<lambda>n. nd_in_degree n = 0) ?N = filter (is_ready []) ?N"
    by (rule filter_cong) (auto simp: deg is_ready_def)
  then have "initial_ready ?N = sort_key fst (ready_at ?N [])"
    by (simp add: initial_ready_def ready_at_def)
  also have "\<dots> = ready_at ?N []"
    using sorted_ready_at [OF linked_linked_nodes [OF assms], of "[]"]
    by (simp add: sorted_sort_id strict_sorted_iff sort_key_id_if_sorted)
  finally show "initial_ready ?N = ready_at ?N []" .
qed

lemma drain_top:
  assumes "names_ok ms" "deps_known ms"
  obtains out where "drain (linked_nodes ms) (initial_ready (linked_nodes ms)) [] =
      (nodes_at (linked_nodes ms) (module_order (table_of ms)), out)"
    "map Some out = map (module_at (linked_nodes ms)) (module_order (table_of ms))"
proof -
  let ?N = "linked_nodes ms" and ?t = "table_of ms"
  have len: "length ?N = length ?t" by (simp add: table_linked_nodes [symmetric] node_table_def)
  from drain_reference [OF linked_linked_nodes [OF assms], of "[]" "length ?t" "[]"] that
  show thesis
    by (auto simp: table_linked_nodes len module_order_def linked_nodes_start [OF assms])
qed

text \<open>The names of the modules in a result of \<open>Sort\<close>, and what it is a permutation of.\<close>

lemma module_at_linked_nodes:
  assumes "names_ok ms" "deps_known ms"
  shows "module_at (linked_nodes ms) x = Some m \<longleftrightarrow> m \<in> set (enabled_modules ms) \<and> module_key m = x"
proof -
  have d: "distinct (map nd_name (linked_nodes ms))"
    by (rule linked_distinct [OF linked_linked_nodes [OF assms]])
  have "module_at (linked_nodes ms) x = Some m \<longleftrightarrow> (\<exists>n \<in> set (linked_nodes ms). nd_name n = x \<and> nd_module n = m)"
    using find_node_Some [OF d, of x] by (auto simp: module_at_def)
  also have "\<dots> \<longleftrightarrow> (\<exists>n \<in> set (nodes_of ms). nd_name n = x \<and> nd_module n = m)"
    by (auto simp: linked_nodes_def)
  also have "\<dots> \<longleftrightarrow> m \<in> set (enabled_modules ms) \<and> module_key m = x"
    by (force simp: nodes_of_def enabled_modules_def)
  finally show ?thesis .
qed

lemma drain_modules:
  assumes ok: "names_ok ms" "deps_known ms"
    and out: "map Some out = map (module_at (linked_nodes ms)) (module_order (table_of ms))"
  shows "map module_key out = module_order (table_of ms)" "set out \<subseteq> set (enabled_modules ms)"
proof -
  have len: "length out = length (module_order (table_of ms))" using out by (metis length_map)
  have nth: "out ! i \<in> set (enabled_modules ms) \<and> module_key (out ! i) = module_order (table_of ms) ! i"
    if "i < length out" for i
  proof -
    have "Some (out ! i) = module_at (linked_nodes ms) (module_order (table_of ms) ! i)"
      using out that len by (metis nth_map)
    then show ?thesis using module_at_linked_nodes [OF ok] by metis
  qed
  show "map module_key out = module_order (table_of ms)"
    using nth len by (intro nth_equalityI) auto
  show "set out \<subseteq> set (enabled_modules ms)" using nth by (auto simp: in_set_conv_nth)
qed

lemma sort_modules_reference:
  "sort_modules ms = Inr out \<longleftrightarrow>
     names_ok ms \<and> deps_known ms \<and> length (module_order (table_of ms)) = length (enabled_modules ms) \<and>
     set out \<subseteq> set (enabled_modules ms) \<and> map module_key out = module_order (table_of ms)"
  (is "?L \<longleftrightarrow> ?R")
proof (cases "names_ok ms \<and> deps_known ms")
  case False
  then show ?thesis
    by (auto simp: sort_modules_def bind_res_eq_Inr collect_nodes_top node_table_nodes_of link_all_top)
next
  case True
  then have ok: "names_ok ms" "deps_known ms" by auto
  obtain out' where dr: "drain (linked_nodes ms) (initial_ready (linked_nodes ms)) [] =
      (nodes_at (linked_nodes ms) (module_order (table_of ms)), out')"
    and o: "map Some out' = map (module_at (linked_nodes ms)) (module_order (table_of ms))"
    by (rule drain_top [OF ok])
  have len: "length (linked_nodes ms) = length (enabled_modules ms)"
    by (simp add: linked_nodes_def nodes_of_def enabled_modules_def)
  have "?L \<longleftrightarrow> length out' = length (enabled_modules ms) \<and> out' = out"
    using ok by (auto simp: sort_modules_def bind_res_eq_Inr collect_nodes_top node_table_nodes_of
        link_all_top dr len)
  moreover have "out' = out \<longleftrightarrow> set out \<subseteq> set (enabled_modules ms) \<and> map module_key out = module_order (table_of ms)"
  proof
    assume a: "set out \<subseteq> set (enabled_modules ms) \<and> map module_key out = module_order (table_of ms)"
    have "inj_on module_key (set (enabled_modules ms))"
      using ok(1) by (simp add: names_ok_def distinct_map)
    then have "inj_on module_key (set out' \<union> set out)"
      using a drain_modules(2) [OF ok o] by (meson Un_least inj_on_subset)
    from inj_on_map_eq_map [OF this] a drain_modules(1) [OF ok o] show "out' = out" by simp
  qed (use drain_modules [OF ok o] in auto)
  moreover have "length out' = length (module_order (table_of ms))" using o by (metis length_map)
  ultimately show ?thesis using ok by auto
qed

lemma sort_modules_cycle_nodes:
  assumes "sort_modules ms = Inl (Dependency_Cycle bs)"
  shows "names_ok ms \<and> deps_known ms \<and>
    bs = blocked_names (nodes_at (linked_nodes ms) (module_order (table_of ms)))"
proof -
  have nc: "collect_nodes i ns ms \<noteq> Inl (Dependency_Cycle bs)" for i and ns :: "('a, 'b) module node list" and ms
    by (induction i ns ms rule: collect_nodes.induct) (auto simp: Let_def)
  have nd: "link_deps c ds ns \<noteq> Inl (Dependency_Cycle bs)" for c ds and ns :: "('a, 'b) module node list"
    by (induction c ds ns rule: link_deps.induct) (auto split: option.split)
  have nl: "link_all t ns \<noteq> Inl (Dependency_Cycle bs)" for t and ns :: "('a, 'b) module node list"
    by (induction t ns rule: link_all.induct) (auto simp: bind_res_eq_Inl nd)
  from assms nc nl have ok: "names_ok ms" "deps_known ms"
    by (auto simp: sort_modules_def bind_res_eq_Inl collect_nodes_top node_table_nodes_of link_all_top)
  from ok assms show ?thesis
    by (rule_tac drain_top [OF ok])
      (auto simp: sort_modules_def bind_res_eq_Inl nc nl collect_nodes_top node_table_nodes_of
        link_all_top split: if_splits)
qed

lemma blocked_at_end:
  assumes ok: "names_ok ms" "deps_known ms"
  shows "set (blocked_names (nodes_at (linked_nodes ms) (module_order (table_of ms)))) =
      names_of (table_of ms) - set (module_order (table_of ms))"
    and "distinct (blocked_names (nodes_at (linked_nodes ms) (module_order (table_of ms))))"
proof -
  let ?N = "linked_nodes ms" and ?mo = "module_order (table_of ms)"
  have N: "linked ?N" by (rule linked_linked_nodes [OF ok])
  have wf: "wf_table (table_of ms)" by (rule wf_table_of [OF ok])
  have tb: "node_table ?N = table_of ms" by (rule table_linked_nodes)
  have iff: "0 < card (set (nd_depends_on n) - set ?mo) \<longleftrightarrow> nd_name n \<notin> set ?mo" if n: "n \<in> set ?N" for n
  proof -
    have row: "(nd_name n, nd_depends_on n) \<in> set (table_of ms)" using linked_nodeD(1) [OF N n] tb by simp
    have "nd_name n \<in> set ?mo \<longleftrightarrow> set (nd_depends_on n) \<subseteq> set ?mo"
    proof
      assume "nd_name n \<in> set ?mo"
      then obtain us vs where "?mo = us @ nd_name n # vs" by (meson split_list)
      with module_order_deps_first [OF wf] row show "set (nd_depends_on n) \<subseteq> set ?mo"
        using deps_firstD by fastforce
    next
      assume "set (nd_depends_on n) \<subseteq> set ?mo"
      moreover have "nd_name n \<notin> set (ready_names (table_of ms) ?mo)"
        by (simp add: module_order_maximal [OF wf])
      ultimately show "nd_name n \<in> set ?mo" using row by (auto simp: ready_names_mem)
    qed
    then show ?thesis by (auto simp: card_gt_0_iff)
  qed
  have nm: "names_of (table_of ms) = nd_name ` set ?N"
    unfolding tb [symmetric] names_of_def by (simp flip: set_map)
  have "set (blocked_names (nodes_at ?N ?mo)) =
      nd_name ` {n \<in> set ?N. 0 < card (set (nd_depends_on n) - set ?mo)}"
    by (simp add: blocked_names_def nodes_at_def filter_map comp_def)
  also have "{n \<in> set ?N. 0 < card (set (nd_depends_on n) - set ?mo)} = {n \<in> set ?N. nd_name n \<notin> set ?mo}"
    using iff by blast
  finally show "set (blocked_names (nodes_at ?N ?mo)) = names_of (table_of ms) - set ?mo"
    unfolding nm by auto
  have "distinct (map nd_name (nodes_at ?N ?mo))" using linked_distinct [OF N] by simp
  then show "distinct (blocked_names (nodes_at ?N ?mo))"
    by (simp add: blocked_names_def distinct_map_filter)
qed

section \<open>Properties\<close>

lemma order_mset:
  assumes "names_ok ms" "deps_known ms" "length (module_order (table_of ms)) = length (enabled_modules ms)"
    "set out \<subseteq> set (enabled_modules ms)" "map module_key out = module_order (table_of ms)"
  shows "mset out = mset (enabled_modules ms)"
proof -
  have "distinct (module_order (table_of ms))"
    using module_order_deps_first [OF wf_table_of [OF assms(1,2)]] by (simp add: deps_first_def)
  then have d: "distinct out" using assms(5) by (metis distinct_map)
  have de: "distinct (enabled_modules ms)" using assms(1) by (simp add: names_ok_def distinct_map)
  have "length out = length (enabled_modules ms)" using assms(3,5) by (metis length_map)
  then have "card (set out) = card (set (enabled_modules ms))" using d de by (simp add: distinct_card)
  then have "set out = set (enabled_modules ms)" using assms(4) by (simp add: card_subset_eq)
  with d de show ?thesis by (simp add: set_eq_iff_mset_eq_distinct)
qed

lemma enabled_row: "m \<in> set (enabled_modules ms) \<Longrightarrow>
    (module_key m, normalize_dependencies (m_dependencies m)) \<in> set (table_of ms)"
  by (auto simp: table_of_def)

lemma sort_modules_topological:
  assumes "sort_modules ms = Inr out"
  shows "mset out = mset (enabled_modules ms) \<and>
    (\<forall>m \<in> set out. \<forall>d \<in> set (normalize_dependencies (m_dependencies m)).
       \<exists>p. module_key p = d \<and> before out p m)"
proof -
  from assms have ref: "names_ok ms" "deps_known ms"
      "length (module_order (table_of ms)) = length (enabled_modules ms)"
      "set out \<subseteq> set (enabled_modules ms)" "map module_key out = module_order (table_of ms)"
    by (simp_all add: sort_modules_reference)
  have df: "deps_first (table_of ms) (map module_key out)"
    using module_order_deps_first [OF wf_table_of [OF ref(1,2)]] ref(5) by simp
  have "\<exists>p. module_key p = d \<and> before out p m"
    if m: "m \<in> set out" and d: "d \<in> set (normalize_dependencies (m_dependencies m))" for m d
  proof -
    obtain us vs where out: "out = us @ m # vs" using m by (meson split_list)
    then have "deps_first (table_of ms) (map module_key us @ module_key m # map module_key vs)"
      using df by simp
    from deps_firstD [OF this enabled_row] m ref(4) d have "d \<in> set (map module_key us)" by blast
    then obtain p where "p \<in> set us" "module_key p = d" by auto
    with out show ?thesis by (auto intro: before_appendI)
  qed
  with order_mset [OF ref] show ?thesis by blast
qed

text \<open>C1: a successful \<open>Sort\<close> returns every enabled module exactly once, and each of them after
  every module it depends on.\<close>

theorem sort_modules_sound:
  assumes "sort_modules ms = Inr out"
  shows "mset out = mset (enabled_modules ms) \<and>
    (\<forall>m \<in> set out. \<forall>d \<in> set (normalize_dependencies (m_dependencies m)).
       \<exists>p. module_key p = d \<and> before out p m)"
  using assms by (rule sort_modules_topological)

text \<open>C2: \<open>Sort\<close> succeeds exactly when the trimmed names of the enabled modules are non-empty and
  distinct, every dependency is another enabled module, and the dependencies are acyclic.\<close>

theorem sort_modules_ok_iff:
  "is_ok (sort_modules ms) \<longleftrightarrow>
     names_ok ms \<and> deps_known ms \<and> acyclic (dep_rel (table_of ms))"
proof -
  have len: "length (enabled_modules ms) = length (table_of ms)" by (simp add: table_of_def)
  have "\<exists>out. sort_modules ms = Inr out"
    if ok: "names_ok ms" "deps_known ms" and l: "length (module_order (table_of ms)) = length (enabled_modules ms)"
  proof -
    obtain out where "map Some out = map (module_at (linked_nodes ms)) (module_order (table_of ms))"
      by (rule drain_top [OF ok])
    from drain_modules [OF ok this] ok l show ?thesis
      by (intro exI [of _ out]) (simp add: sort_modules_reference)
  qed
  then have "is_ok (sort_modules ms) \<longleftrightarrow>
      names_ok ms \<and> deps_known ms \<and> length (module_order (table_of ms)) = length (table_of ms)"
    by (auto simp: is_ok_iff sort_modules_reference len)
  then show ?thesis using module_order_complete [OF wf_table_of] by blast
qed

lemma ready_names_table_of:
  "ready_names (table_of ms) taken =
     map module_key (filter (\<lambda>p. module_key p \<notin> set taken \<and>
       set (normalize_dependencies (m_dependencies p)) \<subseteq> set taken) (enabled_modules ms))"
proof -
  have "ready_names (map (\<lambda>m. (module_key m, normalize_dependencies (m_dependencies m))) xs) taken =
     map module_key (filter (\<lambda>p. module_key p \<notin> set taken \<and>
       set (normalize_dependencies (m_dependencies p)) \<subseteq> set taken) xs)" for xs :: "('a, 'b) module list"
    by (induction xs) (simp_all add: ready_names_def)
  then show ?thesis by (simp add: table_of_def)
qed

lemma find_filter_hd: "filter P xs = p # ps \<Longrightarrow> find P xs = Some p"
  by (induction xs) (auto split: if_splits)

text \<open>C3: at every position of the result stands the earliest registered module whose dependencies
  all come before it, so the startup order is determined by the registration order.\<close>

theorem sort_modules_stable:
  assumes "sort_modules ms = Inr (us @ m # vs)"
  shows "find (\<lambda>p. module_key p \<notin> module_key ` set us \<and>
      set (normalize_dependencies (m_dependencies p)) \<subseteq> module_key ` set us) (enabled_modules ms) = Some m"
proof -
  from assms have ref: "names_ok ms" "set (us @ m # vs) \<subseteq> set (enabled_modules ms)"
      "map module_key (us @ m # vs) = module_order (table_of ms)"
    by (simp_all add: sort_modules_reference)
  from ref(3) obtain xs where "ready_names (table_of ms) (map module_key us) = module_key m # xs"
    using module_order_step [of "table_of ms" "map module_key us" "module_key m" "map module_key vs"] by auto
  then have "map module_key (filter (\<lambda>p. module_key p \<notin> module_key ` set us \<and>
      set (normalize_dependencies (m_dependencies p)) \<subseteq> module_key ` set us) (enabled_modules ms)) = module_key m # xs"
    by (simp add: ready_names_table_of)
  from map_eq_Cons_D [OF this] obtain p ps where f: "filter (\<lambda>p. module_key p \<notin> module_key ` set us \<and>
      set (normalize_dependencies (m_dependencies p)) \<subseteq> module_key ` set us) (enabled_modules ms) = p # ps"
    and key: "module_key p = module_key m" by blast
  have "p \<in> set (filter (\<lambda>p. module_key p \<notin> module_key ` set us \<and>
      set (normalize_dependencies (m_dependencies p)) \<subseteq> module_key ` set us) (enabled_modules ms))"
    unfolding f by simp
  then have "p \<in> set (enabled_modules ms)" by simp
  moreover have "inj_on module_key (set (enabled_modules ms))" using ref(1) by (simp add: names_ok_def distinct_map)
  ultimately have "p = m" using key ref(2) by (auto dest: inj_onD)
  with f show ?thesis by (simp add: find_filter_hd)
qed

text \<open>C4: the cycle error lists, in sorted order and once each, exactly the modules that are on a
  dependency cycle or depend on one.\<close>

theorem sort_modules_cycle_error:
  assumes "sort_modules ms = Inl (Dependency_Cycle bs)"
  shows "sorted bs \<and> distinct bs \<and>
    set bs = {x. \<exists>y. (y, y) \<in> (dep_rel (table_of ms))\<^sup>+ \<and> (y, x) \<in> (dep_rel (table_of ms))\<^sup>*}"
proof -
  from sort_modules_cycle_nodes [OF assms] have ok: "names_ok ms" "deps_known ms"
    and bs: "bs = blocked_names (nodes_at (linked_nodes ms) (module_order (table_of ms)))" by auto
  have "sorted bs" by (simp add: bs blocked_names_def)
  moreover have "set bs = {x. x \<in> names_of (table_of ms) \<and> x \<notin> set (module_order (table_of ms))}"
    using blocked_at_end(1) [OF ok] bs by blast
  ultimately show ?thesis
    using blocked_at_end(2) [OF ok] bs module_order_left_out [OF wf_table_of [OF ok]] by simp
qed

lemma run_inits_append:
  "run_inits (us @ vs) s =
     (case run_inits us s of (Some e, s') \<Rightarrow> (Some e, s') | (None, s') \<Rightarrow> run_inits vs s')"
  by (induction us s rule: run_inits.induct) (auto split: option.splits prod.splits)

lemma run_inits_failed:
  "run_inits ms s = (Some (Init_Failed x e), s') \<longleftrightarrow>
     (\<exists>us m vs s1. ms = us @ m # vs \<and> run_inits us s = (None, s1) \<and>
        m_init m s1 = (Some e, s') \<and> x = module_key m)"
proof (induction ms arbitrary: s)
  case (Cons a ms)
  obtain r s2 where a: "m_init a s = (r, s2)" by (cases "m_init a s")
  show ?case
  proof (cases r)
    case None
    have "run_inits (a # ms) s = (Some (Init_Failed x e), s') \<longleftrightarrow>
        (\<exists>us m vs s1. ms = us @ m # vs \<and> run_inits us s2 = (None, s1) \<and> m_init m s1 = (Some e, s') \<and> x = module_key m)"
      using a None Cons.IH by simp
    also have "\<dots> \<longleftrightarrow> (\<exists>us m vs s1. a # ms = us @ m # vs \<and> run_inits us s = (None, s1) \<and>
        m_init m s1 = (Some e, s') \<and> x = module_key m)" (is "?L \<longleftrightarrow> ?R")
    proof
      assume ?L
      then obtain us m vs s1 where "ms = us @ m # vs" "run_inits us s2 = (None, s1)"
        "m_init m s1 = (Some e, s')" "x = module_key m" by blast
      with a None show ?R by (intro exI [of _ "a # us"] exI [of _ m] exI [of _ vs] exI [of _ s1]) simp
    next
      assume ?R
      then obtain us m vs s1 where us: "a # ms = us @ m # vs" "run_inits us s = (None, s1)"
        "m_init m s1 = (Some e, s')" "x = module_key m" by blast
      with a None obtain us' where "us = a # us'" by (cases us) auto
      with us a None show ?L by auto
    qed
    finally show ?thesis .
  next
    case (Some e')
    then show ?thesis using a
      by (auto simp: module_key_def Cons_eq_append_conv intro!: exI [of _ "[]"])
  qed
qed simp

text \<open>\<open>Execute\<close> reports an initialisation error exactly when the modules before one in the
  sorted order initialise without error, one after the other, and that module then fails; the state
  is the one its failure left, so no later module has run.\<close>

lemma execute_first_error:
  "execute ms s = (Some (Init_Failed x e), s') \<longleftrightarrow>
     (\<exists>us m vs s1. sort_modules ms = Inr (us @ m # vs) \<and> run_inits us s = (None, s1) \<and>
        m_init m s1 = (Some e, s') \<and> x = module_key m)"
  by (cases "sort_modules ms") (auto simp: execute_def run_inits_failed)

section \<open>Witnesses\<close>

text \<open>A diamond of four modules, registered with the last stage first, and a cycle with a tail.\<close>

definition demo_module :: "string \<Rightarrow> string list \<Rightarrow> (unit, unit) module" where
  "demo_module name ds = new_module_wrapper name ''demo'' (\<lambda>s. (None, s)) ds"

definition demo_diamond :: "(unit, unit) module option list" where
  "demo_diamond =
     [Some (demo_module ''api'' ['' cache'', ''db'']), None, Some (demo_module ''db'' [''log'']),
      Some (demo_module ''cache'' [''log'', ''log '']), Some (demo_module ''log'' [])]"

definition demo_order :: "(unit, unit) module list" where
  "demo_order = [demo_module ''log'' [], demo_module ''db'' [''log'']] @
     demo_module ''cache'' [''log'', ''log ''] # [demo_module ''api'' ['' cache'', ''db'']]"

definition demo_cycle :: "(unit, unit) module option list" where
  "demo_cycle =
     [Some (demo_module ''c'' [''b'']), Some (demo_module ''a'' [''b'']), Some (demo_module ''b'' [''a'']),
      Some (demo_module ''d'' [])]"

lemma demo_diamond_sorts: "sort_modules demo_diamond = Inr demo_order"
  by code_simp

lemma demo_cycle_sorts: "sort_modules demo_cycle = Inl (Dependency_Cycle [''a'', ''b'', ''c''])"
  by code_simp

theorem sort_modules_sound_witness:
  "mset demo_order = mset (enabled_modules demo_diamond) \<and>
   (\<exists>p. module_key p = ''log'' \<and> before demo_order p (demo_module ''db'' [''log'']))"
proof -
  have "demo_module ''db'' [''log''] \<in> set demo_order" by (simp add: demo_order_def)
  moreover have "''log'' \<in> set (normalize_dependencies (m_dependencies (demo_module ''db'' [''log''])))"
    by code_simp
  ultimately show ?thesis using sort_modules_sound [OF demo_diamond_sorts] by blast
qed

theorem sort_modules_stable_witness:
  "find (\<lambda>p. module_key p \<notin> module_key ` set [demo_module ''log'' [], demo_module ''db'' [''log'']] \<and>
     set (normalize_dependencies (m_dependencies p))
       \<subseteq> module_key ` set [demo_module ''log'' [], demo_module ''db'' [''log'']])
     (enabled_modules demo_diamond) = Some (demo_module ''cache'' [''log'', ''log ''])"
  by (rule sort_modules_stable [OF demo_diamond_sorts [unfolded demo_order_def]])

theorem sort_modules_cycle_error_witness:
  "sorted [''a'', ''b'', ''c''] \<and> distinct [''a'', ''b'', ''c''] \<and>
   set [''a'', ''b'', ''c''] =
     {x. \<exists>y. (y, y) \<in> (dep_rel (table_of demo_cycle))\<^sup>+ \<and> (y, x) \<in> (dep_rel (table_of demo_cycle))\<^sup>*}"
  by (rule sort_modules_cycle_error [OF demo_cycle_sorts])

end
