(* ===== verification/Config_Parse.thy ===== *)
theory Config_Parse
  imports Go_Strings "HOL-Library.Char_ord" "HOL-Library.List_Lexorder" "HOL-Library.Multiset"
begin

text \<open>
  \<open>configparse/helpers.go\<close>: the collector of validation problems, the checks shared by the
  sections of the configuration, the lookup of a dotted section path and the ordering of a key set.
  \<open>mapstructure\<close> is third-party code: its \<open>NewDecoder\<close> is a parameter of \<open>Decode\<close>, and elsewhere what \<open>Decode\<close>
  returned (the value, and an error or the list of unused keys) is.

  A Go map is a list of its entries in the order of one iteration; the order is unspecified in Go, so
  statements that hold for every such list hold for every iteration order. A value of type \<open>any\<close> is
  a table or a leaf. The \<open>*Problems\<close> pointer is an \<open>option\<close>: \<open>None\<close> is the nil pointer.
\<close>

section \<open>Problems\<close>

record field_error =
  fe_path :: string
  fe_message :: string

type_synonym problems = "field_error list option"

definition field_err :: "string \<Rightarrow> string \<Rightarrow> field_error" where
  "field_err path message = \<lparr> fe_path = path, fe_message = message \<rparr>"

definition problems_add :: "string \<Rightarrow> string \<Rightarrow> problems \<Rightarrow> problems" where
  "problems_add path message p =
     (case p of None \<Rightarrow> None | Some details \<Rightarrow> Some (details @ [field_err path message]))"

definition has_errors :: "problems \<Rightarrow> bool" where
  "has_errors p = (case p of None \<Rightarrow> False | Some details \<Rightarrow> details \<noteq> [])"

definition problem_errors :: "problems \<Rightarrow> field_error list" where
  "problem_errors p = (case p of None \<Rightarrow> [] | Some details \<Rightarrow> details)"

text \<open>\<open>if cond { problems.Add(path, message) }\<close>\<close>

definition add_if :: "bool \<Rightarrow> string \<Rightarrow> string \<Rightarrow> problems \<Rightarrow> problems" where
  "add_if cond path message p = (if cond then problems_add path message p else p)"

text \<open>\<open>Decode\<close>: \<open>new_decoder\<close> answers with an error or with a decoder, which takes the input and the value to fill.
  The result is an error (the metadata is nil) or the unused keys.\<close>

datatype decode_hook = String_To_Time_Duration | Text_Unmarshaller

record decoder_config =
  dc_tag_name :: string
  dc_decode_hook :: "decode_hook list"

definition decode_section ::
  "(decoder_config \<Rightarrow> (string, 'i \<Rightarrow> 'o \<Rightarrow> 'o \<times> (string, string list) result) result) \<Rightarrow> 'i \<Rightarrow> 'o \<Rightarrow>
   'o \<times> (string, string list) result" where
  "decode_section new_decoder input out =
     (case new_decoder \<lparr> dc_tag_name = ''toml'', dc_decode_hook = [String_To_Time_Duration, Text_Unmarshaller] \<rparr> of
        Inl err \<Rightarrow> (out, Inl err)
      | Inr decoder \<Rightarrow>
          (case decoder input out of
             (out, Inl err) \<Rightarrow> (out, Inl err)
           | (out, Inr unused) \<Rightarrow> (out, Inr unused)))"

definition add_decode_error :: "string \<Rightarrow> string option \<Rightarrow> problems \<Rightarrow> problems" where
  "add_decode_error path err p =
     (case err of
        None \<Rightarrow> p
      | Some e \<Rightarrow> if path = [] then problems_add [] e p else problems_add path e p)"

fun add_unused_loop :: "string list \<Rightarrow> string list \<Rightarrow> problems \<Rightarrow> problems" where
  "add_unused_loop [] ignore p = p"
| "add_unused_loop (path # paths) ignore p =
     (if path \<in> set ignore then add_unused_loop paths ignore p
      else add_unused_loop paths ignore (problems_add path ''unknown field'' p))"

definition add_unused :: "string list option \<Rightarrow> string list \<Rightarrow> problems \<Rightarrow> problems" where
  "add_unused metadata ignore p =
     (case metadata of None \<Rightarrow> p | Some unused \<Rightarrow> add_unused_loop unused ignore p)"

definition validate_port :: "int \<Rightarrow> string \<Rightarrow> problems \<Rightarrow> problems" where
  "validate_port port path p = add_if (port < 1 \<or> 65535 < port) path ''must be between 1 and 65535'' p"

definition validate_duration :: "int \<Rightarrow> string \<Rightarrow> problems \<Rightarrow> problems" where
  "validate_duration v path p = add_if (v < 0) path ''must be greater than or equal to 0'' p"

definition trim_string_slice :: "string list \<Rightarrow> string list" where
  "trim_string_slice vs = map trim_space vs"

subsection \<open>Every check only appends\<close>

text \<open>
  \<open>appends f es\<close>: the step \<open>f\<close> on the collector appends exactly the errors \<open>es\<close>. Validators
  compose, so the errors of a validator are the concatenation of those of its checks.
\<close>

definition appends :: "(problems \<Rightarrow> problems) \<Rightarrow> field_error list \<Rightarrow> bool" where
  "appends f es \<longleftrightarrow> (\<forall>p. f p = map_option (\<lambda>details. details @ es) p)"

named_theorems appends_intros \<open>what each validation step appends\<close>

lemma appendsD: "appends f es \<Longrightarrow> f (Some ds) = Some (ds @ es)"
  by (simp add: appends_def)

lemma appends_id [appends_intros]: "appends (\<lambda>p. p) []"
  by (simp add: appends_def option.map_ident)

lemma appends_add [appends_intros]: "appends (problems_add path msg) [field_err path msg]"
  by (auto simp: appends_def problems_add_def split: option.split)

lemma appends_add_if [appends_intros]:
  "appends (add_if b path msg) (if b then [field_err path msg] else [])"
  by (auto simp: appends_def add_if_def problems_add_def option.map_ident split: option.split)

lemma appends_comp: "appends f es \<Longrightarrow> appends g fs \<Longrightarrow> appends (\<lambda>p. g (f p)) (es @ fs)"
  by (simp add: appends_def option.map_comp comp_def)

lemma appends_fold:
  "(\<And>x. x \<in> set xs \<Longrightarrow> appends (f x) (es x)) \<Longrightarrow> appends (fold f xs) (concat (map es xs))"
proof (induction xs)
  case Nil
  then show ?case by (simp add: appends_def option.map_ident id_def)
next
  case (Cons x xs)
  then have "appends (\<lambda>p. fold f xs (f x p)) (es x @ concat (map es xs))"
    by (intro appends_comp) auto
  then show ?case by (simp add: comp_def)
qed

lemma appends_unused_loop:
  "appends (add_unused_loop paths ignore)
     (map (\<lambda>path. field_err path ''unknown field'') (filter (\<lambda>path. path \<notin> set ignore) paths))"
proof (induction paths)
  case (Cons path paths)
  have "appends (\<lambda>p. add_unused_loop paths ignore (problems_add path ''unknown field'' p))
      ([field_err path ''unknown field''] @
       map (\<lambda>path. field_err path ''unknown field'') (filter (\<lambda>path. path \<notin> set ignore) paths))"
    by (rule appends_comp [OF appends_add Cons.IH])
  with Cons.IH show ?case by (auto simp: appends_def)
qed (simp add: appends_def option.map_ident)

lemma has_errors_Some [simp]: "has_errors (Some ds) \<longleftrightarrow> ds \<noteq> []"
  by (simp add: has_errors_def)

lemma problem_errors_Some [simp]: "problem_errors (Some ds) = ds"
  by (simp add: problem_errors_def)

subsection \<open>The contract of a section\<close>

text \<open>
  What \<open>LoadFromBytes\<close> relies on for each section of the configuration: the section is normalized, then
  validated; validation only appends, namely \<open>errors\<close>; a normalized section has no errors exactly when
  it is \<open>valid\<close>; and normalizing again changes nothing.
\<close>

locale config_section =
  fixes normalize :: "'c \<Rightarrow> 'c"
    and validate :: "'c \<Rightarrow> problems \<Rightarrow> problems"
    and errors :: "'c \<Rightarrow> field_error list"
    and valid :: "'c \<Rightarrow> bool"
  assumes appends_errors: "appends (validate c) (errors c)"
    and no_errors_iff: "errors (normalize c) = [] \<longleftrightarrow> valid (normalize c)"
    and normalize_idem: "normalize (normalize c) = normalize c"
begin

lemma collects: "validate c (Some ds) = Some (ds @ errors c)"
  by (rule appendsD [OF appends_errors])

lemma accepts_iff: "has_errors (validate (normalize c) (Some ds)) \<longleftrightarrow> ds \<noteq> [] \<or> \<not> valid (normalize c)"
  by (simp add: collects no_errors_iff)

lemma accepts_again:
  "valid (normalize c) \<Longrightarrow> validate (normalize (normalize c)) (Some []) = Some []"
  by (simp add: collects no_errors_iff normalize_idem)

end

section \<open>Section paths\<close>

datatype 'a any = Table "(string \<times> 'a any) list" | Leaf 'a

datatype lookup_error =
    Section_Empty
  | Invalid_Section string
  | Not_Table_Path string
  | Section_Not_Found string

fun walk_path :: "string \<Rightarrow> 'a any \<Rightarrow> string list \<Rightarrow> (lookup_error, 'a any) result" where
  "walk_path path current [] = Inr current"
| "walk_path path current (part0 # parts) =
     (let part = trim_space part0 in
      if part = [] then Inl (Invalid_Section path)
      else case current of
        Leaf _ \<Rightarrow> Inl (Not_Table_Path path)
      | Table table \<Rightarrow>
          (case map_of table part of
             None \<Rightarrow> Inl (Section_Not_Found path)
           | Some next \<Rightarrow> walk_path path next parts))"

definition lookup_path :: "(string \<times> 'a any) list \<Rightarrow> string \<Rightarrow> (lookup_error, 'a any) result" where
  "lookup_path root path =
     (let normalized = trim_prefix (trim_space path) ''.'' in
      if normalized = [] then Inl Section_Empty
      else walk_path path (Table root) (split_on CHR ''.'' normalized))"

text \<open>The nested table itself, as the specification of the lookup.\<close>

fun get_in :: "'a any \<Rightarrow> string list \<Rightarrow> 'a any option" where
  "get_in v [] = Some v"
| "get_in (Leaf a) (k # ks) = None"
| "get_in (Table t) (k # ks) = Option.bind (map_of t k) (\<lambda>v. get_in v ks)"

lemma walk_path_iff:
  "walk_path path v parts = Inr w \<longleftrightarrow>
     [] \<notin> set (map trim_space parts) \<and> get_in v (map trim_space parts) = Some w"
  by (induction path v parts rule: walk_path.induct)
    (auto simp: Let_def bind_eq_Some_conv split: any.splits option.splits)

definition path_keys :: "string \<Rightarrow> string list" where
  "path_keys path = map trim_space (split_on CHR ''.'' (trim_prefix (trim_space path) ''.''))"

text \<open>A section lookup succeeds exactly when the path, after trimming and one leading dot, is a
  dotted list of non-blank keys and following those keys through the nested tables leads to the
  value.\<close>

lemma lookup_path_iff:
  "lookup_path root path = Inr v \<longleftrightarrow>
     [] \<notin> set (path_keys path) \<and> get_in (Table root) (path_keys path) = Some v"
proof (cases "trim_prefix (trim_space path) ''.'' = []")
  case True
  then show ?thesis by (simp add: lookup_path_def path_keys_def)
next
  case False
  then show ?thesis by (simp add: lookup_path_def path_keys_def walk_path_iff)
qed

section \<open>Ordered keys\<close>

text \<open>The exchange sort of \<open>OrderedKeys\<close>: two nested loops over indices.\<close>

definition swap :: "'a list \<Rightarrow> nat \<Rightarrow> nat \<Rightarrow> 'a list" where
  "swap out i j = out[i := out ! j, j := out ! i]"

function order_inner :: "nat \<Rightarrow> nat \<Rightarrow> string list \<Rightarrow> string list" where
  "order_inner i j out =
     (if j < length out
      then order_inner i (Suc j) (if out ! j < out ! i then swap out i j else out)
      else out)"
  by pat_completeness auto
termination
  by (relation "measure (\<lambda>(i, j, out). length out - j)") (auto simp: swap_def)

declare order_inner.simps [simp del]

function order_outer :: "nat \<Rightarrow> string list \<Rightarrow> string list" where
  "order_outer i out =
     (if i < length out then order_outer (Suc i) (order_inner i (Suc i) out) else out)"
  by pat_completeness auto

lemma length_swap [simp]: "length (swap out i j) = length out"
  by (simp add: swap_def)

lemma length_order_inner [simp]: "length (order_inner i j out) = length out"
proof (induction i j out rule: order_inner.induct)
  case (1 i j out)
  then show ?case by (simp add: order_inner.simps [of i j out])
qed

termination order_outer
  by (relation "measure (\<lambda>(i, out). length out - i)") auto

declare order_outer.simps [simp del]

definition ordered_keys :: "string list \<Rightarrow> string list" where
  "ordered_keys ks = order_outer 0 ks"

lemma mset_swap_out: "i < length out \<Longrightarrow> j < length out \<Longrightarrow> mset (swap out i j) = mset out"
  unfolding swap_def by (rule mset_swap)

lemma swap_nth: "i < length out \<Longrightarrow> j < length out \<Longrightarrow>
    swap out i j ! k = (if k = i then out ! j else if k = j then out ! i else out ! k)"
  by (auto simp: swap_def nth_list_update)

text \<open>The inner loop moves a least element of the rest to position \<open>i\<close>, and touches nothing before.\<close>

lemma order_inner_spec:
  assumes "i < j" "i < length out" "\<forall>k. i < k \<and> k < j \<and> k < length out \<longrightarrow> out ! i \<le> out ! k"
  shows "mset (order_inner i j out) = mset out \<and> take i (order_inner i j out) = take i out \<and>
    (\<forall>k. i < k \<and> k < length out \<longrightarrow> order_inner i j out ! i \<le> order_inner i j out ! k)"
  using assms
proof (induction i j out rule: order_inner.induct)
  case (1 i j out)
  show ?case
  proof (cases "j < length out")
    case False
    with 1 show ?thesis by (auto simp: order_inner.simps [of i j out])
  next
    case True
    let ?out = "if out ! j < out ! i then swap out i j else out"
    have ms: "mset ?out = mset out" using True 1(2,3) by (simp add: mset_swap_out)
    have tk: "take i ?out = take i out" using 1(2) by (simp add: swap_def)
    have "\<forall>k. i < k \<and> k < Suc j \<and> k < length ?out \<longrightarrow> ?out ! i \<le> ?out ! k"
      using 1(2-4) True by (auto simp: swap_nth less_Suc_eq intro: order.trans less_imp_le)
    with 1(1) [OF True] 1(2,3) ms tk True show ?thesis by (simp add: order_inner.simps [of i j out])
  qed
qed

lemma order_outer_spec:
  assumes "sorted (take i out)" "\<forall>a \<in> set (take i out). \<forall>b \<in> set (drop i out). a \<le> b"
  shows "mset (order_outer i out) = mset out \<and> sorted (order_outer i out)"
  using assms
proof (induction i out rule: order_outer.induct)
  case (1 i out)
  show ?case
  proof (cases "i < length out")
    case False
    with 1 show ?thesis by (simp add: order_outer.simps [of i out])
  next
    case True
    let ?o = "order_inner i (Suc i) out"
    have "\<forall>k. i < k \<and> k < Suc i \<and> k < length out \<longrightarrow> out ! i \<le> out ! k" by auto
    from order_inner_spec [OF lessI True this]
    have o: "mset ?o = mset out" "take i ?o = take i out"
      "\<And>k. i < k \<Longrightarrow> k < length out \<Longrightarrow> ?o ! i \<le> ?o ! k" by auto
    have "mset (take i ?o) + mset (drop i ?o) = mset (take i out) + mset (drop i out)"
      using o(1) by (metis append_take_drop_id mset_append)
    then have dr: "set (drop i ?o) = set (drop i out)" using o(2) by (metis add_left_cancel mset_eq_setD)
    have ts: "take (Suc i) ?o = take i out @ [?o ! i]" using True o(2) by (simp add: take_Suc_conv_app_nth)
    have mem: "?o ! i \<in> set (drop i out)"
      using True dr by (metis Cons_nth_drop_Suc length_order_inner list.set_intros(1))
    have sub: "set (drop (Suc i) ?o) \<subseteq> set (drop i out)"
      using dr by (metis Suc_n_not_le_n nat_le_linear set_drop_subset_set_drop)
    have "sorted (take (Suc i) ?o)" unfolding ts using 1(2,3) mem by (auto simp: sorted_append)
    moreover have "\<forall>a \<in> set (take (Suc i) ?o). \<forall>b \<in> set (drop (Suc i) ?o). a \<le> b"
    proof (intro ballI)
      fix a b assume a: "a \<in> set (take (Suc i) ?o)" and b: "b \<in> set (drop (Suc i) ?o)"
      from b obtain k where "k < length (drop (Suc i) ?o)" "b = drop (Suc i) ?o ! k"
        by (metis in_set_conv_nth)
      then have "?o ! i \<le> b" using o(3) [of "Suc i + k"] True by simp
      moreover have "a \<in> set (take i out) \<or> a = ?o ! i" using a unfolding ts by auto
      ultimately show "a \<le> b" using 1(3) b sub by blast
    qed
    ultimately show ?thesis using 1(1) [OF True] o(1) True by (simp add: order_outer.simps [of i out])
  qed
qed

text \<open>\<open>OrderedKeys\<close> is sorting, so its result does not depend on the order in which Go iterates
  over the key set.\<close>

lemma ordered_keys_sort: "ordered_keys ks = sort ks"
proof -
  from order_outer_spec [of 0 ks] have "mset (ordered_keys ks) = mset ks" "sorted (ordered_keys ks)"
    by (simp_all add: ordered_keys_def)
  then show ?thesis by (metis properties_for_sort)
qed

end
