(* ===== verification/Instance_Config.thy ===== *)
theory Instance_Config
  imports Config_Parse
begin

text \<open>
  The configuration sections of the clients: \<open>redis/config.go\<close>, \<open>mysql/app_config.go\<close> and
  \<open>kafka/config.go\<close>, with their defaults, normalization and validation. A section's map of named
  instances is the list of its entries in the order of one iteration. For each validator there is
  the list of errors it reports and, independently, the predicate a valid section satisfies; the
  lemmas say that no error is reported exactly for the valid sections.
\<close>

section \<open>Redis\<close>

record redis_instance =
  ri_addr :: string
  ri_port :: int
  ri_password :: string
  ri_db :: int

type_synonym redis_config = "(string \<times> redis_instance) list"

definition default_redis_config :: redis_config where
  "default_redis_config = []"

definition redis_validate_instance :: "string \<times> redis_instance \<Rightarrow> problems \<Rightarrow> problems" where
  "redis_validate_instance entry p =
     (case entry of (name, inst) \<Rightarrow>
        let p = add_if (trim_space (ri_addr inst) = []) (''redis.'' @ name @ ''.addr'') ''is required'' p;
            p = validate_port (ri_port inst) (''redis.'' @ name @ ''.port'') p
        in add_if (ri_db inst < 0) (''redis.'' @ name @ ''.db'') ''must be greater than or equal to 0'' p)"

definition redis_validate :: "redis_config \<Rightarrow> problems \<Rightarrow> problems" where
  "redis_validate c = fold redis_validate_instance c"

section \<open>MySQL\<close>

record mysql_instance =
  mi_host :: string
  mi_port :: int
  mi_username :: string
  mi_password :: string
  mi_database :: string
  mi_ping_enabled :: bool

record mysql_config =
  my_max_open_conns :: int
  my_max_idle_conns :: int
  my_max_idle_time :: int
  my_instances :: "(string \<times> mysql_instance) list"

definition default_mysql_config :: mysql_config where
  "default_mysql_config =
     \<lparr> my_max_open_conns = 200, my_max_idle_conns = 100, my_max_idle_time = 0, my_instances = [] \<rparr>"

definition mysql_validate_instance :: "string \<times> mysql_instance \<Rightarrow> problems \<Rightarrow> problems" where
  "mysql_validate_instance entry p =
     (case entry of (name, inst) \<Rightarrow>
        let p = add_if (trim_space (mi_host inst) = []) (''mysql.'' @ name @ ''.host'') ''is required'' p;
            p = validate_port (mi_port inst) (''mysql.'' @ name @ ''.port'') p;
            p = add_if (trim_space (mi_username inst) = []) (''mysql.'' @ name @ ''.username'') ''is required'' p
        in add_if (trim_space (mi_database inst) = []) (''mysql.'' @ name @ ''.database'') ''is required'' p)"

definition mysql_validate :: "mysql_config \<Rightarrow> problems \<Rightarrow> problems" where
  "mysql_validate c p =
     (let p = add_if (my_max_open_conns c \<le> 0) ''mysql.max_open_conns'' ''must be greater than 0'' p;
          p = add_if (my_max_idle_conns c < 0) ''mysql.max_idle_conns'' ''must be greater than or equal to 0'' p;
          p = add_if (my_max_open_conns c < my_max_idle_conns c) ''mysql.max_idle_conns''
                ''must be less than or equal to mysql.max_open_conns'' p;
          p = validate_duration (my_max_idle_time c) ''mysql.max_idle_time'' p
      in fold mysql_validate_instance (my_instances c) p)"

section \<open>Kafka\<close>

record producer_config =
  pc_brokers :: "string list"
  pc_topic :: string
  pc_acks :: string

record consumer_config =
  cc_brokers :: "string list"
  cc_topic :: string
  cc_consumer_group :: string

text \<open>A map of the section is \<open>None\<close> while it is the nil map.\<close>

record kafka_config =
  kc_producer :: "(string \<times> producer_config) list option"
  kc_consumer :: "(string \<times> consumer_config) list option"

definition entries :: "(string \<times> 'a) list option \<Rightarrow> (string \<times> 'a) list" where
  "entries m = (case m of None \<Rightarrow> [] | Some es \<Rightarrow> es)"

definition default_kafka_acks :: string where "default_kafka_acks = ''all''"

definition valid_kafka_acks :: "string list" where "valid_kafka_acks = [''0'', ''1'', ''all'']"

definition default_kafka_config :: kafka_config where
  "default_kafka_config = \<lparr> kc_producer = Some [], kc_consumer = Some [] \<rparr>"

definition normalize_producer :: "producer_config \<Rightarrow> producer_config" where
  "normalize_producer i =
     (let acks = to_lower (trim_space (pc_acks i)) in
      \<lparr> pc_brokers = trim_string_slice (pc_brokers i),
        pc_topic = trim_space (pc_topic i),
        pc_acks = (if acks = [] then default_kafka_acks else acks) \<rparr>)"

definition normalize_consumer :: "consumer_config \<Rightarrow> consumer_config" where
  "normalize_consumer i =
     \<lparr> cc_brokers = trim_string_slice (cc_brokers i),
       cc_topic = trim_space (cc_topic i),
       cc_consumer_group = trim_space (cc_consumer_group i) \<rparr>"

definition kafka_normalize :: "kafka_config option \<Rightarrow> kafka_config option" where
  "kafka_normalize c =
     (case c of None \<Rightarrow> None | Some c \<Rightarrow> Some
        \<lparr> kc_producer = Some (map (\<lambda>(name, i). (name, normalize_producer i)) (entries (kc_producer c))),
          kc_consumer = Some (map (\<lambda>(name, i). (name, normalize_consumer i)) (entries (kc_consumer c))) \<rparr>)"

text \<open>The rendering \<open>%q\<close> of a list of plain words, and the message of an enumeration check.\<close>

definition quote_word :: "string \<Rightarrow> string" where
  "quote_word w = [CHR 0x22] @ w @ [CHR 0x22]"

definition quote_words :: "string list \<Rightarrow> string" where
  "quote_words ws = ''['' @ join '' '' (map quote_word ws) @ '']''"

definition one_of :: "string list \<Rightarrow> string" where
  "one_of ks = ''must be one of '' @ quote_words (ordered_keys ks)"

fun validate_broker_loop :: "string list \<Rightarrow> nat \<Rightarrow> string \<Rightarrow> problems \<Rightarrow> problems" where
  "validate_broker_loop [] index path p = p"
| "validate_broker_loop (broker # brokers) index path p =
     validate_broker_loop brokers (Suc index) path
       (add_if (trim_space broker = []) (path @ ''['' @ itoa (int index) @ '']'') ''must not be empty'' p)"

definition validate_brokers :: "string list \<Rightarrow> string \<Rightarrow> problems \<Rightarrow> problems" where
  "validate_brokers brokers path p =
     (if brokers = [] then problems_add path ''must contain at least one broker'' p
      else validate_broker_loop brokers 0 path p)"

definition validate_producer :: "string \<times> producer_config \<Rightarrow> problems \<Rightarrow> problems" where
  "validate_producer entry p =
     (case entry of (name, inst) \<Rightarrow>
        let p = validate_brokers (pc_brokers inst) (''kafka.producer.'' @ name @ ''.brokers'') p;
            p = add_if (trim_space (pc_topic inst) = []) (''kafka.producer.'' @ name @ ''.topic'') ''is required'' p
        in add_if (pc_acks inst \<notin> set valid_kafka_acks) (''kafka.producer.'' @ name @ ''.acks'')
             (one_of valid_kafka_acks) p)"

definition validate_consumer :: "string \<times> consumer_config \<Rightarrow> problems \<Rightarrow> problems" where
  "validate_consumer entry p =
     (case entry of (name, inst) \<Rightarrow>
        let p = validate_brokers (cc_brokers inst) (''kafka.consumer.'' @ name @ ''.brokers'') p;
            p = add_if (trim_space (cc_topic inst) = []) (''kafka.consumer.'' @ name @ ''.topic'') ''is required'' p
        in add_if (trim_space (cc_consumer_group inst) = [])
             (''kafka.consumer.'' @ name @ ''.consumer_group'') ''is required'' p)"

definition kafka_validate :: "kafka_config \<Rightarrow> problems \<Rightarrow> problems" where
  "kafka_validate c p =
     fold validate_consumer (entries (kc_consumer c)) (fold validate_producer (entries (kc_producer c)) p)"

section \<open>What the validators report\<close>

definition err_if :: "bool \<Rightarrow> string \<Rightarrow> string \<Rightarrow> field_error list" where
  "err_if b path msg = (if b then [field_err path msg] else [])"

lemma err_if_eq_Nil [simp]: "err_if b path msg = [] \<longleftrightarrow> \<not> b"
  by (simp add: err_if_def)

lemma appends_err_if [appends_intros]: "appends (add_if b path msg) (err_if b path msg)"
  unfolding err_if_def by (rule appends_add_if)

lemma appends_port [appends_intros]:
  "appends (validate_port n path) (err_if (n < 1 \<or> 65535 < n) path ''must be between 1 and 65535'')"
  unfolding validate_port_def by (rule appends_err_if)

lemma appends_duration [appends_intros]:
  "appends (validate_duration n path) (err_if (n < 0) path ''must be greater than or equal to 0'')"
  unfolding validate_duration_def by (rule appends_err_if)

fun redis_instance_errors :: "string \<times> redis_instance \<Rightarrow> field_error list" where
  "redis_instance_errors (name, inst) =
     (err_if (trim_space (ri_addr inst) = []) (''redis.'' @ name @ ''.addr'') ''is required'' @
      err_if (ri_port inst < 1 \<or> 65535 < ri_port inst) (''redis.'' @ name @ ''.port'') ''must be between 1 and 65535'') @
     err_if (ri_db inst < 0) (''redis.'' @ name @ ''.db'') ''must be greater than or equal to 0''"

lemma appends_redis_instance: "appends (redis_validate_instance e) (redis_instance_errors e)"
  unfolding redis_validate_instance_def Let_def
  by (cases e) (simp only: prod.case redis_instance_errors.simps, intro appends_comp appends_intros)

lemma appends_redis: "appends (redis_validate c) (concat (map redis_instance_errors c))"
  unfolding redis_validate_def by (rule appends_fold) (rule appends_redis_instance)

fun mysql_instance_errors :: "string \<times> mysql_instance \<Rightarrow> field_error list" where
  "mysql_instance_errors (name, inst) =
     ((err_if (trim_space (mi_host inst) = []) (''mysql.'' @ name @ ''.host'') ''is required'' @
       err_if (mi_port inst < 1 \<or> 65535 < mi_port inst) (''mysql.'' @ name @ ''.port'') ''must be between 1 and 65535'') @
      err_if (trim_space (mi_username inst) = []) (''mysql.'' @ name @ ''.username'') ''is required'') @
     err_if (trim_space (mi_database inst) = []) (''mysql.'' @ name @ ''.database'') ''is required''"

lemma appends_mysql_instance: "appends (mysql_validate_instance e) (mysql_instance_errors e)"
  unfolding mysql_validate_instance_def Let_def
  by (cases e) (simp only: prod.case mysql_instance_errors.simps, intro appends_comp appends_intros)

definition mysql_errors :: "mysql_config \<Rightarrow> field_error list" where
  "mysql_errors c =
     (((err_if (my_max_open_conns c \<le> 0) ''mysql.max_open_conns'' ''must be greater than 0'' @
        err_if (my_max_idle_conns c < 0) ''mysql.max_idle_conns'' ''must be greater than or equal to 0'') @
       err_if (my_max_open_conns c < my_max_idle_conns c) ''mysql.max_idle_conns''
         ''must be less than or equal to mysql.max_open_conns'') @
      err_if (my_max_idle_time c < 0) ''mysql.max_idle_time'' ''must be greater than or equal to 0'') @
     concat (map mysql_instance_errors (my_instances c))"

lemma appends_mysql: "appends (mysql_validate c) (mysql_errors c)"
  unfolding mysql_validate_def mysql_errors_def Let_def
  by (intro appends_comp appends_intros appends_fold appends_mysql_instance)

fun broker_errors :: "string list \<Rightarrow> nat \<Rightarrow> string \<Rightarrow> field_error list" where
  "broker_errors [] index path = []"
| "broker_errors (broker # brokers) index path =
     err_if (trim_space broker = []) (path @ ''['' @ itoa (int index) @ '']'') ''must not be empty'' @
     broker_errors brokers (Suc index) path"

lemma appends_broker_loop: "appends (validate_broker_loop bs index path) (broker_errors bs index path)"
proof (induction bs arbitrary: index)
  case (Cons b bs)
  show ?case unfolding validate_broker_loop.simps broker_errors.simps
    by (rule appends_comp [OF appends_err_if Cons.IH])
qed (simp add: appends_def option.map_ident)

definition brokers_errors :: "string list \<Rightarrow> string \<Rightarrow> field_error list" where
  "brokers_errors brokers path =
     (if brokers = [] then [field_err path ''must contain at least one broker'']
      else broker_errors brokers 0 path)"

lemma appends_brokers [appends_intros]: "appends (validate_brokers bs path) (brokers_errors bs path)"
proof (cases "bs = []")
  case True
  then show ?thesis unfolding validate_brokers_def brokers_errors_def by (simp add: appends_add)
next
  case False
  then show ?thesis unfolding validate_brokers_def brokers_errors_def by (simp add: appends_broker_loop)
qed

lemma broker_errors_Nil: "broker_errors bs n path = [] \<longleftrightarrow> (\<forall>b \<in> set bs. trim_space b \<noteq> [])"
  by (induction bs arbitrary: n) auto

lemma brokers_errors_Nil [simp]:
  "brokers_errors bs path = [] \<longleftrightarrow> bs \<noteq> [] \<and> (\<forall>b \<in> set bs. trim_space b \<noteq> [])"
  by (simp add: brokers_errors_def broker_errors_Nil)

fun producer_errors :: "string \<times> producer_config \<Rightarrow> field_error list" where
  "producer_errors (name, inst) =
     (brokers_errors (pc_brokers inst) (''kafka.producer.'' @ name @ ''.brokers'') @
      err_if (trim_space (pc_topic inst) = []) (''kafka.producer.'' @ name @ ''.topic'') ''is required'') @
     err_if (pc_acks inst \<notin> set valid_kafka_acks) (''kafka.producer.'' @ name @ ''.acks'') (one_of valid_kafka_acks)"

lemma appends_producer: "appends (validate_producer e) (producer_errors e)"
  unfolding validate_producer_def Let_def
  by (cases e) (simp only: prod.case producer_errors.simps, intro appends_comp appends_intros)

fun consumer_errors :: "string \<times> consumer_config \<Rightarrow> field_error list" where
  "consumer_errors (name, inst) =
     (brokers_errors (cc_brokers inst) (''kafka.consumer.'' @ name @ ''.brokers'') @
      err_if (trim_space (cc_topic inst) = []) (''kafka.consumer.'' @ name @ ''.topic'') ''is required'') @
     err_if (trim_space (cc_consumer_group inst) = []) (''kafka.consumer.'' @ name @ ''.consumer_group'') ''is required''"

lemma appends_consumer: "appends (validate_consumer e) (consumer_errors e)"
  unfolding validate_consumer_def Let_def
  by (cases e) (simp only: prod.case consumer_errors.simps, intro appends_comp appends_intros)

definition kafka_errors :: "kafka_config \<Rightarrow> field_error list" where
  "kafka_errors c =
     concat (map producer_errors (entries (kc_producer c))) @
     concat (map consumer_errors (entries (kc_consumer c)))"

lemma appends_kafka: "appends (kafka_validate c) (kafka_errors c)"
  unfolding kafka_validate_def kafka_errors_def
  by (intro appends_comp appends_fold appends_producer appends_consumer)

section \<open>Valid sections\<close>

definition blank :: "string \<Rightarrow> bool" where
  "blank s \<longleftrightarrow> (\<forall>ch \<in> set (runes s). is_space ch)"

definition port_ok :: "int \<Rightarrow> bool" where "port_ok n \<longleftrightarrow> n \<in> {1..65535}"

definition valid_redis :: "redis_config \<Rightarrow> bool" where
  "valid_redis c \<longleftrightarrow>
     (\<forall>i \<in> snd ` set c. \<not> blank (ri_addr i) \<and> port_ok (ri_port i) \<and> 0 \<le> ri_db i)"

definition valid_mysql :: "mysql_config \<Rightarrow> bool" where
  "valid_mysql c \<longleftrightarrow>
     0 < my_max_open_conns c \<and> 0 \<le> my_max_idle_conns c \<and> my_max_idle_conns c \<le> my_max_open_conns c \<and>
     0 \<le> my_max_idle_time c \<and>
     (\<forall>i \<in> snd ` set (my_instances c).
        \<not> blank (mi_host i) \<and> port_ok (mi_port i) \<and> \<not> blank (mi_username i) \<and> \<not> blank (mi_database i))"

definition valid_brokers :: "string list \<Rightarrow> bool" where
  "valid_brokers bs \<longleftrightarrow> bs \<noteq> [] \<and> (\<forall>b \<in> set bs. \<not> blank b)"

definition valid_kafka :: "kafka_config \<Rightarrow> bool" where
  "valid_kafka c \<longleftrightarrow>
     (\<forall>i \<in> snd ` set (entries (kc_producer c)).
        valid_brokers (pc_brokers i) \<and> \<not> blank (pc_topic i) \<and> pc_acks i \<in> {''0'', ''1'', ''all''}) \<and>
     (\<forall>i \<in> snd ` set (entries (kc_consumer c)).
        valid_brokers (cc_brokers i) \<and> \<not> blank (cc_topic i) \<and> \<not> blank (cc_consumer_group i))"

lemma trim_blank: "trim_space s = [] \<longleftrightarrow> blank s"
  by (simp add: blank_def trim_space_eq_Nil)

lemma valid_redis_iff: "concat (map redis_instance_errors c) = [] \<longleftrightarrow> valid_redis c"
  by (force simp: valid_redis_def port_ok_def trim_blank not_less)

lemma valid_mysql_iff: "mysql_errors c = [] \<longleftrightarrow> valid_mysql c"
  by (force simp: mysql_errors_def valid_mysql_def port_ok_def trim_blank not_less not_le)

lemma producer_errors_Nil: "producer_errors e = [] \<longleftrightarrow>
    valid_brokers (pc_brokers (snd e)) \<and> \<not> blank (pc_topic (snd e)) \<and> pc_acks (snd e) \<in> {''0'', ''1'', ''all''}"
  by (cases e) (simp add: valid_brokers_def trim_blank valid_kafka_acks_def)

lemma consumer_errors_Nil: "consumer_errors e = [] \<longleftrightarrow>
    valid_brokers (cc_brokers (snd e)) \<and> \<not> blank (cc_topic (snd e)) \<and> \<not> blank (cc_consumer_group (snd e))"
  by (cases e) (simp add: valid_brokers_def trim_blank)

lemma valid_kafka_iff: "kafka_errors c = [] \<longleftrightarrow> valid_kafka c"
  unfolding kafka_errors_def valid_kafka_def
  by (simp only: append_is_Nil_conv concat_eq_Nil_conv set_map ball_simps producer_errors_Nil consumer_errors_Nil)

section \<open>Normalization\<close>

lemma trim_string_slice_idem [simp]: "trim_string_slice (trim_string_slice bs) = trim_string_slice bs"
  by (simp add: trim_string_slice_def)

lemma default_acks_normal: "to_lower (trim_space default_kafka_acks) = default_kafka_acks"
  by code_simp

lemma normalize_producer_idem: "normalize_producer (normalize_producer i) = normalize_producer i"
  by (cases "to_lower (trim_space (pc_acks i)) = []")
    (simp_all add: normalize_producer_def Let_def default_acks_normal)

lemma normalize_consumer_idem: "normalize_consumer (normalize_consumer i) = normalize_consumer i"
  by (simp add: normalize_consumer_def)

lemma kafka_normalize_idem: "kafka_normalize (kafka_normalize c) = kafka_normalize c"
  by (auto simp: kafka_normalize_def entries_def normalize_producer_idem normalize_consumer_idem
      split: option.split)

section \<open>The sections meet the contract\<close>

text \<open>The Redis and the MySQL section are not normalized.\<close>

interpretation redis_section: config_section "\<lambda>c. c" redis_validate "\<lambda>c. concat (map redis_instance_errors c)" valid_redis
  by unfold_locales (rule appends_redis valid_redis_iff refl)+

interpretation mysql_section: config_section "\<lambda>c. c" mysql_validate mysql_errors valid_mysql
  by unfold_locales (rule appends_mysql valid_mysql_iff refl)+

interpretation kafka_section:
  config_section "\<lambda>c. the (kafka_normalize (Some c))" kafka_validate kafka_errors valid_kafka
proof unfold_locales
  fix c
  have "kafka_normalize (Some c) = Some (the (kafka_normalize (Some c)))" by (simp add: kafka_normalize_def)
  with kafka_normalize_idem [of "Some c"]
  show "the (kafka_normalize (Some (the (kafka_normalize (Some c))))) = the (kafka_normalize (Some c))" by metis
qed (rule appends_kafka valid_kafka_iff)+

end
