(* ===== verification/Go_Float.thy ===== *)
theory Go_Float
  imports Complex_Main Prelude
begin

text \<open>
  The \<open>float64\<close> operations of the sample-rate check: IEEE 754 binary64 with rounding to nearest,
  ties to even, as integer arithmetic. A finite value is \<open>Fin m e\<close>, standing for \<open>m * 2^e\<close>; the
  sign of zero is not kept, since only comparisons look at results. Products and differences are
  rounded separately, as on amd64 (a compiler for another target may fuse them, which only removes a
  rounding).
\<close>

section \<open>Values\<close>

datatype f64 = NaN | PInf | NInf | Fin int int

text \<open>Number of binary digits.\<close>

function bits :: "int \<Rightarrow> nat" where
  "bits n = (if n \<le> 0 then 0 else Suc (bits (n div 2)))"
  by pat_completeness auto
termination
  by (relation "measure nat") auto

declare bits.simps [simp del]

text \<open>\<open>m / 2^s\<close> to the nearest integer, ties to even.\<close>

definition round_shift :: "int \<Rightarrow> nat \<Rightarrow> int" where
  "round_shift m s =
     (let q = m div 2 ^ s; r = m mod 2 ^ s in
      if 2 * r < 2 ^ s then q
      else if 2 ^ s < 2 * r then q + 1
      else if even q then q else q + 1)"

text \<open>The double nearest to \<open>m * 2^e\<close>: 53 bits, exponent at least -1074, overflow to infinity.\<close>

definition round_f64 :: "int \<Rightarrow> int \<Rightarrow> f64" where
  "round_f64 m e =
     (let s = max 0 (max (int (bits \<bar>m\<bar>) - 53) (- 1074 - e));
          m' = round_shift m (nat s);
          e' = e + s
      in if m' \<noteq> 0 \<and> 1024 < int (bits \<bar>m'\<bar>) + e' then (if 0 < m' then PInf else NInf)
         else Fin m' e')"

section \<open>Operations\<close>

definition f64_of_int :: "int \<Rightarrow> f64" where
  "f64_of_int n = round_f64 n 0"

fun f64_neg :: "f64 \<Rightarrow> f64" where
  "f64_neg NaN = NaN"
| "f64_neg PInf = NInf"
| "f64_neg NInf = PInf"
| "f64_neg (Fin m e) = Fin (- m) e"

fun f64_abs :: "f64 \<Rightarrow> f64" where
  "f64_abs NaN = NaN"
| "f64_abs PInf = PInf"
| "f64_abs NInf = PInf"
| "f64_abs (Fin m e) = Fin \<bar>m\<bar> e"

definition inf_of_sign :: "int \<Rightarrow> f64" where
  "inf_of_sign s = (if s = 0 then NaN else if 0 < s then PInf else NInf)"

fun f64_sgn :: "f64 \<Rightarrow> int" where
  "f64_sgn NaN = 0"
| "f64_sgn PInf = 1"
| "f64_sgn NInf = - 1"
| "f64_sgn (Fin m e) = sgn m"

fun f64_mul :: "f64 \<Rightarrow> f64 \<Rightarrow> f64" where
  "f64_mul (Fin a b) (Fin c d) = round_f64 (a * c) (b + d)"
| "f64_mul NaN y = NaN"
| "f64_mul x NaN = NaN"
| "f64_mul x y = inf_of_sign (f64_sgn x * f64_sgn y)"

fun f64_add :: "f64 \<Rightarrow> f64 \<Rightarrow> f64" where
  "f64_add (Fin a b) (Fin c d) =
     (let e = min b d in round_f64 (a * 2 ^ nat (b - e) + c * 2 ^ nat (d - e)) e)"
| "f64_add NaN y = NaN"
| "f64_add x NaN = NaN"
| "f64_add PInf NInf = NaN"
| "f64_add NInf PInf = NaN"
| "f64_add PInf y = PInf"
| "f64_add NInf y = NInf"
| "f64_add x PInf = PInf"
| "f64_add x NInf = NInf"

definition f64_sub :: "f64 \<Rightarrow> f64 \<Rightarrow> f64" where
  "f64_sub x y = f64_add x (f64_neg y)"

text \<open>Comparison; every comparison with NaN is false.\<close>

fun f64_lt :: "f64 \<Rightarrow> f64 \<Rightarrow> bool" where
  "f64_lt (Fin a b) (Fin c d) =
     (let e = min b d in a * 2 ^ nat (b - e) < c * 2 ^ nat (d - e))"
| "f64_lt NaN y = False"
| "f64_lt x NaN = False"
| "f64_lt x NInf = False"
| "f64_lt PInf y = False"
| "f64_lt NInf y = True"
| "f64_lt x PInf = True"

text \<open>\<open>math.Round\<close>: to the nearest integer, halves away from zero.\<close>

fun f64_round :: "f64 \<Rightarrow> f64" where
  "f64_round (Fin m e) =
     (if 0 \<le> e then Fin m e
      else let k = nat (- e) in Fin (sgn m * ((2 * \<bar>m\<bar> + 2 ^ k) div 2 ^ (k + 1))) 0)"
| "f64_round x = x"

text \<open>The constants of the program: 0, 0.001, 1, 1000 and 1e-9 as doubles.\<close>

definition f64_zero :: f64 where "f64_zero = Fin 0 0"
definition f64_one :: f64 where "f64_one = Fin 1 0"
definition f64_thousand :: f64 where "f64_thousand = Fin 1000 0"
definition f64_milli :: f64 where "f64_milli = Fin 1152921504606847 (- 60)"
definition f64_nano :: f64 where "f64_nano = Fin 4835703278458517 (- 82)"

section \<open>Rounding error\<close>

definition f64_val :: "f64 \<Rightarrow> real" where
  "f64_val x = (case x of Fin m e \<Rightarrow> of_int m * 2 powi e | _ \<Rightarrow> 0)"

lemma f64_val_Fin [simp]: "f64_val (Fin m e) = of_int m * 2 powi e"
  by (simp add: f64_val_def)

lemma bits_pos: "0 < n \<Longrightarrow> bits n = Suc (bits (n div 2))"
  by (simp add: bits.simps [of n])

lemma bits_nonpos: "n \<le> 0 \<Longrightarrow> bits n = 0"
  by (simp add: bits.simps [of n])

lemma bits_bounds: "0 < n \<Longrightarrow> 2 ^ (bits n - 1) \<le> n \<and> n < 2 ^ bits n"
proof (induction n rule: bits.induct)
  case (1 n)
  show ?case
  proof (cases "n = 1")
    case True
    then show ?thesis by (simp add: bits_pos bits_nonpos)
  next
    case False
    with 1(2) have h: "0 < n div 2" by linarith
    with 1 have IH: "2 ^ (bits (n div 2) - 1) \<le> n div 2" "n div 2 < 2 ^ bits (n div 2)" by auto
    obtain k where k: "bits (n div 2) = Suc k" using h by (simp add: bits_pos)
    from IH k have "2 * 2 ^ k \<le> n" "n < 2 * 2 ^ Suc k" by auto
    then show ?thesis using 1(2) k by (simp add: bits_pos [of n])
  qed
qed

lemma round_shift_0 [simp]: "round_shift m 0 = m"
  by (simp add: round_shift_def)

lemma round_shift_err: "2 * \<bar>round_shift m s * 2 ^ s - m\<bar> \<le> 2 ^ s"
proof -
  define P :: int where "P = 2 ^ s"
  define q r where "q = m div P" and "r = m mod P"
  have P: "0 < P" by (simp add: P_def)
  have m: "m = q * P + r" by (simp add: q_def r_def)
  have r: "0 \<le> r" "r < P" using P by (simp_all add: r_def)
  have rs: "round_shift m s = q \<and> 2 * r \<le> P \<or> round_shift m s = q + 1 \<and> P \<le> 2 * r"
    by (auto simp: round_shift_def Let_def q_def r_def P_def)
  have "\<bar>q * P - m\<bar> = r" "\<bar>(q + 1) * P - m\<bar> = P - r" using m r by (simp_all add: distrib_right)
  then have "2 * \<bar>round_shift m s * P - m\<bar> \<le> P" using rs by auto
  then show ?thesis by (simp only: P_def)
qed

lemma powi2_pos [simp]: "0 < (2::real) powi e"
  by simp

lemma powi2_split: "(2::real) powi (a + b) = 2 powi a * 2 powi b"
  by (simp add: power_int_add)

definition round_shift_amount :: "int \<Rightarrow> int \<Rightarrow> int" where
  "round_shift_amount m e = max 0 (max (int (bits \<bar>m\<bar>) - 53) (- 1074 - e))"

lemma abs_ge_bits:
  assumes "m \<noteq> 0"
  shows "(2::real) powi (int (bits \<bar>m\<bar>) - 1 + e) \<le> \<bar>of_int m * 2 powi e\<bar>"
proof -
  have b: "2 ^ (bits \<bar>m\<bar> - 1) \<le> \<bar>m\<bar>" "0 < bits \<bar>m\<bar>" using assms bits_bounds [of "\<bar>m\<bar>"] by (auto simp: bits_pos)
  have "(2::real) ^ (bits \<bar>m\<bar> - 1) \<le> of_int \<bar>m\<bar>" using b(1) by (metis of_int_le_iff of_int_numeral of_int_power)
  moreover have "(2::real) powi (int (bits \<bar>m\<bar>) - 1) = 2 ^ (bits \<bar>m\<bar> - 1)"
    using b(2) by (metis One_nat_def Suc_leI int_ops(2) of_nat_diff power_int_of_nat)
  ultimately show ?thesis by (simp add: powi2_split abs_mult mult_right_mono)
qed

lemma round_f64_err:
  fixes m e :: int
  defines "s \<equiv> round_shift_amount m e"
  shows "\<bar>of_int (round_shift m (nat s)) * (2::real) powi (e + s) - of_int m * 2 powi e\<bar>
    \<le> \<bar>of_int m * 2 powi e\<bar> * 2 powi (- 53) + 2 powi (- 1075 :: int)"
proof (cases "s = 0")
  case True
  then show ?thesis by simp
next
  case False
  then have s: "0 < s" by (simp add: s_def round_shift_amount_def)
  have ps: "(2::real) powi s = 2 ^ nat s" using s by (simp add: power_int_def)
  then have "of_int (round_shift m (nat s)) * 2 powi (e + s) - of_int m * 2 powi e =
      of_int (round_shift m (nat s) * 2 ^ nat s - m) * (2::real) powi e"
    by (simp add: powi2_split algebra_simps)
  then have "\<bar>of_int (round_shift m (nat s)) * 2 powi (e + s) - of_int m * 2 powi e\<bar> =
      \<bar>of_int (round_shift m (nat s) * 2 ^ nat s - m)\<bar> * (2::real) powi e"
    by (simp only: abs_mult) simp
  also have "\<dots> \<le> 2 ^ nat s / 2 * 2 powi e"
  proof -
    have "real_of_int (2 * \<bar>round_shift m (nat s) * 2 ^ nat s - m\<bar>) \<le> real_of_int (2 ^ nat s)"
      using round_shift_err [of m "nat s"] by (simp only: of_int_le_iff)
    then show ?thesis by (simp add: mult_right_mono)
  qed
  also have "\<dots> = 2 powi (e + s - 1)"
    using powi2_split [of "e + s" "- 1"] by (simp add: powi2_split ps power_int_minus)
  also have "\<dots> \<le> \<bar>of_int m * 2 powi e\<bar> * 2 powi (- 53) + 2 powi (- 1075 :: int)"
  proof (cases "s = - 1074 - e")
    case True
    then show ?thesis by simp
  next
    case nsub: False
    then have sb: "s = int (bits \<bar>m\<bar>) - 53" using s by (simp add: s_def round_shift_amount_def max_def split: if_splits)
    then have "m \<noteq> 0" using s by (auto simp: bits_nonpos)
    have "(2::real) powi (e + s - 1) = 2 powi (int (bits \<bar>m\<bar>) - 1 + e) * 2 powi (- 53)"
      unfolding powi2_split [symmetric] sb by (rule arg_cong [where f = "power_int 2"]) simp
    also have "\<dots> \<le> \<bar>of_int m * 2 powi e\<bar> * 2 powi (- 53)"
      using abs_ge_bits [OF \<open>m \<noteq> 0\<close>] by (rule mult_right_mono) simp
    finally show ?thesis by (smt (verit) powi2_pos)
  qed
  finally show ?thesis .
qed

lemma round_f64_Fin:
  fixes m e :: int
  assumes "\<bar>of_int m * (2::real) powi e\<bar> < 2 ^ 1000"
  obtains m' e' where "round_f64 m e = Fin m' e'"
    "\<bar>of_int m' * (2::real) powi e' - of_int m * 2 powi e\<bar> \<le> \<bar>of_int m * 2 powi e\<bar> * 2 powi (- 53) + 2 powi (- 1075 :: int)"
proof -
  let ?s = "round_shift_amount m e"
  let ?m = "round_shift m (nat ?s)" and ?x = "of_int m * (2::real) powi e"
  note err = round_f64_err [of m e]
  have "\<not> (?m \<noteq> 0 \<and> 1024 < int (bits \<bar>?m\<bar>) + (e + ?s))"
  proof
    assume a: "?m \<noteq> 0 \<and> 1024 < int (bits \<bar>?m\<bar>) + (e + ?s)"
    then have "(2::real) powi 1024 \<le> 2 powi (int (bits \<bar>?m\<bar>) - 1 + (e + ?s))"
      by (intro power_int_increasing) auto
    also have "\<dots> \<le> \<bar>of_int ?m * 2 powi (e + ?s)\<bar>" using a by (intro abs_ge_bits) auto
    also have "\<dots> \<le> \<bar>?x\<bar> + (\<bar>?x\<bar> * 2 powi (- 53) + 2 powi (- 1075 :: int))" using err by linarith
    also have "\<dots> \<le> 2 ^ 1000 + (2 ^ 1000 * 1 + 1)"
      using assms by (intro add_mono mult_mono) (auto simp: power_int_def field_simps)
    finally show False by (simp add: power_int_def)
  qed
  moreover have "round_f64 m e = (if ?m \<noteq> 0 \<and> 1024 < int (bits \<bar>?m\<bar>) + (e + ?s)
      then (if 0 < ?m then PInf else NInf) else Fin ?m (e + ?s))"
    by (simp only: round_f64_def round_shift_amount_def Let_def)
  ultimately have "round_f64 m e = Fin ?m (e + ?s)" by (simp only: if_False)
  with err that show thesis by blast
qed

section \<open>The operations on finite values\<close>

lemma f64_lt_Fin: "f64_lt (Fin a b) (Fin c d) \<longleftrightarrow> f64_val (Fin a b) < f64_val (Fin c d)"
proof -
  define e where "e = min b d"
  have e: "e \<le> b" "e \<le> d" by (simp_all add: e_def)
  have scale: "real_of_int (n * 2 ^ nat (x - e)) * 2 powi e = of_int n * 2 powi x" if "e \<le> x" for n x
  proof -
    have "(2::real) powi (x - e) = 2 ^ nat (x - e)" using that by (simp add: power_int_def)
    with powi2_split [of "x - e" e] show ?thesis by simp
  qed
  have "a * 2 ^ nat (b - e) < c * 2 ^ nat (d - e) \<longleftrightarrow>
      real_of_int (a * 2 ^ nat (b - e)) * 2 powi e < real_of_int (c * 2 ^ nat (d - e)) * 2 powi e"
    by (simp only: mult_less_cancel_right_pos powi2_pos of_int_less_iff)
  also have "\<dots> \<longleftrightarrow> f64_val (Fin a b) < f64_val (Fin c d)"
    by (simp only: scale [OF e(1)] scale [OF e(2)] f64_val_Fin)
  finally show ?thesis by (simp add: e_def Let_def)
qed

definition f64_finite :: "f64 \<Rightarrow> bool" where
  "f64_finite x = (case x of Fin m e \<Rightarrow> True | _ \<Rightarrow> False)"

lemma f64_finite_iff: "f64_finite x \<longleftrightarrow> (\<exists>m e. x = Fin m e)"
  by (cases x) (simp_all add: f64_finite_def)

lemma f64_lt_iff: "f64_finite x \<Longrightarrow> f64_finite y \<Longrightarrow> f64_lt x y \<longleftrightarrow> f64_val x < f64_val y"
  unfolding f64_finite_iff using f64_lt_Fin by blast

text \<open>A rounded result: finite, and off by at most half a unit in the last place.\<close>

definition rounds_to :: "f64 \<Rightarrow> real \<Rightarrow> bool" where
  "rounds_to x r \<longleftrightarrow> f64_finite x \<and> \<bar>f64_val x - r\<bar> \<le> \<bar>r\<bar> * 2 powi (- 53) + 2 powi (- 1075 :: int)"

lemma rounds_to_round:
  "\<bar>of_int m * (2::real) powi e\<bar> < 2 ^ 1000 \<Longrightarrow> rounds_to (round_f64 m e) (of_int m * 2 powi e)"
  by (erule round_f64_Fin) (simp add: rounds_to_def f64_finite_def)

lemma rounds_to_mul:
  assumes "f64_finite x" "f64_finite y" "\<bar>f64_val x * f64_val y\<bar> < 2 ^ 1000"
  shows "rounds_to (f64_mul x y) (f64_val x * f64_val y)"
proof -
  from assms obtain a b c d where xy: "x = Fin a b" "y = Fin c d" by (auto simp: f64_finite_iff)
  have eq: "f64_val x * f64_val y = of_int (a * c) * 2 powi (b + d)" by (simp add: xy powi2_split)
  show ?thesis unfolding eq using rounds_to_round [OF assms(3) [unfolded eq]] by (simp only: xy f64_mul.simps)
qed

lemma f64_finite_neg [simp]: "f64_finite (f64_neg x) = f64_finite x"
  by (cases x) (simp_all add: f64_finite_def)

lemma f64_val_neg [simp]: "f64_val (f64_neg x) = - f64_val x"
  by (cases x) (simp_all add: f64_val_def)

lemma f64_finite_abs [simp]: "f64_finite (f64_abs x) = f64_finite x"
  by (cases x) (simp_all add: f64_finite_def)

lemma f64_val_abs [simp]: "f64_val (f64_abs x) = \<bar>f64_val x\<bar>"
  by (cases x) (simp_all add: f64_val_def abs_mult)

lemma rounds_to_add:
  assumes "f64_finite x" "f64_finite y" "\<bar>f64_val x + f64_val y\<bar> < 2 ^ 1000"
  shows "rounds_to (f64_add x y) (f64_val x + f64_val y)"
proof -
  from assms obtain a b c d where xy: "x = Fin a b" "y = Fin c d" by (auto simp: f64_finite_iff)
  define e where "e = min b d"
  let ?n = "a * 2 ^ nat (b - e) + c * 2 ^ nat (d - e)"
  have scale: "(2::real) ^ nat (z - e) * 2 powi e = 2 powi z" if "e \<le> z" for z
    using powi2_split [of "z - e" e] that by (simp add: power_int_def)
  have e: "e \<le> b" "e \<le> d" by (simp_all add: e_def)
  have "of_int ?n * (2::real) powi e = of_int a * (2 ^ nat (b - e) * 2 powi e) + of_int c * (2 ^ nat (d - e) * 2 powi e)"
    by (simp add: algebra_simps)
  also have "\<dots> = f64_val x + f64_val y" by (simp only: xy scale [OF e(1)] scale [OF e(2)] f64_val_Fin)
  finally have "rounds_to (round_f64 ?n e) (f64_val x + f64_val y)"
    using rounds_to_round [of ?n e] assms(3) by (simp only:)
  moreover have "f64_add x y = round_f64 ?n e" by (simp only: xy f64_add.simps Let_def e_def)
  ultimately show ?thesis by simp
qed

lemma rounds_to_sub:
  "f64_finite x \<Longrightarrow> f64_finite y \<Longrightarrow> \<bar>f64_val x - f64_val y\<bar> < 2 ^ 1000 \<Longrightarrow>
   rounds_to (f64_sub x y) (f64_val x - f64_val y)"
  using rounds_to_add [of x "f64_neg y"] by (simp add: f64_sub_def)

lemma div_near:
  fixes m p s :: real
  assumes "2 * \<bar>m - s * p\<bar> \<le> p" "0 < p"
  shows "2 * \<bar>m / p - s\<bar> \<le> 1"
proof -
  have "m / p - s = (m - s * p) / p" using assms(2) by (simp add: diff_divide_distrib)
  then have "\<bar>m / p - s\<bar> = \<bar>m - s * p\<bar> / p" using assms(2) by (simp add: abs_divide)
  with assms show ?thesis by (simp add: field_simps)
qed

lemma f64_round_int:
  assumes "f64_finite x"
  obtains k :: int where "f64_finite (f64_round x)" "f64_val (f64_round x) = of_int k" "2 * \<bar>f64_val x - of_int k\<bar> \<le> 1"
proof -
  from assms obtain m e where x: "x = Fin m e" by (auto simp: f64_finite_iff)
  show thesis
  proof (cases "0 \<le> e")
    case True
    then have "f64_val x = of_int (m * 2 ^ nat e)" "f64_round x = x"
      by (simp_all add: x power_int_def)
    then show thesis using that [of "m * 2 ^ nat e"] assms by simp
  next
    case False
    define P :: int where "P = 2 ^ nat (- e)"
    define q where "q = (2 * \<bar>m\<bar> + P) div (2 * P)"
    have P: "0 < P" by (simp add: P_def)
    have v: "f64_val x = of_int m / of_int P" using False by (simp add: x power_int_def P_def power_one_over)
    have "(2 * \<bar>m\<bar> + P) = q * (2 * P) + (2 * \<bar>m\<bar> + P) mod (2 * P)"
      unfolding q_def by (rule div_mult_mod_eq [symmetric])
    moreover have "0 \<le> (2 * \<bar>m\<bar> + P) mod (2 * P)" "(2 * \<bar>m\<bar> + P) mod (2 * P) < 2 * P" using P by simp_all
    moreover define n where "n = \<bar>m\<bar> - q * P"
    ultimately have "- P \<le> 2 * n" "2 * n \<le> P" by (simp_all add: algebra_simps)
    then have "2 * \<bar>n\<bar> \<le> P" by (simp add: abs_if)
    then have "2 * \<bar>sgn m * (\<bar>m\<bar> - q * P)\<bar> \<le> P" using P by (cases "m = 0") (simp_all add: abs_mult n_def)
    moreover have "sgn m * (\<bar>m\<bar> - q * P) = m - sgn m * q * P"
      by (simp add: algebra_simps) (metis abs_sgn mult.commute sgn_mult_abs)
    ultimately have i: "2 * \<bar>m - sgn m * q * P\<bar> \<le> P" by simp
    have "2 * \<bar>of_int m - of_int (sgn m * q) * of_int P\<bar> \<le> real_of_int P"
    proof -
      have "real_of_int (2 * \<bar>m - sgn m * q * P\<bar>) \<le> of_int P" using i by (simp only: of_int_le_iff)
      then show ?thesis by simp
    qed
    then have "2 * \<bar>f64_val x - of_int (sgn m * q)\<bar> \<le> 1"
      unfolding v by (rule div_near) (simp add: P)
    moreover have "f64_val (f64_round x) = of_int (sgn m * q)" "f64_finite (f64_round x)"
      using False by (simp_all add: x q_def P_def Let_def f64_finite_def)
    ultimately show thesis using that by blast
  qed
qed

end
