(* ===== verification/App_Config.thy ===== *)
theory App_Config
  imports Instance_Config Go_Float
begin

text \<open>
  The package \<open>config\<close>: the \<open>app\<close> section (\<open>config/app_section.go\<close>), the whole configuration with
  its loading, the custom sections and the global (\<open>config/config.go\<close>), and the error it returns
  (\<open>config/errors.go\<close>). The TOML parser, the decoder and the file system are parameters:
  \<open>unmarshal\<close> maps a body to an error text or the raw table (\<open>None\<close>: the nil map), \<open>decode\<close> fills a
  given value from a raw one and returns the error text or the unused keys.
\<close>

section \<open>The app section\<close>

record app_log_config =
  al_level :: string

record app_trace_config =
  at_enabled :: bool
  at_endpoint :: string
  at_protocol :: string
  at_resource_endpoint :: string
  at_sample_rate :: f64

record app_pprof_config =
  ap_mode :: string
  ap_enabled :: bool

record app_section =
  as_app_name :: string
  as_log :: app_log_config
  as_trace :: app_trace_config
  as_pprof :: app_pprof_config

definition valid_log_levels :: "string list" where
  "valid_log_levels = [''debug'', ''info'', ''warn'', ''error'']"

definition valid_pprof_modes :: "string list" where
  "valid_pprof_modes = [''server'', ''dynamic'']"

definition default_app_section :: app_section where
  "default_app_section =
     \<lparr> as_app_name = [],
       as_log = \<lparr> al_level = ''info'' \<rparr>,
       as_trace = \<lparr> at_enabled = False, at_endpoint = [], at_protocol = ''http'',
                    at_resource_endpoint = [], at_sample_rate = f64_milli \<rparr>,
       as_pprof = \<lparr> ap_mode = ''dynamic'', ap_enabled = True \<rparr> \<rparr>"

definition normalize_app :: "app_section \<Rightarrow> app_section" where
  "normalize_app c =
     \<lparr> as_app_name = trim_space (as_app_name c),
       as_log = \<lparr> al_level = to_lower (trim_space (al_level (as_log c))) \<rparr>,
       as_trace = (as_trace c)
         \<lparr> at_endpoint := trim_space (at_endpoint (as_trace c)),
           at_protocol := to_lower (trim_space (at_protocol (as_trace c))),
           at_resource_endpoint := trim_space (at_resource_endpoint (as_trace c)) \<rparr>,
       as_pprof = (as_pprof c) \<lparr> ap_mode := to_lower (trim_space (ap_mode (as_pprof c))) \<rparr> \<rparr>"

definition app_section_normalize :: "app_section option \<Rightarrow> app_section option" where
  "app_section_normalize c = (case c of None \<Rightarrow> None | Some c \<Rightarrow> Some (normalize_app c))"

definition has_three_decimal_precision :: "f64 \<Rightarrow> bool" where
  "has_three_decimal_precision v =
     f64_lt (f64_abs (f64_sub (f64_mul v f64_thousand) (f64_round (f64_mul v f64_thousand)))) f64_nano"

definition app_section_validate :: "app_section \<Rightarrow> problems \<Rightarrow> problems" where
  "app_section_validate c p =
     (let p = add_if (trim_space (as_app_name c) = []) ''app.app_name'' ''is required'' p;
          level = to_lower (trim_space (al_level (as_log c)));
          p = add_if (level \<notin> set valid_log_levels) ''app.log.level'' (one_of valid_log_levels) p;
          p = add_if (to_lower (trim_space (at_protocol (as_trace c))) \<noteq> ''http'')
                ''app.trace.otel_exporter_otlp_protocol''
                (''must be '' @ quote_word ''http'' @ '' in v1'') p;
          rate = at_sample_rate (as_trace c);
          p = (if f64_lt rate f64_milli \<or> f64_lt f64_one rate
               then problems_add ''app.trace.sample_rate'' ''must be between 0.001 and 1.0'' p
               else if \<not> has_three_decimal_precision rate
               then problems_add ''app.trace.sample_rate'' ''must use at most 3 decimal places'' p
               else p);
          mode = to_lower (trim_space (ap_mode (as_pprof c)))
      in add_if (mode \<notin> set valid_pprof_modes) ''app.pprof.mode'' (one_of valid_pprof_modes) p)"

section \<open>Load errors\<close>

datatype error_kind = Kind_Read | Kind_Parse | Kind_Validation | Kind_Other string

record load_error =
  le_kind :: error_kind
  le_source :: string
  le_err :: "string option"
  le_details :: "field_error list"

text \<open>\<open>%v\<close> of an error value.\<close>

definition show_err :: "string option \<Rightarrow> string" where
  "show_err e = (case e of None \<Rightarrow> ''<nil>'' | Some s \<Rightarrow> s)"

definition detail_text :: "field_error \<Rightarrow> string" where
  "detail_text d = (if fe_path d = [] then fe_message d else fe_path d @ '': '' @ fe_message d)"

definition load_error_text :: "(int \<Rightarrow> bool) \<Rightarrow> load_error option \<Rightarrow> string" where
  "load_error_text is_print e0 =
     (case e0 of None \<Rightarrow> ''<nil>'' | Some e \<Rightarrow>
        let parts = map detail_text (le_details e) in
        case le_kind e of
          Kind_Validation \<Rightarrow>
            if parts = [] then ''config validation failed''
            else ''config validation failed: '' @ join ''; '' parts
        | Kind_Read \<Rightarrow>
            if le_source e = [] then ''read config failed: '' @ show_err (le_err e)
            else ''read config '' @ go_quote is_print (le_source e) @ '' failed: '' @ show_err (le_err e)
        | Kind_Parse \<Rightarrow> ''parse config failed: '' @ show_err (le_err e)
        | Kind_Other _ \<Rightarrow> (case le_err e of Some err \<Rightarrow> err | None \<Rightarrow> ''config load failed''))"

definition load_error_unwrap :: "load_error option \<Rightarrow> string option" where
  "load_error_unwrap e = (case e of None \<Rightarrow> None | Some e \<Rightarrow> le_err e)"

section \<open>Loading\<close>

type_synonym 'v table = "(string \<times> 'v any) list"

record 'v app_config =
  ac_app :: app_section
  ac_redis :: redis_config
  ac_mysql :: mysql_config
  ac_kafka :: kafka_config
  ac_custom :: "'v table"
  ac_raw :: "'v table"

definition initial_app_config :: "'v table \<Rightarrow> 'v app_config" where
  "initial_app_config raw =
     \<lparr> ac_app = default_app_section, ac_redis = default_redis_config, ac_mysql = default_mysql_config,
       ac_kafka = default_kafka_config, ac_custom = [], ac_raw = raw \<rparr>"

definition load_from_bytes ::
  "(string \<Rightarrow> (string, 'v table option) result) \<Rightarrow>
   ('v table \<Rightarrow> 'v app_config \<Rightarrow> 'v app_config \<times> (string, string list) result) \<Rightarrow>
   string \<Rightarrow> (load_error, 'v app_config) result" where
  "load_from_bytes unmarshal decode body =
     (case unmarshal body of
        Inl err \<Rightarrow> Inl \<lparr> le_kind = Kind_Parse, le_source = [], le_err = Some err, le_details = [] \<rparr>
      | Inr m \<Rightarrow>
          let raw = entries m;
              (cfg, res) = decode raw (initial_app_config raw);
              (err, metadata) = (case res of Inl e \<Rightarrow> (Some e, None) | Inr unused \<Rightarrow> (None, Some unused));
              p = add_decode_error [] err (Some []);
              p = add_unused metadata [] p;
              cfg = cfg\<lparr> ac_app := the (app_section_normalize (Some (ac_app cfg))) \<rparr>;
              cfg = cfg\<lparr> ac_kafka := the (kafka_normalize (Some (ac_kafka cfg))) \<rparr>;
              p = app_section_validate (ac_app cfg) p;
              p = redis_validate (ac_redis cfg) p;
              p = mysql_validate (ac_mysql cfg) p;
              p = kafka_validate (ac_kafka cfg) p
          in if has_errors p
             then Inl \<lparr> le_kind = Kind_Validation, le_source = [], le_err = None, le_details = problem_errors p \<rparr>
             else Inr cfg)"

definition load_config ::
  "(string \<Rightarrow> (string, string) result) \<Rightarrow>
   (string \<Rightarrow> (string, 'v table option) result) \<Rightarrow>
   ('v table \<Rightarrow> 'v app_config \<Rightarrow> 'v app_config \<times> (string, string list) result) \<Rightarrow>
   string \<Rightarrow> (load_error, 'v app_config) result" where
  "load_config read_file unmarshal decode path =
     (case read_file path of
        Inl err \<Rightarrow> Inl \<lparr> le_kind = Kind_Read, le_source = path, le_err = Some err, le_details = [] \<rparr>
      | Inr body \<Rightarrow> load_from_bytes unmarshal decode body)"

section \<open>Custom sections and the global configuration\<close>

text \<open>The \<open>out any\<close> argument: nil, something that is no pointer, a nil pointer, a pointer to a value.\<close>

datatype 'o target = Nil_Interface | Not_Pointer | Nil_Pointer | Pointer 'o

datatype custom_error =
    Config_Nil
  | Bad_Target
  | Custom_Not_Found string lookup_error
  | Custom_Decode string string
  | Custom_Unknown string "string list"

definition require_decode_target :: "'o target \<Rightarrow> custom_error option" where
  "require_decode_target out =
     (case out of Nil_Interface \<Rightarrow> Some Bad_Target | Not_Pointer \<Rightarrow> Some Bad_Target
      | Nil_Pointer \<Rightarrow> Some Bad_Target | Pointer _ \<Rightarrow> None)"

definition get_custom_config ::
  "('v any \<Rightarrow> 'o target \<Rightarrow> 'o target \<times> (string, string list) result) \<Rightarrow>
   'v app_config option \<Rightarrow> string \<Rightarrow> 'o target \<Rightarrow> 'o target \<times> custom_error option" where
  "get_custom_config decode c0 section out =
     (case c0 of None \<Rightarrow> (out, Some Config_Nil) | Some c \<Rightarrow>
        case require_decode_target out of Some e \<Rightarrow> (out, Some e) | None \<Rightarrow>
          case lookup_path (ac_custom c) section of
            Inl e \<Rightarrow> (out, Some (Custom_Not_Found section e))
          | Inr v \<Rightarrow>
              let (out, res) = decode v out in
              case res of
                Inl e \<Rightarrow> (out, Some (Custom_Decode section e))
              | Inr unused \<Rightarrow> if unused \<noteq> [] then (out, Some (Custom_Unknown section unused)) else (out, None))"

text \<open>\<open>globalAppConfig\<close>, guarded by its lock: a cell holding a pointer.\<close>

definition set_global :: "'v app_config option \<Rightarrow> 'v app_config option \<Rightarrow> 'v app_config option" where
  "set_global cfg cell = cfg"

definition global :: "'v app_config option \<Rightarrow> 'v app_config option" where
  "global cell = cell"

section \<open>The sample rate\<close>

definition accepted_rate :: "f64 \<Rightarrow> bool" where
  "accepted_rate rate \<longleftrightarrow>
     \<not> (f64_lt rate f64_milli \<or> f64_lt f64_one rate) \<and> has_three_decimal_precision rate"

lemma rate_constants:
  "f64_finite f64_milli" "f64_finite f64_one" "f64_finite f64_thousand" "f64_finite f64_nano"
  "f64_val f64_one = 1" "f64_val f64_thousand = 1000"
  "999 / 10 ^ 6 < f64_val f64_milli"
  "1 / 10 ^ 9 - 1 / 10 ^ 20 < f64_val f64_nano" "f64_val f64_nano < 1 / 10 ^ 9 + 1 / 10 ^ 20"
  by (simp_all add: f64_finite_def f64_milli_def f64_one_def f64_thousand_def f64_nano_def power_int_def
      abs_less_iff field_simps)

lemma rounds_to_close:
  assumes "rounds_to x r"
  shows "f64_finite x" "\<bar>f64_val x - r\<bar> \<le> \<bar>r\<bar> / 10 ^ 15 + 1 / 10 ^ 30"
proof -
  have u: "(2::real) powi (- 53) \<le> 1 / 10 ^ 15" by (simp add: power_int_def field_simps)
  have "(2::real) powi (- 1075) \<le> 2 powi (- 100)" by (rule power_int_increasing) simp_all
  also have "\<dots> \<le> 1 / 10 ^ 30" by (simp add: power_int_def field_simps)
  finally have t: "(2::real) powi (- 1075) \<le> 1 / 10 ^ 30" .
  show "f64_finite x" using assms unfolding rounds_to_def by blast
  have "\<bar>f64_val x - r\<bar> \<le> \<bar>r\<bar> * 2 powi (- 53) + 2 powi (- 1075 :: int)"
    using assms unfolding rounds_to_def by blast
  also have "\<dots> \<le> \<bar>r\<bar> * (1 / 10 ^ 15) + 1 / 10 ^ 30" by (intro add_mono mult_left_mono u t) simp
  finally show "\<bar>f64_val x - r\<bar> \<le> \<bar>r\<bar> / 10 ^ 15 + 1 / 10 ^ 30" by simp
qed

text \<open>The precision check, with the rounding of its two floating-point operations accounted for.\<close>

lemma three_decimal_bounds:
  assumes x: "f64_finite x" and r: "0 \<le> f64_val x" "f64_val x \<le> 1"
  obtains k :: int and p d :: real
  where "\<bar>p - 1000 * f64_val x\<bar> \<le> 1 / 10 ^ 11" "2 * \<bar>p - of_int k\<bar> \<le> 1"
    "\<bar>d - (p - of_int k)\<bar> \<le> \<bar>p - of_int k\<bar> / 10 ^ 15 + 1 / 10 ^ 30"
    "has_three_decimal_precision x \<longleftrightarrow> \<bar>d\<bar> < f64_val f64_nano"
proof -
  let ?p = "f64_mul x f64_thousand"
  have "\<bar>f64_val x * f64_val f64_thousand\<bar> < 2 ^ 1000" using r by (simp add: rate_constants)
  from rounds_to_close [OF rounds_to_mul [OF x rate_constants(3) this]]
  have p: "f64_finite ?p" "\<bar>f64_val ?p - f64_val x * 1000\<bar> \<le> \<bar>f64_val x * 1000\<bar> / 10 ^ 15 + 1 / 10 ^ 30"
    by (simp_all only: rate_constants)
  obtain k where k: "f64_finite (f64_round ?p)" "f64_val (f64_round ?p) = of_int k" "2 * \<bar>f64_val ?p - of_int k\<bar> \<le> 1"
    by (rule f64_round_int [OF p(1)])
  let ?d = "f64_sub ?p (f64_round ?p)"
  have "\<bar>f64_val ?p - f64_val (f64_round ?p)\<bar> < 2 ^ 1000" using k by simp
  from rounds_to_close [OF rounds_to_sub [OF p(1) k(1) this]]
  have d: "f64_finite ?d" "\<bar>f64_val ?d - (f64_val ?p - of_int k)\<bar> \<le> \<bar>f64_val ?p - of_int k\<bar> / 10 ^ 15 + 1 / 10 ^ 30"
    by (simp_all only: k(2))
  have "has_three_decimal_precision x \<longleftrightarrow> \<bar>f64_val ?d\<bar> < f64_val f64_nano"
    unfolding has_three_decimal_precision_def using d(1) by (simp add: f64_lt_iff rate_constants)
  moreover have "\<bar>f64_val ?p - 1000 * f64_val x\<bar> \<le> 1 / 10 ^ 11" using p(2) r unfolding abs_le_iff by simp
  ultimately show thesis using that k(3) d(2) by blast
qed

lemma accepted_rate_range:
  "accepted_rate x \<Longrightarrow> f64_finite x \<and> f64_val f64_milli \<le> f64_val x \<and> f64_val x \<le> 1"
  by (cases x) (auto simp: accepted_rate_def f64_lt_iff f64_finite_def f64_val_def
      has_three_decimal_precision_def f64_milli_def f64_one_def f64_thousand_def f64_sub_def not_less
      simp del: f64_lt.simps(1))

lemma accepted_rate_iff:
  assumes "f64_finite x"
  shows "accepted_rate x \<longleftrightarrow> f64_val f64_milli \<le> f64_val x \<and> f64_val x \<le> 1 \<and> has_three_decimal_precision x"
  using assms by (simp add: accepted_rate_def f64_lt_iff rate_constants not_less)

text \<open>C37: a sample rate that passes validation is a finite number within 1.1e-12 of one of the
  thousandths 0.001, ..., 1.000: NaN, the infinities and rates with a fourth decimal are rejected.\<close>

theorem sample_rate_sound:
  assumes "accepted_rate x"
  shows "f64_finite x \<and> (\<exists>k::int. 1 \<le> k \<and> k \<le> 1000 \<and> \<bar>f64_val x - of_int k / 1000\<bar> < 11 / 10 ^ 13)"
proof -
  from accepted_rate_range [OF assms] have x: "f64_finite x" "f64_val f64_milli \<le> f64_val x" "f64_val x \<le> 1"
    by auto
  have x0: "0 \<le> f64_val x" "999 / 10 ^ 6 \<le> f64_val x" using x(2) rate_constants(7) by simp_all
  obtain k p d where b: "\<bar>p - 1000 * f64_val x\<bar> \<le> 1 / 10 ^ 11" "2 * \<bar>p - of_int k\<bar> \<le> 1"
    "\<bar>d - (p - of_int k)\<bar> \<le> \<bar>p - of_int k\<bar> / 10 ^ 15 + 1 / 10 ^ 30"
    "has_three_decimal_precision x \<longleftrightarrow> \<bar>d\<bar> < f64_val f64_nano"
    by (rule three_decimal_bounds [OF x(1) x0(1) x(3)])
  have d: "\<bar>d\<bar> < 1 / 10 ^ 9 + 1 / 10 ^ 20" 
    using b(4) assms rate_constants(9) by (simp add: accepted_rate_def)
  have pk: "\<bar>p - of_int k\<bar> < 105 / 10 ^ 11" 
  proof -
    have "\<bar>p - of_int k\<bar> \<le> \<bar>d\<bar> + \<bar>d - (p - of_int k)\<bar>" by linarith
    with b(2,3) d show ?thesis by simp
  qed
  have near: "\<bar>1000 * f64_val x - of_int k\<bar> < 11 / 10 ^ 10" 
  proof -
    have "\<bar>1000 * f64_val x - of_int k\<bar> \<le> \<bar>p - 1000 * f64_val x\<bar> + \<bar>p - of_int k\<bar>" by linarith
    with b(1) pk show ?thesis by simp
  qed
  then have "\<bar>1000 * f64_val x - of_int k\<bar> < 1 / 2" by simp
  moreover have "999 / 1000 \<le> 1000 * f64_val x" using x0(2) by simp
  ultimately have "0 < real_of_int k" "real_of_int k < 1001" using x(3) by linarith+
  then have "1 \<le> k \<and> k \<le> 1000" by linarith
  moreover have "\<bar>f64_val x - of_int k / 1000\<bar> < 11 / 10 ^ 13"
  proof -
    have "f64_val x - of_int k / 1000 = (1000 * f64_val x - of_int k) / 1000" by (simp add: diff_divide_distrib)
    with near show ?thesis by (simp only: abs_divide) simp
  qed
  ultimately show ?thesis using x(1) by blast
qed

text \<open>Conversely, every rate in range within 9e-13 of a thousandth passes, so the double nearest
  to any decimal with three places between 0.001 and 1 is accepted despite the rounding of the check.\<close>

lemma sample_rate_complete:
  assumes "f64_finite x" "f64_val f64_milli \<le> f64_val x" "f64_val x \<le> 1"
    "\<bar>f64_val x - of_int k / 1000\<bar> \<le> 9 / 10 ^ 13"
  shows "accepted_rate x"
proof -
  have x0: "0 \<le> f64_val x" using assms(2) rate_constants(7) by simp
  obtain j p d where b: "\<bar>p - 1000 * f64_val x\<bar> \<le> 1 / 10 ^ 11" "2 * \<bar>p - of_int j\<bar> \<le> 1"
    "\<bar>d - (p - of_int j)\<bar> \<le> \<bar>p - of_int j\<bar> / 10 ^ 15 + 1 / 10 ^ 30"
    "has_three_decimal_precision x \<longleftrightarrow> \<bar>d\<bar> < f64_val f64_nano"
    by (rule three_decimal_bounds [OF assms(1) x0 assms(3)])
  have pk: "\<bar>p - of_int k\<bar> \<le> 92 / 10 ^ 11" using b(1) assms(4) unfolding abs_le_iff by simp
  moreover have "\<bar>real_of_int j - of_int k\<bar> \<le> \<bar>p - of_int j\<bar> + \<bar>p - of_int k\<bar>" by linarith
  ultimately have "\<bar>real_of_int j - of_int k\<bar> < 1" using b(2) by simp
  then have "j = k" by linarith
  moreover have "\<bar>d\<bar> \<le> \<bar>p - of_int j\<bar> + \<bar>d - (p - of_int j)\<bar>" by linarith
  ultimately have "\<bar>d\<bar> < 95 / 10 ^ 11" using pk b(3) by simp
  with rate_constants(8) have "\<bar>d\<bar> < f64_val f64_nano" by simp
  with b(4) assms show ?thesis by (simp add: accepted_rate_iff)
qed

theorem sample_rate_sound_witness:
  "accepted_rate (Fin 553942754166571 (-52)) \<and> (\<exists>k::int. 1 \<le> k \<and> k \<le> 1000 \<and>
     \<bar>f64_val (Fin 553942754166571 (-52)) - of_int k / 1000\<bar> < 11 / 10 ^ 13)"
proof -
  have "accepted_rate (Fin 553942754166571 (-52))" by code_simp
  with sample_rate_sound [OF this] show ?thesis by blast
qed

lemma sample_rate_complete_witness: "accepted_rate (Fin 553942754166571 (-52))"
  by (rule sample_rate_complete [of _ 123])
    (simp_all add: f64_finite_def f64_milli_def power_int_def field_simps)

section \<open>Validation of the whole configuration\<close>

definition rate_errors :: "f64 \<Rightarrow> field_error list" where
  "rate_errors rate =
     (if f64_lt rate f64_milli \<or> f64_lt f64_one rate
      then [field_err ''app.trace.sample_rate'' ''must be between 0.001 and 1.0'']
      else if \<not> has_three_decimal_precision rate
      then [field_err ''app.trace.sample_rate'' ''must use at most 3 decimal places''] else [])"

lemma rate_errors_Nil: "rate_errors rate = [] \<longleftrightarrow> accepted_rate rate"
  by (simp add: rate_errors_def accepted_rate_def)

lemma appends_rate [appends_intros]:
  "appends (\<lambda>p. if f64_lt rate f64_milli \<or> f64_lt f64_one rate
      then problems_add ''app.trace.sample_rate'' ''must be between 0.001 and 1.0'' p
      else if \<not> has_three_decimal_precision rate
      then problems_add ''app.trace.sample_rate'' ''must use at most 3 decimal places'' p else p)
    (rate_errors rate)"
  by (auto simp: rate_errors_def appends_add appends_id)

definition app_errors :: "app_section \<Rightarrow> field_error list" where
  "app_errors c =
     (((err_if (trim_space (as_app_name c) = []) ''app.app_name'' ''is required'' @
        err_if (to_lower (trim_space (al_level (as_log c))) \<notin> set valid_log_levels) ''app.log.level''
          (one_of valid_log_levels)) @
       err_if (to_lower (trim_space (at_protocol (as_trace c))) \<noteq> ''http'')
         ''app.trace.otel_exporter_otlp_protocol'' (''must be '' @ quote_word ''http'' @ '' in v1'')) @
      rate_errors (at_sample_rate (as_trace c))) @
     err_if (to_lower (trim_space (ap_mode (as_pprof c))) \<notin> set valid_pprof_modes) ''app.pprof.mode''
       (one_of valid_pprof_modes)"

lemma appends_app: "appends (app_section_validate c) (app_errors c)"
  unfolding app_section_validate_def app_errors_def Let_def
  by (intro appends_comp appends_err_if appends_rate)

definition valid_app :: "app_section \<Rightarrow> bool" where
  "valid_app c \<longleftrightarrow>
     \<not> blank (as_app_name c) \<and> al_level (as_log c) \<in> {''debug'', ''info'', ''warn'', ''error''} \<and>
     at_protocol (as_trace c) = ''http'' \<and> accepted_rate (at_sample_rate (as_trace c)) \<and>
     ap_mode (as_pprof c) \<in> {''server'', ''dynamic''}"

lemma blank_trim_space [simp]: "blank (trim_space s) = blank s"
  by (simp add: trim_space_idem flip: trim_blank)

lemma valid_normalized_app: "app_errors (normalize_app c) = [] \<longleftrightarrow> valid_app (normalize_app c)"
  by (simp add: app_errors_def valid_app_def normalize_app_def trim_blank rate_errors_Nil
      valid_log_levels_def valid_pprof_modes_def)

lemma normalize_app_idem: "normalize_app (normalize_app c) = normalize_app c"
  by (simp add: normalize_app_def)

interpretation app: config_section normalize_app app_section_validate app_errors valid_app
  by unfold_locales (rule appends_app valid_normalized_app normalize_app_idem)+

definition normalize_config :: "'v app_config \<Rightarrow> 'v app_config" where
  "normalize_config cfg =
     cfg\<lparr> ac_app := normalize_app (ac_app cfg), ac_kafka := the (kafka_normalize (Some (ac_kafka cfg))) \<rparr>"

definition config_errors :: "'v app_config \<Rightarrow> field_error list" where
  "config_errors cfg =
     app_errors (ac_app cfg) @ concat (map redis_instance_errors (ac_redis cfg)) @
     mysql_errors (ac_mysql cfg) @ kafka_errors (ac_kafka cfg)"

text \<open>What the decoder contributes: its error, or one error per unused key.\<close>

definition decode_errors :: "(string, string list) result \<Rightarrow> field_error list" where
  "decode_errors res =
     (case res of Inl e \<Rightarrow> [field_err [] e] | Inr unused \<Rightarrow> map (\<lambda>k. field_err k ''unknown field'') unused)"

lemma decode_step:
  "add_unused (case res of Inl e \<Rightarrow> None | Inr unused \<Rightarrow> Some unused) []
     (add_decode_error [] (case res of Inl e \<Rightarrow> Some e | Inr unused \<Rightarrow> None) (Some [])) = Some (decode_errors res)"
  using appendsD [OF appends_unused_loop [of _ "[]"], of _ "[]"]
  by (cases res) (simp_all add: add_unused_def add_decode_error_def decode_errors_def problems_add_def)

lemma load_parsed:
  assumes "unmarshal body = Inr m" "decode (entries m) (initial_app_config (entries m)) = (cfg, res)"
  shows "load_from_bytes unmarshal decode body =
    (let errs = decode_errors res @ config_errors (normalize_config cfg) in
     if errs = [] then Inr (normalize_config cfg)
     else Inl \<lparr> le_kind = Kind_Validation, le_source = [], le_err = None, le_details = errs \<rparr>)"
proof -
  let ?cfg = "normalize_config cfg"
  have "kafka_validate (ac_kafka ?cfg) (mysql_validate (ac_mysql ?cfg)
      (redis_validate (ac_redis ?cfg) (app_section_validate (ac_app ?cfg) (Some (decode_errors res))))) =
    Some (decode_errors res @ config_errors ?cfg)"
    by (simp add: config_errors_def app.collects redis_section.collects mysql_section.collects kafka_section.collects)
  moreover have "ac_redis ?cfg = ac_redis cfg" "ac_mysql ?cfg = ac_mysql cfg"
    by (simp_all add: normalize_config_def)
  ultimately show ?thesis using decode_step [of res]
    by (cases res) (simp_all add: load_from_bytes_def assms app_section_normalize_def normalize_config_def Let_def)
qed

text \<open>C33: validation hides nothing. When the body parses, the load either returns the normalized
  configuration, if there is no problem at all, or one validation error whose details are all the
  problems of the decoder and of the four sections, in that order.\<close>

theorem load_reports_every_problem:
  assumes "unmarshal body = Inr m" "decode (entries m) (initial_app_config (entries m)) = (cfg, res)"
  shows "load_from_bytes unmarshal decode body =
    (let errs = decode_errors res @ config_errors (normalize_config cfg) in
     if errs = [] then Inr (normalize_config cfg)
     else Inl \<lparr> le_kind = Kind_Validation, le_source = [], le_err = None, le_details = errs \<rparr>)"
  using assms by (rule load_parsed)

theorem load_reports_every_problem_witness:
  "load_from_bytes (\<lambda>_. Inr None) (\<lambda>raw cfg. (cfg, Inr [''app.nam''])) [] =
    (Inl \<lparr> le_kind = Kind_Validation, le_source = [], le_err = None,
           le_details = [field_err ''app.nam'' ''unknown field'', field_err ''app.app_name'' ''is required''] \<rparr>
      :: (load_error, unit app_config) result)"
proof -
  have "decode_errors (Inr [''app.nam'']) @ config_errors (normalize_config (initial_app_config ([] :: unit table))) =
      [field_err ''app.nam'' ''unknown field'', field_err ''app.app_name'' ''is required'']"
    by code_simp
  then show ?thesis
    by (subst load_reports_every_problem [of _ _ None _ "initial_app_config []" "Inr [''app.nam'']"])
      (simp_all add: entries_def Let_def)
qed

definition valid_config :: "'v app_config \<Rightarrow> bool" where
  "valid_config cfg \<longleftrightarrow>
     valid_app (ac_app cfg) \<and> valid_redis (ac_redis cfg) \<and> valid_mysql (ac_mysql cfg) \<and> valid_kafka (ac_kafka cfg)"

lemma valid_normalized_config:
  "config_errors (normalize_config cfg) = [] \<longleftrightarrow> valid_config (normalize_config cfg)"
  by (simp add: config_errors_def valid_config_def normalize_config_def app.no_errors_iff redis_section.no_errors_iff
      mysql_section.no_errors_iff kafka_section.no_errors_iff del: concat_eq_Nil_conv)

text \<open>A configuration that was accepted is accepted again, and not changed, when it is normalized and
  validated a second time.\<close>

lemma normalize_config_idem: "normalize_config (normalize_config cfg) = normalize_config cfg"
  by (simp add: normalize_config_def app.normalize_idem kafka_section.normalize_idem)

lemma load_from_bytes_iff:
  "load_from_bytes unmarshal decode body = Inr cfg \<longleftrightarrow>
     (\<exists>m cfg0. unmarshal body = Inr m \<and>
        decode (entries m) (initial_app_config (entries m)) = (cfg0, Inr []) \<and>
        cfg = normalize_config cfg0 \<and> valid_config cfg)"
proof (cases "unmarshal body")
  case (Inl e)
  then show ?thesis by (simp add: load_from_bytes_def)
next
  case (Inr m)
  obtain cfg0 res where d: "decode (entries m) (initial_app_config (entries m)) = (cfg0, res)" by fastforce
  have "decode_errors res = [] \<longleftrightarrow> res = Inr []" by (cases res) (simp_all add: decode_errors_def)
  with Inr d show ?thesis
    by (auto simp: load_parsed [of unmarshal body m decode cfg0 res, OF Inr d] Let_def valid_normalized_config)
qed

text \<open>C5: \<open>LoadFromBytes\<close> succeeds exactly when the body parses, the decoder reports no error and no
  unused key, and the normalized configuration is valid; it then returns that configuration, whose
  level, protocol, pprof mode and acks are literally one of the allowed words.\<close>

theorem load_from_bytes_ok_iff:
  "load_from_bytes unmarshal decode body = Inr cfg \<longleftrightarrow>
     (\<exists>m cfg0. unmarshal body = Inr m \<and>
        decode (entries m) (initial_app_config (entries m)) = (cfg0, Inr []) \<and>
        cfg = normalize_config cfg0 \<and> valid_config cfg)"
  by (rule load_from_bytes_iff)

section \<open>Error texts and custom sections\<close>

lemma join_infix: "x \<in> set xs \<Longrightarrow> \<exists>us vs. join sep xs = us @ x @ vs"
proof (induction sep xs rule: join.induct)
  case (3 sep x y ys)
  then show ?case
    by (metis append.assoc append.left_neutral join.simps(3) set_ConsD)
qed (auto intro: exI [of _ "[]"])

lemma contains_iff: "contains s p \<longleftrightarrow> (\<exists>us vs. s = us @ p @ vs)"
proof (induction s)
  case (Cons c cs)
  have "(\<exists>us vs. c # cs = us @ p @ vs) \<longleftrightarrow> (\<exists>vs. c # cs = p @ vs) \<or> (\<exists>us vs. cs = us @ p @ vs)"
    by (metis append_Cons append_self_conv2 list.exhaust list.inject)
  with Cons show ?case by (simp add: has_prefix_iff)
qed simp

text \<open>The text of a validation error names every problem: each detail occurs in it with its path
  and its message.\<close>

lemma validation_text_complete:
  assumes "le_kind e = Kind_Validation" "d \<in> set (le_details e)"
  shows "contains (load_error_text is_print (Some e)) (detail_text d)"
proof -
  obtain us vs where "join ''; '' (map detail_text (le_details e)) = us @ detail_text d @ vs"
    using join_infix [of "detail_text d" "map detail_text (le_details e)" "''; ''"] assms(2) by auto
  then have "load_error_text is_print (Some e) = (''config validation failed: '' @ us) @ detail_text d @ vs"
    using assms by (auto simp: load_error_text_def)
  then show ?thesis unfolding contains_iff by blast
qed

lemma validation_text_complete_witness:
  "contains (load_error_text (\<lambda>_. True) (Some \<lparr> le_kind = Kind_Validation, le_source = [], le_err = None,
      le_details = [field_err ''a'' ''x'', field_err ''b'' ''y''] \<rparr>)) ''b: y''"
  using validation_text_complete [of "\<lparr> le_kind = Kind_Validation, le_source = [], le_err = None,
      le_details = [field_err ''a'' ''x'', field_err ''b'' ''y''] \<rparr>" "field_err ''b'' ''y''"]
  by (simp add: detail_text_def field_err_def)

lemma get_custom_config_ok_iff:
  "get_custom_config decode c section out = (out', None) \<longleftrightarrow>
     (\<exists>cfg t v. c = Some cfg \<and> out = Pointer t \<and> lookup_path (ac_custom cfg) section = Inr v \<and>
        decode v out = (out', Inr []))"
  by (cases out) (auto simp: get_custom_config_def require_decode_target_def split: option.split sum.split prod.split if_split)

lemma global_set: "global (set_global cfg cell) = cfg"
  by (simp add: global_def set_global_def)

end
