(* ===== verification/Utils.thy ===== *)
theory Utils
  imports Go_Strings "HOL-Library.AList" "HOL-Library.Multiset" "HOL-Library.Word"
begin

text \<open>
  The package \<open>utils\<close>: set difference by key, sequencing and retrying of actions, panic recovery.
  An action is a function on the state it changes; its error is an option. A panic is a value of
  type \<open>'p option\<close>. The iteration order of a Go map is a parameter that permutes its entries, and
  \<open>with_message\<close> is the wrapper of the package \<open>pkg/errors\<close>.
\<close>

section \<open>Difference by key (\<open>utils/op.go\<close>)\<close>

definition index_by :: "('a \<Rightarrow> 'k) \<Rightarrow> 'a list \<Rightarrow> ('k \<times> 'a) list" where
  "index_by key es = fold (\<lambda>e. AList.update (key e) e) es []"

definition missing_in :: "('k \<times> 'a) list \<Rightarrow> ('k \<times> 'a) list \<Rightarrow> 'a list" where
  "missing_in other es = map snd (filter (\<lambda>(k, v). map_of other k = None) es)"

definition diff ::
  "(('k \<times> 'a) list \<Rightarrow> ('k \<times> 'a) list) \<Rightarrow> 'a list \<Rightarrow> 'a list \<Rightarrow> ('a \<Rightarrow> 'k) \<Rightarrow> 'a list \<times> 'a list" where
  "diff iter list1 list2 key =
     (let m1 = index_by key list1;
          m2 = index_by key list2;
          no_in_list2 = missing_in m2 (iter m1);
          no_in_list1 = missing_in m1 (iter m2)
      in (no_in_list1, no_in_list2))"

definition max_of :: "'a::linorder \<Rightarrow> 'a \<Rightarrow> 'a" where
  "max_of a b = (if b < a then a else b)"

fun all_from :: "int \<Rightarrow> ('s \<Rightarrow> bool \<times> 's) list \<Rightarrow> 's \<Rightarrow> (int \<times> bool) \<times> 's" where
  "all_from i [] s = ((- 1, True), s)"
| "all_from i (b # bs) s =
     (case b s of (v, s) \<Rightarrow> if \<not> v then ((i, False), s) else all_from (i + 1) bs s)"

definition all_fns :: "('s \<Rightarrow> bool \<times> 's) list \<Rightarrow> 's \<Rightarrow> (int \<times> bool) \<times> 's" where
  "all_fns bs s = all_from 0 bs s"

section \<open>Sequencing and retrying (\<open>utils/iter.go\<close>)\<close>

type_synonym ('s, 'e) action = "'s \<Rightarrow> 'e option \<times> 's"

record 'e chain_error =
  ce_fn_index :: nat
  ce_err :: "'e option"

definition chain_error_text :: "('e \<Rightarrow> string) \<Rightarrow> 'e chain_error \<Rightarrow> string" where
  "chain_error_text text ce =
     (case ce_err ce of None \<Rightarrow> []
      | Some e \<Rightarrow> ''index='' @ itoa (int (ce_fn_index ce)) @ '', err='' @ text e)"

fun chain_from :: "nat \<Rightarrow> ('s, 'e) action list \<Rightarrow> 's \<Rightarrow> 'e chain_error option \<times> 's" where
  "chain_from index [] s = (None, s)"
| "chain_from index (fn # fns) s =
     (case fn s of (err, s) \<Rightarrow>
        if err \<noteq> None then (Some \<lparr> ce_fn_index = index, ce_err = err \<rparr>, s)
        else chain_from (Suc index) fns s)"

definition chain :: "('s, 'e) action list \<Rightarrow> 's \<Rightarrow> 'e chain_error option \<times> 's" where
  "chain fns s = chain_from 0 fns s"

fun chain_without_wrapper :: "('s, 'e) action list \<Rightarrow> 's \<Rightarrow> 'e option \<times> 's" where
  "chain_without_wrapper [] s = (None, s)"
| "chain_without_wrapper (fn # fns) s =
     (case fn s of (Some e, s) \<Rightarrow> (Some e, s) | (None, s) \<Rightarrow> chain_without_wrapper fns s)"

text \<open>The loop of \<open>Retry\<close>; \<open>sleep\<close> is the effect of waiting.\<close>

function retry_loop :: "nat \<Rightarrow> ('s \<Rightarrow> 's) \<Rightarrow> ('s, 'e) action \<Rightarrow> nat \<Rightarrow> 'e option \<Rightarrow> 's \<Rightarrow> 'e option \<times> 's" where
  "retry_loop max_retry sleep action cnt err s =
     (if err \<noteq> None \<and> cnt < max_retry
      then (case action (sleep s) of (err, s) \<Rightarrow> retry_loop max_retry sleep action (cnt + 1) err s)
      else (err, s))"
  by pat_completeness auto
termination
  by (relation "measure (\<lambda>(max_retry, sleep, action, cnt, err, s). max_retry - cnt)") auto

declare retry_loop.simps [simp del]

definition retry ::
  "('e option \<Rightarrow> string \<Rightarrow> 'e option) \<Rightarrow> nat \<Rightarrow> ('s \<Rightarrow> 's) \<Rightarrow> ('s, 'e) action \<Rightarrow> string \<Rightarrow> 's \<Rightarrow> 'e option \<times> 's" where
  "retry with_message max_retry sleep action hint s =
     (case action s of (err, s) \<Rightarrow>
      case retry_loop max_retry sleep action 0 err s of (err, s) \<Rightarrow>
        (with_message err (''exceed max-retry '' @ itoa (int max_retry) @ '' for '' @ hint), s))"

section \<open>Panics, defaults, clock (\<open>utils/safe.go\<close>, \<open>utils/str.go\<close>, \<open>utils/time.go\<close>)\<close>

definition go_with_action ::
  "('s \<Rightarrow> 'p option \<times> 's) \<Rightarrow> ('p \<Rightarrow> 's \<Rightarrow> 'p option \<times> 's) option \<Rightarrow> 's \<Rightarrow> 'p option \<times> 's" where
  "go_with_action fn panic_action s =
     (case fn s of
        (None, s) \<Rightarrow> (None, s)
      | (Some r, s) \<Rightarrow> (case panic_action of None \<Rightarrow> (None, s) | Some act \<Rightarrow> act r s))"

definition go_safe :: "('s \<Rightarrow> 'p option \<times> 's) \<Rightarrow> 's \<Rightarrow> 'p option \<times> 's" where
  "go_safe fn s = go_with_action fn None s"

definition panic_if :: "'e option \<Rightarrow> 'e option" where
  "panic_if err = (if err \<noteq> None then err else None)"

definition str_or_default :: "string \<Rightarrow> string \<Rightarrow> string" where
  "str_or_default str other = (if str \<noteq> [] then str else other)"

text \<open>The conversion \<open>uint64\<close> of a signed Unix time.\<close>

definition now_in_sec :: "int \<Rightarrow> 64 word" where "now_in_sec unix = word_of_int unix"
definition now_in_ms :: "int \<Rightarrow> 64 word" where "now_in_ms unix_milli = word_of_int unix_milli"

section \<open>Laws\<close>

lemma go_safe_no_panic: "fst (go_safe fn s) = None"
  by (auto simp: go_safe_def go_with_action_def split: prod.split option.split)

lemma str_or_default_nonempty: "other \<noteq> [] \<Longrightarrow> str_or_default str other \<noteq> []"
  by (simp add: str_or_default_def)

lemma max_of_max: "max_of a b = max a b"
  by (auto simp: max_of_def max_def)

lemma index_by_snoc: "index_by key (es @ [e]) = AList.update (key e) e (index_by key es)"
  by (simp add: index_by_def)

lemma distinct_index_by: "distinct (map fst (index_by key es))"
  by (induction es rule: rev_induct) (auto simp: index_by_snoc distinct_update, simp add: index_by_def)

lemma map_of_index_by: "map_of (index_by key es) k = find (\<lambda>e. key e = k) (rev es)"
  by (induction es rule: rev_induct) (auto simp: index_by_snoc update_conv, simp add: index_by_def)

lemma map_of_index_by_None: "map_of (index_by key es) k = None \<longleftrightarrow> k \<notin> key ` set es"
  by (auto simp: map_of_index_by find_None_iff)

lemma find_key: "find (\<lambda>x. key x = k) es = Some e \<Longrightarrow> key e = k"
  by (auto simp: find_Some_iff)

lemma set_missing_in:
  assumes "mset (iter (index_by key es)) = mset (index_by key es)"
  shows "set (missing_in (index_by key other) (iter (index_by key es))) =
    {e. find (\<lambda>x. key x = key e) (rev es) = Some e \<and> key e \<notin> key ` set other}"
proof -
  have s: "set (iter (index_by key es)) = set (index_by key es)" using assms by (metis set_mset_mset)
  have m: "(k, e) \<in> set (index_by key es) \<longleftrightarrow> find (\<lambda>x. key x = k) (rev es) = Some e" for k e
    using map_of_eq_Some_iff [OF distinct_index_by [of key es], of k e] unfolding map_of_index_by by blast
  have "set (missing_in (index_by key other) (iter (index_by key es))) =
      {e. \<exists>k. (k, e) \<in> set (index_by key es) \<and> k \<notin> key ` set other}"
    unfolding missing_in_def set_map set_filter s by (force simp: map_of_index_by_None)
  then show ?thesis unfolding m using find_key [of key _ "rev es"] by blast
qed

text \<open>\<open>Diff\<close> returns, in whatever order the maps are iterated, exactly the last element of each key
  of one list that is no key of the other.\<close>

lemma diff_sets:
  assumes "\<And>m. mset (iter m) = mset m"
  shows "set (fst (diff iter list1 list2 key)) =
      {e. find (\<lambda>x. key x = key e) (rev list2) = Some e \<and> key e \<notin> key ` set list1} \<and>
    set (snd (diff iter list1 list2 key)) =
      {e. find (\<lambda>x. key x = key e) (rev list1) = Some e \<and> key e \<notin> key ` set list2}"
  using set_missing_in [of iter key list1 list2, OF assms] set_missing_in [of iter key list2 list1, OF assms]
  by (simp add: diff_def Let_def)

lemma diff_sets_witness:
  "set (fst (diff rev [1, 2, 3::int] [3, 13, 4] (\<lambda>n. n mod 10))) = {4}"
proof -
  have "{e. find (\<lambda>x. x mod 10 = e mod 10) (rev [3, 13, 4]) = Some e \<and> e mod 10 \<notin> (\<lambda>n. n mod 10) ` set [1, 2, 3::int]} = {4}"
    by (auto split: if_splits)
  then show ?thesis using diff_sets [of rev "[1, 2, 3::int]" "[3, 13, 4]" "\<lambda>n. n mod 10"] by simp
qed

subsection \<open>Retry\<close>

text \<open>The attempts of a retried action: run it, wait, run it again, at most \<open>n\<close> more times, until it
  succeeds. Counts the attempts.\<close>

fun attempts :: "nat \<Rightarrow> ('s \<Rightarrow> 's) \<Rightarrow> ('s, 'e) action \<Rightarrow> 's \<Rightarrow> nat \<times> 'e option \<times> 's" where
  "attempts 0 sleep action s = (case action s of (err, s) \<Rightarrow> (1, err, s))"
| "attempts (Suc n) sleep action s =
     (case action s of
        (None, s) \<Rightarrow> (1, None, s)
      | (Some e, s) \<Rightarrow> (case attempts n sleep action (sleep s) of (k, r) \<Rightarrow> (Suc k, r)))"

lemma attempts_Suc_cases:
  obtains t where "action s = (None, t)" "attempts (Suc n) sleep action s = (1, None, t)"
  | e t where "action s = (Some e, t)"
      "attempts (Suc n) sleep action s =
        (Suc (fst (attempts n sleep action (sleep t))), snd (attempts n sleep action (sleep t)))"
  by (cases "action s"; cases "fst (action s)") (auto split: prod.split)

lemma attempts_bounds: "1 \<le> fst (attempts n sleep action s) \<and> fst (attempts n sleep action s) \<le> Suc n"
proof (induction n arbitrary: s)
  case (Suc n)
  show ?case by (rule attempts_Suc_cases [of action s n sleep]) (use Suc.IH in simp_all)
qed (simp split: prod.split)

lemma attempts_all_fail:
  "fst (snd (attempts n sleep action s)) \<noteq> None \<Longrightarrow> fst (attempts n sleep action s) = Suc n"
proof (induction n arbitrary: s)
  case (Suc n)
  show ?case by (rule attempts_Suc_cases [of action s n sleep]) (use Suc in simp_all)
qed (simp split: prod.split)

lemma retry_loop_attempts:
  assumes "cnt \<le> max_retry"
  shows "(case action s of (err, s) \<Rightarrow> retry_loop max_retry sleep action cnt err s) =
    snd (attempts (max_retry - cnt) sleep action s)"
  using assms
proof (induction "max_retry - cnt" arbitrary: cnt s)
  case 0
  then show ?case by (auto simp: retry_loop.simps split: prod.split)
next
  case (Suc n)
  then have c: "max_retry - cnt = Suc (max_retry - Suc cnt)" "cnt < max_retry" by auto
  have IH: "(case action t of (err, s) \<Rightarrow> retry_loop max_retry sleep action (Suc cnt) err s) =
      snd (attempts (max_retry - Suc cnt) sleep action t)" for t
    using Suc.hyps(1) [of "Suc cnt" t] Suc.hyps(2) c(2) by linarith
  show ?case unfolding c(1)
  proof (rule attempts_Suc_cases [of action s "max_retry - Suc cnt" sleep])
    fix t assume "action s = (None, t)" "attempts (Suc (max_retry - Suc cnt)) sleep action s = (1, None, t)"
    then show "(case action s of (err, s) \<Rightarrow> retry_loop max_retry sleep action cnt err s) =
      snd (attempts (Suc (max_retry - Suc cnt)) sleep action s)"
      by (simp add: retry_loop.simps)
  next
    fix e t assume "action s = (Some e, t)" "attempts (Suc (max_retry - Suc cnt)) sleep action s =
      (Suc (fst (attempts (max_retry - Suc cnt) sleep action (sleep t))), snd (attempts (max_retry - Suc cnt) sleep action (sleep t)))"
    then show "(case action s of (err, s) \<Rightarrow> retry_loop max_retry sleep action cnt err s) =
      snd (attempts (Suc (max_retry - Suc cnt)) sleep action s)"
      using IH [of "sleep t"] c(2) by (simp add: retry_loop.simps [of max_retry sleep action cnt])
  qed
qed

text \<open>C10: \<open>Retry\<close> runs the action until it succeeds, between once and \<open>maxRetry + 1\<close> times, exactly
  \<open>maxRetry + 1\<close> times if it never succeeds; it returns nil exactly when an attempt succeeded.\<close>

theorem retry_attempts:
  assumes "\<And>msg. with_message None msg = None" "\<And>e msg. with_message (Some e) msg \<noteq> None"
  shows "snd (retry with_message max_retry sleep action hint s) = snd (snd (attempts max_retry sleep action s)) \<and>
    (fst (retry with_message max_retry sleep action hint s) = None \<longleftrightarrow>
       fst (snd (attempts max_retry sleep action s)) = None) \<and>
    fst (attempts max_retry sleep action s) \<in> {1 .. Suc max_retry} \<and>
    (fst (retry with_message max_retry sleep action hint s) \<noteq> None \<longrightarrow>
       fst (attempts max_retry sleep action s) = Suc max_retry)"
proof -
  obtain k err t where a: "attempts max_retry sleep action s = (k, err, t)" by (metis prod_cases3)
  then have "(case action s of (err, s) \<Rightarrow> retry_loop max_retry sleep action 0 err s) = (err, t)"
    using retry_loop_attempts [where cnt = 0 and max_retry = max_retry and action = action and s = s and sleep = sleep] by simp
  then have r: "retry with_message max_retry sleep action hint s =
      (with_message err (''exceed max-retry '' @ itoa (int max_retry) @ '' for '' @ hint), t)"
    by (auto simp: retry_def split: prod.splits)
  have "with_message err msg = None \<longleftrightarrow> err = None" for msg using assms by (cases err) auto
  with r a attempts_bounds [where n = max_retry and s = s and action = action and sleep = sleep]
    attempts_all_fail [where n = max_retry and s = s and action = action and sleep = sleep]
  show ?thesis by auto
qed

text \<open>An action that fails while a counter is positive, and counts it down.\<close>

definition flaky :: "nat \<Rightarrow> string option \<times> nat" where
  "flaky n = (if n = 0 then (None, 0) else (Some ''busy'', n - 1))"

theorem retry_attempts_witness:
  "fst (retry (\<lambda>e msg. map_option (\<lambda>t. msg @ t) e) 3 (\<lambda>n. n) flaky ''dial'' 2) = None \<and>
   fst (retry (\<lambda>e msg. map_option (\<lambda>t. msg @ t) e) 1 (\<lambda>n. n) flaky ''dial'' 2) \<noteq> None"
proof -
  have "fst (snd (attempts 3 (\<lambda>n. n) flaky 2)) = None" "fst (snd (attempts 1 (\<lambda>n. n) flaky 2)) \<noteq> None"
    by (simp_all add: flaky_def numeral_3_eq_3)
  moreover have "fst (retry (\<lambda>e msg. map_option (\<lambda>t. msg @ t) e) n (\<lambda>n. n) flaky ''dial'' 2) = None \<longleftrightarrow>
      fst (snd (attempts n (\<lambda>n. n) flaky 2)) = None" for n
    using retry_attempts [where with_message = "\<lambda>e msg. map_option (\<lambda>t. msg @ t) e" and max_retry = n
        and sleep = "\<lambda>n. n" and action = flaky and hint = "''dial''" and s = 2] by simp
  ultimately show ?thesis by simp
qed

end
