(* ===== verification/Auth.thy ===== *)
theory Auth
  imports Go_Strings
begin

text \<open>
  \<open>infra/mask.go\<close> and \<open>infra/jwt.go\<close>: masking of a secret and the authentication interceptor. The
  JWT library is a parameter: \<open>jwt_parse text keyfunc exp_required\<close> is \<open>jwt.Parse\<close> with the option
  \<open>WithExpirationRequired\<close>, at the time at which it is called. A panic is the value \<open>None\<close>.
\<close>

section \<open>Masking\<close>

text \<open>The conversion of a string to runes and back re-encodes an invalid byte as U+FFFD. A negative
  tail size makes the slice expression panic.\<close>

definition secret_str_mask :: "string \<Rightarrow> int \<Rightarrow> string option" where
  "secret_str_mask original tail_size =
     (if tail_size = 0 then Some original
      else let tmp = runes (trim_space original);
               n = int (length tmp)
           in if n = 0 then Some []
              else if n < tail_size then Some (trim_space (replicate (nat n) CHR ''*''))
              else if n < n - tail_size then None
              else Some (trim_space (replicate (nat (n - tail_size)) CHR ''*'' @
                     concat (map re_encode (drop (nat (n - tail_size)) tmp)))))"

section \<open>Authentication\<close>

datatype signing_method = HMAC string | Other_Method

definition key_func :: "string \<Rightarrow> signing_method \<Rightarrow> (string, string) result" where
  "key_func secret m =
     (case m of HMAC name \<Rightarrow> if name = ''HS256'' then Inr secret else Inl ''unexpected decoder or hash alg''
      | Other_Method \<Rightarrow> Inl ''unexpected decoder or hash alg'')"

type_synonym 't jwt_parser =
  "string \<Rightarrow> (signing_method \<Rightarrow> (string, string) result) \<Rightarrow> bool \<Rightarrow> (string, 't) result"

definition parse_token :: "'t jwt_parser \<Rightarrow> string \<Rightarrow> string \<Rightarrow> (string, 't) result" where
  "parse_token jwt_parse secret token_string = jwt_parse token_string (key_func secret) True"

text \<open>\<open>SignJWT\<close>: \<open>jwt_sign\<close> is the library's \<open>NewWithClaims\<close> and \<open>SignedString\<close>.\<close>

definition sign_jwt ::
  "(signing_method \<Rightarrow> 'c \<Rightarrow> string \<Rightarrow> (string, string) result) \<Rightarrow> (string \<Rightarrow> string) \<Rightarrow> 'c \<Rightarrow> (string, string) result" where
  "sign_jwt jwt_sign getenv payload = jwt_sign (HMAC ''HS256'') payload (getenv ''JWT_MAILBOX_KEY'')"

definition bearer_token :: "string \<Rightarrow> string" where
  "bearer_token authorization = trim_space (trim_prefix authorization ''Bearer '')"

definition jwt_interceptor ::
  "'t jwt_parser \<Rightarrow> string \<Rightarrow> ('s \<Rightarrow> (string, 'r) result \<times> 's) \<Rightarrow> string \<Rightarrow> 's \<Rightarrow> (string, 'r) result \<times> 's" where
  "jwt_interceptor jwt_parse secret next authorization s =
     (case parse_token jwt_parse secret (bearer_token authorization) of
        Inl err \<Rightarrow> (Inl err, s)
      | Inr _ \<Rightarrow> next s)"

text \<open>The constructor prints the masked secret; the result is \<open>None\<close> if it panics.\<close>

definition middleware_jwt_auth :: "string \<Rightarrow> string option" where
  "middleware_jwt_auth secret =
     (if length (trim_space secret) = 0 then None
      else map_option (\<lambda>masked. ''load jwt secret:'' @ masked @ [CHR 0x0A]) (secret_str_mask secret 8))"

section \<open>What masking reveals\<close>

lemma is_space_re_encode: "is_space (re_encode ch) = is_space ch"
  by (cases "valid_rune ch") (simp_all add: re_encode_def not_space_i_k(3), simp add: is_space_def)

lemma trim_space_fixed:
  assumes "list_all valid_rune cs" "cs \<noteq> [] \<Longrightarrow> \<not> is_space (hd cs)" "cs \<noteq> [] \<Longrightarrow> \<not> is_space (last cs)"
  shows "trim_space (concat cs) = concat cs"
  using trim_both_id [of cs is_space] assms by (simp add: trim_space_def runes_concat_valid)

lemma star_rune: "valid_rune ''*''" "\<not> is_space ''*''"
  by code_simp+

lemma stars: "replicate k CHR ''*'' = concat (replicate k ''*'')"
  by (induction k) auto

lemma trim_stars_tail:
  assumes "runes (trim_space s) = us @ rs" "k = 0 \<longrightarrow> us = []"
  shows "trim_space (replicate k CHR ''*'' @ concat (map re_encode rs)) = replicate k CHR ''*'' @ concat (map re_encode rs)"
proof -
  let ?cs = "replicate k ''*'' @ map re_encode rs"
  have ends: "trim_both is_space (runes s) = us @ rs" using assms(1) by (simp add: runes_trim_space)
  have l: "\<not> is_space (last rs)" if "rs \<noteq> []"
    using trim_both_hd_last(2) [of is_space "runes s"] that by (simp add: ends)
  have h: "\<not> is_space (hd rs)" if "rs \<noteq> []" "us = []"
    using trim_both_hd_last(1) [of is_space "runes s"] that by (simp add: ends)
  have "trim_space (concat ?cs) = concat ?cs"
  proof (rule trim_space_fixed)
    show "list_all valid_rune ?cs" by (auto simp: list_all_iff star_rune valid_re_encode)
    show "\<not> is_space (hd ?cs)" if "?cs \<noteq> []"
    proof (cases k)
      case 0
      then show ?thesis using that h assms(2) by (simp add: hd_map is_space_re_encode)
    next
      case (Suc k')
      then show ?thesis using star_rune(2) by simp
    qed
    show "\<not> is_space (last ?cs)" if "?cs \<noteq> []"
    proof (cases "rs = []")
      case True
      then show ?thesis using that star_rune(2) by (simp add: last_replicate)
    next
      case False
      then show ?thesis using l by (simp add: last_map is_space_re_encode)
    qed
  qed
  then show ?thesis by (simp only: stars concat_append)
qed

lemma mask_eq:
  assumes "0 < t"
  shows "secret_str_mask s t = Some
    (let rs = runes (trim_space s); hidden = (if length rs < nat t then length rs else length rs - nat t)
     in replicate hidden CHR ''*'' @ concat (map re_encode (drop hidden rs)))"
proof -
  let ?rs = "runes (trim_space s)"
  consider "?rs = []" | "?rs \<noteq> []" "length ?rs < nat t" | "?rs \<noteq> []" "nat t \<le> length ?rs" by linarith
  then show ?thesis
  proof cases
    case 1
    then show ?thesis using assms by (simp add: secret_str_mask_def)
  next
    case 2
    then have "trim_space (replicate (length ?rs) CHR ''*'') = replicate (length ?rs) CHR ''*''"
      using trim_stars_tail [of s ?rs "[]" "length ?rs"] by simp
    with 2 assms show ?thesis by (simp add: secret_str_mask_def Let_def zless_nat_eq_int_zless)
  next
    case 3
    let ?k = "length ?rs - nat t"
    have "nat (int (length ?rs) - t) = ?k" using assms by (simp add: nat_diff_distrib)
    moreover have "trim_space (replicate ?k CHR ''*'' @ concat (map re_encode (drop ?k ?rs))) =
        replicate ?k CHR ''*'' @ concat (map re_encode (drop ?k ?rs))"
      by (rule trim_stars_tail [of s "take ?k ?rs"]) auto
    ultimately show ?thesis using 3 assms
      by (simp add: secret_str_mask_def Let_def del: length_0_conv)
        (simp add: nat_le_iff)
  qed
qed

text \<open>For a positive tail size masking never panics and reveals at most the last \<open>tailSize\<close> runes:
  the result is one star per rune of the trimmed secret, except that the last \<open>tailSize\<close> runes are
  kept when there are that many. The final trimming removes nothing.\<close>

lemma secret_str_mask_reveals:
  assumes "0 < t"
  shows "secret_str_mask s t = Some
    (let rs = runes (trim_space s); hidden = (if length rs < nat t then length rs else length rs - nat t)
     in replicate hidden CHR ''*'' @ concat (map re_encode (drop hidden rs)))"
  using assms by (rule mask_eq)

lemma secret_str_mask_reveals_witness:
  "secret_str_mask '' ABCDEF '' 2 = Some ''****EF'' \<and> secret_str_mask ''hunter22'' 8 = Some ''hunter22''"
  unfolding secret_str_mask_reveals [of 2, simplified] secret_str_mask_reveals [of 8, simplified]
  by code_simp

text \<open>A secret of exactly eight runes is printed whole when the middleware is built.\<close>

lemma middleware_prints_short_secret:
  assumes "length (runes (trim_space secret)) = 8" "utf8_valid secret" "trim_space secret = secret"
  shows "middleware_jwt_auth secret = Some (''load jwt secret:'' @ secret @ [CHR 0x0A])"
proof -
  have "map re_encode (runes secret) = runes secret"
    using assms(2) by (intro map_idI) (simp add: utf8_valid_def list_all_iff re_encode_def)
  moreover have "secret \<noteq> []" using assms(1,3) by auto
  ultimately show ?thesis using assms by (simp add: middleware_jwt_auth_def mask_eq)
qed

section \<open>Claims\<close>

text \<open>The claims of a token: a number is a time in whole seconds, zero stands for no time, and nothing else is a time.
  The clock is in nanoseconds.\<close>

datatype claim_value = Claim_Number int | Claim_Other string

type_synonym claims = "(string \<times> claim_value) list"

definition numeric_date :: "claims \<Rightarrow> string \<Rightarrow> (string, int option) result" where
  "numeric_date cs k =
     (case map_of cs k of
        None \<Rightarrow> Inr None
      | Some (Claim_Number n) \<Rightarrow> Inr (if n = 0 then None else Some n)
      | Some (Claim_Other _) \<Rightarrow> Inl (k @ '' is invalid''))"

definition claims_valid :: "int \<Rightarrow> claims \<Rightarrow> bool" where
  "claims_valid now cs \<longleftrightarrow>
     (case numeric_date cs ''exp'' of Inr (Some t) \<Rightarrow> now < t * 1000000000 | _ \<Rightarrow> False) \<and>
     (case numeric_date cs ''nbf'' of Inr (Some t) \<Rightarrow> t * 1000000000 \<le> now | Inr None \<Rightarrow> True | Inl _ \<Rightarrow> False)"

text \<open>
  The documented contract of the library, for its view of a text as a token: the method in its header, its claims, and
  whether its signature verifies under a method and a key. With the expiry required, the text is accepted
  exactly if the key function yields a key for that method, the signature verifies under it, and the claims
  are valid at that time. What the library signs is a token with that method, those claims and a signature
  that verifies under the key, and is printed without white space.
\<close>

definition jwt_contract ::
  "(int \<Rightarrow> 't jwt_parser) \<Rightarrow> (signing_method \<Rightarrow> claims \<Rightarrow> string \<Rightarrow> (string, string) result) \<Rightarrow>
   (string \<Rightarrow> signing_method option) \<Rightarrow> (string \<Rightarrow> claims) \<Rightarrow> (signing_method \<Rightarrow> string \<Rightarrow> string \<Rightarrow> bool) \<Rightarrow> bool" where
  "jwt_contract jwt_parse jwt_sign header claims_of verifies \<longleftrightarrow>
     (\<forall>now tok kf. is_ok (jwt_parse now tok kf True) \<longleftrightarrow>
        (\<exists>m key. header tok = Some m \<and> kf m = Inr key \<and> verifies m key tok \<and> claims_valid now (claims_of tok))) \<and>
     (\<forall>m cs key tok. jwt_sign m cs key = Inr tok \<longrightarrow>
        header tok = Some m \<and> map_of (claims_of tok) = map_of cs \<and> verifies m key tok \<and>
        trim_space tok = tok \<and> \<not> has_prefix tok ''Bearer '')"

lemma claims_valid_cong: "map_of cs = map_of ds \<Longrightarrow> claims_valid now cs = claims_valid now ds"
  by (simp add: claims_valid_def numeric_date_def)

lemma key_func_iff: "key_func secret m = Inr key \<longleftrightarrow> m = HMAC ''HS256'' \<and> key = secret"
  by (auto simp: key_func_def split: signing_method.splits if_splits)

lemma bearer_token_plain:
  assumes "trim_space tok = tok" "\<not> has_prefix tok ''Bearer ''" "authorization \<in> {tok, ''Bearer '' @ tok}"
  shows "bearer_token authorization = tok"
proof -
  from assms(3) consider "authorization = tok" | "authorization = ''Bearer '' @ tok" by blast
  then show ?thesis
  proof cases
    case 1
    with assms(1,2) show ?thesis by (simp add: bearer_token_def trim_prefix_def)
  next
    case 2
    with assms(1) show ?thesis by (simp only: bearer_token_def trim_prefix_append)
  qed
qed

section \<open>Who reaches the handler\<close>

lemma interceptor_decides:
  assumes "jwt_contract jwt_parse jwt_sign header claims_of verifies"
  shows "let tok = bearer_token authorization in
    if header tok = Some (HMAC ''HS256'') \<and> verifies (HMAC ''HS256'') secret tok \<and> claims_valid now (claims_of tok)
    then jwt_interceptor (jwt_parse now) secret handler authorization s = handler s
    else \<exists>err. jwt_interceptor (jwt_parse now) secret handler authorization s = (Inl err, s)"
proof -
  let ?tok = "bearer_token authorization"
  have "is_ok (jwt_parse now ?tok (key_func secret) True) \<longleftrightarrow>
      header ?tok = Some (HMAC ''HS256'') \<and> verifies (HMAC ''HS256'') secret ?tok \<and> claims_valid now (claims_of ?tok)"
    using assms unfolding jwt_contract_def by (auto simp: key_func_iff)
  then show ?thesis
    by (cases "jwt_parse now ?tok (key_func secret) True") (auto simp: jwt_interceptor_def parse_token_def Let_def)
qed

text \<open>C36: who reaches the handler. A request reaches it exactly if its token names HS256, is signed with the
  secret of the service, carries an expiry that has not passed, and has no start time or one that has
  come; any other request gets an error and the handler does not run. So a token that \<open>SignJWT\<close> made with
  the same secret, sent with the prefix \<open>Bearer\<close> or without it, opens the service exactly while its claims are valid.\<close>

theorem signed_token_admits:
  assumes "jwt_contract jwt_parse jwt_sign header claims_of verifies"
  shows "(let tok = bearer_token authorization in
      if header tok = Some (HMAC ''HS256'') \<and> verifies (HMAC ''HS256'') secret tok \<and> claims_valid now (claims_of tok)
      then jwt_interceptor (jwt_parse now) secret handler authorization s = handler s
      else \<exists>err. jwt_interceptor (jwt_parse now) secret handler authorization s = (Inl err, s)) \<and>
    (\<forall>getenv cs tok. sign_jwt jwt_sign getenv cs = Inr tok \<and> getenv ''JWT_MAILBOX_KEY'' = secret \<and>
         authorization \<in> {tok, ''Bearer '' @ tok} \<longrightarrow>
       (if claims_valid now cs
        then jwt_interceptor (jwt_parse now) secret handler authorization s = handler s
        else \<exists>err. jwt_interceptor (jwt_parse now) secret handler authorization s = (Inl err, s)))"
proof (intro conjI allI impI)
  note decides = interceptor_decides [OF assms, of authorization secret now handler s]
  then show "let tok = bearer_token authorization in
      if header tok = Some (HMAC ''HS256'') \<and> verifies (HMAC ''HS256'') secret tok \<and> claims_valid now (claims_of tok)
      then jwt_interceptor (jwt_parse now) secret handler authorization s = handler s
      else \<exists>err. jwt_interceptor (jwt_parse now) secret handler authorization s = (Inl err, s)" .
  fix getenv cs tok
  assume sent: "sign_jwt jwt_sign getenv cs = Inr tok \<and> getenv ''JWT_MAILBOX_KEY'' = secret \<and> authorization \<in> {tok, ''Bearer '' @ tok}"
  then have "jwt_sign (HMAC ''HS256'') cs secret = Inr tok" by (auto simp: sign_jwt_def)
  with assms have tok: "header tok = Some (HMAC ''HS256'')" "map_of (claims_of tok) = map_of cs" "verifies (HMAC ''HS256'') secret tok"
    "trim_space tok = tok" "\<not> has_prefix tok ''Bearer ''"
    unfolding jwt_contract_def by simp_all
  have "bearer_token authorization = tok" using bearer_token_plain [OF tok(4,5)] sent by blast
  with decides tok(1,3) claims_valid_cong [OF tok(2), of now]
  show "if claims_valid now cs
      then jwt_interceptor (jwt_parse now) secret handler authorization s = handler s
      else \<exists>err. jwt_interceptor (jwt_parse now) secret handler authorization s = (Inl err, s)"
    by (simp add: Let_def)
qed

text \<open>A library for the witness: a token is a letter for its method, its key and its expiry in unary.\<close>

definition toy_header :: "string \<Rightarrow> signing_method option" where
  "toy_header tok = (if has_prefix tok ''h.'' then Some (HMAC ''HS256'') else if has_prefix tok ''x.'' then Some (HMAC ''HS384'') else None)"

definition toy_key :: "string \<Rightarrow> string" where "toy_key tok = takeWhile (\<lambda>c. c \<noteq> CHR ''.'') (drop 2 tok)"

definition toy_claims :: "string \<Rightarrow> claims" where
  "toy_claims tok = [(''exp'', Claim_Number (int (length (tl (dropWhile (\<lambda>c. c \<noteq> CHR ''.'') (drop 2 tok))))))]"

definition toy_parse :: "int \<Rightarrow> unit jwt_parser" where
  "toy_parse now tok kf exp_required =
     (case toy_header tok of None \<Rightarrow> Inl ''signing method is unavailable'' | Some m \<Rightarrow>
      (case kf m of Inl e \<Rightarrow> Inl e | Inr key \<Rightarrow>
       if toy_key tok \<noteq> key then Inl ''signature is invalid''
       else if \<not> claims_valid now (toy_claims tok) then Inl ''token has invalid claims'' else Inr ()))"

definition toy_sign :: "signing_method \<Rightarrow> claims \<Rightarrow> string \<Rightarrow> (string, string) result" where
  "toy_sign m cs key =
     (case cs of [(k, Claim_Number n)] \<Rightarrow>
        if m = HMAC ''HS256'' \<and> k = ''exp'' \<and> 0 \<le> n \<and> list_all (\<lambda>c. 32 < byte c \<and> byte c < 127 \<and> c \<noteq> CHR ''.'') key
        then Inr (''h.'' @ key @ ''.'' @ replicate (nat n) CHR ''1'') else Inl ''unsupported''
      | _ \<Rightarrow> Inl ''unsupported'')"

lemma toy_contract: "jwt_contract toy_parse toy_sign toy_header toy_claims (\<lambda>m key tok. toy_key tok = key)"
  unfolding jwt_contract_def
proof (intro allI impI conjI)
  show "is_ok (toy_parse now tok kf True) \<longleftrightarrow>
      (\<exists>m key. toy_header tok = Some m \<and> kf m = Inr key \<and> toy_key tok = key \<and> claims_valid now (toy_claims tok))" for now tok kf
    by (auto simp: toy_parse_def split: option.splits sum.splits)
  fix m cs key tok
  assume "toy_sign m cs key = Inr tok"
  then obtain n where s: "m = HMAC ''HS256''" "cs = [(''exp'', Claim_Number n)]" "0 \<le> n"
      "list_all (\<lambda>c. 32 < byte c \<and> byte c < 127 \<and> c \<noteq> CHR ''.'') key" "tok = ''h.'' @ key @ ''.'' @ replicate (nat n) CHR ''1''"
    by (auto simp: toy_sign_def split: list.splits prod.splits claim_value.splits if_splits)
  have "takeWhile (\<lambda>c. c \<noteq> CHR ''.'') (key @ CHR ''.'' # ds) = key" "dropWhile (\<lambda>c. c \<noteq> CHR ''.'') (key @ CHR ''.'' # ds) = CHR ''.'' # ds" for ds
    using s(4) by (auto simp: list_all_iff takeWhile_append2 dropWhile_append2)
  then show "toy_header tok = Some m" "map_of (toy_claims tok) = map_of cs" "toy_key tok = key"
    using s(1-3) by (simp_all add: s(5) toy_header_def has_prefix_iff toy_claims_def toy_key_def)
  have all: "list_all P tok" if "list_all P key" "P CHR ''h''" "P CHR ''.''" "P CHR ''1''" for P
    using that by (auto simp: s(5) list_all_iff)
  have "list_all (\<lambda>c. 32 < byte c \<and> byte c < 127) key" using s(4) by (rule list.pred_mono_strong) simp
  then have "list_all (\<lambda>c. 32 < byte c \<and> byte c < 127) tok" by (rule all) (simp_all add: byte_def)
  then show "trim_space tok = tok" by (rule trim_space_printable)
  show "\<not> has_prefix tok ''Bearer ''" by (simp add: s(5) has_prefix_iff)
qed

text \<open>A token for three seconds: before and after its expiry, and with another method.\<close>

theorem signed_token_admits_witness:
  "jwt_interceptor (toy_parse 2000000000) ''s3cret'' (\<lambda>n. (Inr (), Suc n)) ''Bearer h.s3cret.111'' 0 = (Inr (), 1) \<and>
   (\<exists>err. jwt_interceptor (toy_parse 3000000000) ''s3cret'' (\<lambda>n. (Inr (), Suc n)) ''Bearer h.s3cret.111'' 0 = (Inl err, 0 :: nat)) \<and>
   (\<exists>err. jwt_interceptor (toy_parse 2000000000) ''s3cret'' (\<lambda>n. (Inr (), Suc n)) ''Bearer x.s3cret.111'' 0 = (Inl err, 0 :: nat))"
proof (intro conjI)
  note admits = signed_token_admits [OF toy_contract]
  let ?cs = "[(''exp'', Claim_Number 3)]"
  have sent: "sign_jwt toy_sign (\<lambda>_. ''s3cret'') ?cs = Inr ''h.s3cret.111'' \<and> (\<lambda>_. ''s3cret'') ''JWT_MAILBOX_KEY'' = ''s3cret'' \<and>
      ''Bearer h.s3cret.111'' \<in> {''h.s3cret.111'', ''Bearer '' @ ''h.s3cret.111''}"
    by (simp add: sign_jwt_def toy_sign_def byte_def eval_nat_numeral)
  have valid: "claims_valid 2000000000 ?cs" "\<not> claims_valid 3000000000 ?cs" by code_simp+
  from mp [OF spec [OF spec [OF spec [OF conjunct2 [OF admits [where now = 2000000000 and authorization = "''Bearer h.s3cret.111''"
        and secret = "''s3cret''" and handler = "\<lambda>n. (Inr (), Suc n)" and s = 0]], of "\<lambda>_. ''s3cret''"], of ?cs], of "''h.s3cret.111''"] sent] valid(1)
  show "jwt_interceptor (toy_parse 2000000000) ''s3cret'' (\<lambda>n. (Inr (), Suc n)) ''Bearer h.s3cret.111'' 0 = (Inr (), 1)" by simp
  from mp [OF spec [OF spec [OF spec [OF conjunct2 [OF admits [where now = 3000000000 and authorization = "''Bearer h.s3cret.111''"
        and secret = "''s3cret''" and handler = "\<lambda>n. (Inr (), Suc n)" and s = "0 :: nat"]], of "\<lambda>_. ''s3cret''"], of ?cs], of "''h.s3cret.111''"] sent] valid(2)
  show "\<exists>err. jwt_interceptor (toy_parse 3000000000) ''s3cret'' (\<lambda>n. (Inr (), Suc n)) ''Bearer h.s3cret.111'' 0 = (Inl err, 0 :: nat)" by simp
  have "toy_header (bearer_token ''Bearer x.s3cret.111'') = Some (HMAC ''HS384'')" by code_simp
  with conjunct1 [OF admits [where now = 2000000000 and authorization = "''Bearer x.s3cret.111''" and secret = "''s3cret''"
        and handler = "\<lambda>n. (Inr (), Suc n)" and s = "0 :: nat"]]
  show "\<exists>err. jwt_interceptor (toy_parse 2000000000) ''s3cret'' (\<lambda>n. (Inr (), Suc n)) ''Bearer x.s3cret.111'' 0 = (Inl err, 0 :: nat)"
    by (simp add: Let_def)
qed

end
