(* ===== verification/Log_Core.thy ===== *)
theory Log_Core
  imports Go_Strings "HOL-Library.Word" "HOL-Library.AList"
begin

text \<open>
  The package \<open>log\<close>: the core that injects the required fields and truncates long texts
  (\<open>log/required_fields_core.go\<close>), the fields carried in a context (\<open>log/context.go\<close>) and the level
  split of the outputs (\<open>log/log.go\<close>). The zap core that is wrapped is a parameter: \<open>inner_enabled\<close>,
  \<open>inner_with\<close> and \<open>inner_write\<close> on its values and on a world of outputs.
\<close>

section \<open>Fields and entries\<close>

text \<open>A field value by its zap type; \<open>F_Any\<close> is a reflected value and \<open>F_Float\<close> a float, by its text.\<close>

datatype fvalue =
  F_String string | F_Int int | F_Uint "64 word" | F_Bool bool | F_Float string | F_Error string | F_Any string | F_Strings "string list"

record log_field =
  lf_key :: string
  lf_value :: fvalue

definition field :: "string \<Rightarrow> fvalue \<Rightarrow> log_field" where
  "field k v = \<lparr> lf_key = k, lf_value = v \<rparr>"

lemma field_sel [simp]: "lf_key (field k v) = k" "lf_value (field k v) = v"
  by (simp_all add: field_def)

text \<open>The levels by zap's numbers: debug -1, info 0, warn 1, error 2.\<close>

type_synonym level = int

abbreviation (input) debug_level :: level where "debug_level \<equiv> - 1"
abbreviation (input) info_level :: level where "info_level \<equiv> 0"
abbreviation (input) warn_level :: level where "warn_level \<equiv> 1"
abbreviation (input) error_level :: level where "error_level \<equiv> 2"

record log_entry =
  le_level :: level
  le_message :: string

section \<open>Truncation\<close>

definition max_log_text_len :: int where "max_log_text_len = 1024"

fun truncate_loop :: "int \<Rightarrow> int \<Rightarrow> nat \<Rightarrow> string list \<Rightarrow> string \<Rightarrow> string" where
  "truncate_loop max_chars count idx [] s = s"
| "truncate_loop max_chars count idx (r # rs) s =
     (if count = max_chars then take idx s
      else truncate_loop max_chars (count + 1) (idx + length r) rs s)"

definition truncate_utf8 :: "string \<Rightarrow> int \<Rightarrow> string" where
  "truncate_utf8 s max_chars =
     (if max_chars \<le> 0 \<or> s = [] then []
      else if int (rune_count s) \<le> max_chars then s
      else truncate_loop max_chars 0 0 (runes s) s)"

section \<open>The required-fields core\<close>

definition field_key_aliases :: "(string \<times> string) list" where
  "field_key_aliases =
     [(''trace_id'', ''_trace_id''), (''span_id'', ''_span_id''), (''parent_span_id'', ''_parent_span_id''),
      (''server_ip'', ''_app_ip''), (''server_port'', ''_app_port''), (''duration_ms'', ''_dur_ms''), (''sql'', ''_sql'')]"

definition normalize_field :: "log_field \<Rightarrow> log_field" where
  "normalize_field f =
     (let f = (case map_of field_key_aliases (lf_key f) of Some alias \<Rightarrow> f\<lparr> lf_key := alias \<rparr> | None \<Rightarrow> f)
      in if lf_key f = ''_sql'' then
           (case lf_value f of
              F_String t \<Rightarrow> f\<lparr> lf_value := F_String (truncate_utf8 t max_log_text_len) \<rparr>
            | _ \<Rightarrow> f)
         else f)"

definition normalize_fields :: "log_field list \<Rightarrow> log_field list" where
  "normalize_fields fs = map normalize_field fs"

record 'c rf_core =
  rc_core :: 'c
  rc_defaults :: "log_field list"
  rc_bound :: "string set"

definition new_required_fields_core :: "'c \<Rightarrow> log_field list \<Rightarrow> 'c rf_core" where
  "new_required_fields_core core defaults = \<lparr> rc_core = core, rc_defaults = defaults, rc_bound = {} \<rparr>"

definition rf_with :: "('c \<Rightarrow> log_field list \<Rightarrow> 'c) \<Rightarrow> 'c rf_core \<Rightarrow> log_field list \<Rightarrow> 'c rf_core" where
  "rf_with inner_with c fs =
     (let normalized = normalize_fields fs in
      \<lparr> rc_core = inner_with (rc_core c) normalized, rc_defaults = rc_defaults c,
        rc_bound = rc_bound c \<union> lf_key ` set normalized \<rparr>)"

text \<open>\<open>Check\<close> adds the core itself to the cores that the checked entry will write.\<close>

definition rf_check ::
  "('c \<Rightarrow> level \<Rightarrow> bool) \<Rightarrow> 'c rf_core \<Rightarrow> log_entry \<Rightarrow> 'c rf_core list \<Rightarrow> 'c rf_core list" where
  "rf_check inner_enabled c ent ce = (if inner_enabled (rc_core c) (le_level ent) then ce @ [c] else ce)"

fun missing_defaults :: "string set \<Rightarrow> log_field list \<Rightarrow> log_field list" where
  "missing_defaults present [] = []"
| "missing_defaults present (f # fs) =
     (if lf_key f \<in> present then missing_defaults present fs else f # missing_defaults present fs)"

definition rf_fields :: "'c rf_core \<Rightarrow> log_field list \<Rightarrow> log_field list" where
  "rf_fields c fs =
     (let normalized = normalize_fields fs; present = rc_bound c \<union> lf_key ` set normalized
      in normalized @ missing_defaults present (rc_defaults c))"

definition rf_write ::
  "('c \<Rightarrow> log_entry \<Rightarrow> log_field list \<Rightarrow> 'w \<Rightarrow> 'w) \<Rightarrow> 'c rf_core \<Rightarrow> log_entry \<Rightarrow> log_field list \<Rightarrow> 'w \<Rightarrow> 'w" where
  "rf_write inner_write c ent fs w =
     inner_write (rc_core c) (ent\<lparr> le_message := truncate_utf8 (le_message ent) max_log_text_len \<rparr>) (rf_fields c fs) w"

text \<open>Logging an entry: check it, then write it with every core that was added.\<close>

definition rf_log ::
  "('c \<Rightarrow> level \<Rightarrow> bool) \<Rightarrow> ('c \<Rightarrow> log_entry \<Rightarrow> log_field list \<Rightarrow> 'w \<Rightarrow> 'w) \<Rightarrow> 'c rf_core \<Rightarrow>
   log_entry \<Rightarrow> log_field list \<Rightarrow> 'w \<Rightarrow> 'w" where
  "rf_log inner_enabled inner_write c ent fs w =
     fold (\<lambda>c w. rf_write inner_write c ent fs w) (rf_check inner_enabled c ent []) w"

section \<open>Defaults from the environment\<close>

fun first_non_empty :: "string list \<Rightarrow> string" where
  "first_non_empty [] = []"
| "first_non_empty (v # vs) = (if v \<noteq> [] then v else first_non_empty vs)"

definition parse_positive_int :: "string \<Rightarrow> int" where
  "parse_positive_int raw = (case atoi raw of None \<Rightarrow> 0 | Some v \<Rightarrow> if v < 0 then 0 else v)"

definition parse_bind_address :: "string \<Rightarrow> string \<times> int" where
  "parse_bind_address a =
     (if a = [] then ([], 0)
      else if has_prefix a '':'' then ([], parse_positive_int (trim_prefix a '':''))
      else case split_host_port a of
        Some (host, port) \<Rightarrow> (trim_space host, parse_positive_int (trim_space port))
      | None \<Rightarrow> ([], parse_positive_int a))"

record app_identity =
  ai_name :: string
  ai_ip :: string
  ai_port :: int

definition default_injected_fields_from_env :: "(string \<Rightarrow> string) \<Rightarrow> log_field list \<times> app_identity" where
  "default_injected_fields_from_env getenv =
     (let get = (\<lambda>k. trim_space (getenv k));
          env = first_non_empty [get ''APP_ENV'', get ''DEPLOY_ENV'', get ''ENV''];
          app = first_non_empty [get ''APP_NAME'', get ''SERVICE_ID'', get ''OTEL_SERVICE_NAME''];
          ip = first_non_empty [get ''APP_IP'', get ''POD_IP''];
          port = parse_positive_int (get ''APP_PORT'');
          (bind_host, bind_port) = parse_bind_address (get ''BIND_ADDR'');
          ip = (if ip = [] then bind_host else ip);
          port = (if port = 0 then bind_port else port)
      in ([field ''_env'' (F_String env), field ''_app'' (F_String app), field ''_app_ip'' (F_String ip),
           field ''_app_port'' (F_Int port), field ''_trace_id'' (F_String []), field ''_span_id'' (F_String [])],
          \<lparr> ai_name = app, ai_ip = ip, ai_port = port \<rparr>))"

section \<open>The outputs\<close>

text \<open>The level tests of the two files and of the console.\<close>

definition info_enabler :: "level \<Rightarrow> level \<Rightarrow> bool" where
  "info_enabler log_level lvl = (lvl < warn_level \<and> log_level \<le> lvl)"

definition warn_enabler :: "level \<Rightarrow> level \<Rightarrow> bool" where
  "warn_enabler log_level lvl = (warn_level \<le> lvl \<and> log_level \<le> lvl)"

definition console_enabler :: "level \<Rightarrow> level \<Rightarrow> bool" where
  "console_enabler log_level lvl = (log_level \<le> lvl)"

datatype log_output = Log_File string | Err_File string | Console

definition init_log_outputs :: "string \<Rightarrow> string \<Rightarrow> level \<Rightarrow> (log_output \<times> (level \<Rightarrow> bool)) list" where
  "init_log_outputs log_path err_path log_level =
     [(Log_File log_path, info_enabler log_level), (Err_File err_path, warn_enabler log_level),
      (Console, console_enabler log_level)]"

section \<open>Contexts\<close>

text \<open>The values of a context under the keys of the package.\<close>

record log_ctx =
  cx_fields :: "log_field list option"
  cx_trace_id :: "string option"
  cx_span_id :: "string option"
  cx_parent_span_id :: "string option"
  cx_sampled :: "bool option"

definition with_fields :: "log_ctx \<Rightarrow> log_field list \<Rightarrow> log_ctx" where
  "with_fields ctx fs =
     (if fs = [] then ctx
      else ctx\<lparr> cx_fields := Some ((case cx_fields ctx of None \<Rightarrow> [] | Some cur \<Rightarrow> cur) @ fs) \<rparr>)"

definition fields_from_context :: "log_ctx option \<Rightarrow> log_field list" where
  "fields_from_context ctx =
     (case ctx of None \<Rightarrow> [] | Some c \<Rightarrow> (case cx_fields c of None \<Rightarrow> [] | Some fs \<Rightarrow> fs))"

definition with_trace :: "log_ctx \<Rightarrow> string \<Rightarrow> string \<Rightarrow> string \<Rightarrow> bool \<Rightarrow> log_ctx" where
  "with_trace ctx trace_id span_id parent_span_id sampled =
     (let ctx = (if trace_id \<noteq> [] then with_fields (ctx\<lparr> cx_trace_id := Some trace_id \<rparr>) [field ''_trace_id'' (F_String trace_id)] else ctx);
          ctx = (if span_id \<noteq> [] then with_fields (ctx\<lparr> cx_span_id := Some span_id \<rparr>) [field ''_span_id'' (F_String span_id)] else ctx);
          ctx = (if parent_span_id \<noteq> []
                 then with_fields (ctx\<lparr> cx_parent_span_id := Some parent_span_id \<rparr>) [field ''_parent_span_id'' (F_String parent_span_id)]
                 else ctx)
      in ctx\<lparr> cx_sampled := Some sampled \<rparr>)"

definition opt_string :: "string option \<Rightarrow> string" where
  "opt_string s = (case s of None \<Rightarrow> [] | Some t \<Rightarrow> t)"

text \<open>The result \<open>None\<close> is \<open>ok = false\<close>.\<close>

definition trace_from_context :: "log_ctx option \<Rightarrow> (string \<times> string) option" where
  "trace_from_context ctx =
     (case ctx of None \<Rightarrow> None | Some c \<Rightarrow>
        let t = opt_string (cx_trace_id c); s = opt_string (cx_span_id c)
        in if t = [] \<and> s = [] then None else Some (t, s))"

definition is_sampled :: "log_ctx option \<Rightarrow> bool" where
  "is_sampled ctx =
     (case ctx of None \<Rightarrow> True | Some c \<Rightarrow> (case cx_sampled c of None \<Rightarrow> True | Some b \<Rightarrow> b))"

text \<open>\<open>Logger(ctx)\<close> binds the fields of the context to the global core.\<close>

definition ctx_logger :: "('c \<Rightarrow> log_field list \<Rightarrow> 'c) \<Rightarrow> 'c rf_core \<Rightarrow> log_ctx option \<Rightarrow> 'c rf_core" where
  "ctx_logger inner_with global ctx = rf_with inner_with global (fields_from_context ctx)"

section \<open>Truncation keeps whole runes\<close>

lemma truncate_loop_take:
  "s = concat (us @ rs) \<Longrightarrow> int (length us) \<le> n \<Longrightarrow>
   truncate_loop n (int (length us)) (length (concat us)) rs s = concat (take (nat n) (us @ rs))"
proof (induction rs arbitrary: us)
  case Nil
  then show ?case by simp
next
  case (Cons r rs)
  show ?case
  proof (cases "int (length us) = n")
    case True
    then have "nat n = length us" by simp
    with True Cons.prems show ?thesis by simp
  next
    case False
    with Cons.prems Cons.IH [of "us @ [r]"] show ?thesis by (simp add: add.commute)
  qed
qed

text \<open>C35: truncation keeps exactly the first \<open>maxChars\<close> runes of the text, whole: it never cuts inside a
  character, whatever the bytes are.\<close>

theorem truncate_utf8_runes: "runes (truncate_utf8 s n) = take (nat n) (runes s)"
proof (cases "n \<le> 0 \<or> s = []")
  case False
  show ?thesis
  proof (cases "int (rune_count s) \<le> n")
    case True
    with False show ?thesis by (simp add: truncate_utf8_def rune_count_def)
  next
    case over: False
    then have "truncate_utf8 s n = concat (take (nat n) (runes s))"
      using False truncate_loop_take [of s "[]" "runes s" n] by (simp add: truncate_utf8_def)
    then show ?thesis by (simp add: runes_concat_take)
  qed
qed (auto simp: truncate_utf8_def)

section \<open>What is written\<close>

lemma missing_defaults_filter: "missing_defaults present fs = filter (\<lambda>f. lf_key f \<notin> present) fs"
  by (induction present fs rule: missing_defaults.induct) auto

lemma normalize_fields_append: "normalize_fields (fs @ gs) = normalize_fields fs @ normalize_fields gs"
  by (simp add: normalize_fields_def)

text \<open>C8: for every key, a written entry has the caller's fields of that key, in order, if the caller or an
  earlier \<open>With\<close> gave any; otherwise it has the default fields of that key. So each required field is
  present and never overrides one the caller set.\<close>

theorem rf_fields_by_key:
  "filter (\<lambda>f. lf_key f = k) (rf_fields c fs) =
     (let own = filter (\<lambda>f. lf_key f = k) (normalize_fields fs)
      in if own = [] \<and> k \<notin> rc_bound c then filter (\<lambda>f. lf_key f = k) (rc_defaults c) else own)"
proof -
  let ?own = "filter (\<lambda>f. lf_key f = k) (normalize_fields fs)"
  have own: "?own \<noteq> [] \<longleftrightarrow> k \<in> lf_key ` set (normalize_fields fs)"
    by (auto simp: filter_empty_conv)
  have d: "filter (\<lambda>f. lf_key f = k) (filter (\<lambda>f. lf_key f \<notin> P) ds) =
      (if k \<in> P then [] else filter (\<lambda>f. lf_key f = k) ds)" for P ds
    by (induction ds) auto
  show ?thesis unfolding rf_fields_def Let_def missing_defaults_filter filter_append d
    by (cases "k \<in> lf_key ` set (normalize_fields fs)") (use own in simp_all)
qed

lemma rf_with_fields:
  "normalize_fields fs @ rf_fields (rf_with inner_with c fs) gs = rf_fields c (fs @ gs)"
  by (simp add: rf_fields_def rf_with_def missing_defaults_filter normalize_fields_append Let_def Un_assoc image_Un)

text \<open>C13: the wrapper keeps zap's contract of \<open>With\<close>. If binding fields to the wrapped core is the same as
  passing them first to each of its writes, then so it is for the wrapper: fields bound by \<open>With\<close> and
  fields given at the call are normalized, and suppress defaults, alike.\<close>

theorem rf_with_write:
  assumes "\<And>c fs ent gs w. inner_write (inner_with c fs) ent gs w = inner_write c ent (fs @ gs) w"
  shows "rf_write inner_write (rf_with inner_with c fs) ent gs w = rf_write inner_write c ent (fs @ gs) w"
proof -
  have "rc_core (rf_with inner_with c fs) = inner_with (rc_core c) (normalize_fields fs)"
    by (simp add: rf_with_def Let_def)
  with assms show ?thesis by (simp add: rf_write_def flip: rf_with_fields [of fs inner_with c gs])
qed

text \<open>A wrapped core for the witnesses: it holds the fields bound so far; the world is what was written.\<close>

definition demo_with :: "log_field list \<Rightarrow> log_field list \<Rightarrow> log_field list" where
  "demo_with c fs = c @ fs"

definition demo_write ::
  "log_field list \<Rightarrow> log_entry \<Rightarrow> log_field list \<Rightarrow> (log_entry \<times> log_field list) list \<Rightarrow> (log_entry \<times> log_field list) list" where
  "demo_write c ent fs w = w @ [(ent, c @ fs)]"

definition demo_core :: "log_field list rf_core" where
  "demo_core = new_required_fields_core [] [field ''_app'' (F_String ''shop''), field ''_trace_id'' (F_String [])]"

definition demo_entry :: log_entry where
  "demo_entry = \<lparr> le_level = info_level, le_message = ''paid'' \<rparr>"

theorem rf_with_write_witness:
  "rf_write demo_write (rf_with demo_with demo_core [field ''trace_id'' (F_String ''t1'')]) demo_entry [] [] =
   [(demo_entry, [field ''_trace_id'' (F_String ''t1''), field ''_app'' (F_String ''shop'')])]"
proof -
  have "rf_write demo_write demo_core demo_entry ([field ''trace_id'' (F_String ''t1'')] @ []) [] =
      [(demo_entry, [field ''_trace_id'' (F_String ''t1''), field ''_app'' (F_String ''shop'')])]"
    by code_simp
  then show ?thesis
    using rf_with_write [of demo_write demo_with demo_core "[field ''trace_id'' (F_String ''t1'')]" demo_entry "[]" "[]"]
    by (simp add: demo_write_def demo_with_def)
qed

subsection \<open>Trace identifiers\<close>

lemma with_trace_sampled: "is_sampled (Some (with_trace ctx t s p b)) = b"
  by (simp add: with_trace_def is_sampled_def Let_def)

lemma with_fields_simps [simp]:
  "fields_from_context (Some (with_fields ctx fs)) = fields_from_context (Some ctx) @ fs"
  "cx_trace_id (with_fields ctx fs) = cx_trace_id ctx" "cx_span_id (with_fields ctx fs) = cx_span_id ctx"
  by (auto simp: with_fields_def fields_from_context_def split: option.split)

lemma with_trace_ids:
  "t \<noteq> [] \<Longrightarrow> s \<noteq> [] \<Longrightarrow> trace_from_context (Some (with_trace ctx t s p b)) = Some (t, s)"
  by (simp add: with_trace_def trace_from_context_def opt_string_def Let_def)

lemma ctx_updates [simp]:
  "fields_from_context (Some (ctx\<lparr> cx_trace_id := x \<rparr>)) = fields_from_context (Some ctx)"
  "fields_from_context (Some (ctx\<lparr> cx_span_id := x \<rparr>)) = fields_from_context (Some ctx)"
  "fields_from_context (Some (ctx\<lparr> cx_parent_span_id := x \<rparr>)) = fields_from_context (Some ctx)"
  "fields_from_context (Some (ctx\<lparr> cx_sampled := y \<rparr>)) = fields_from_context (Some ctx)"
  by (simp_all add: fields_from_context_def)

lemma with_trace_fields:
  "t \<noteq> [] \<Longrightarrow> field ''_trace_id'' (F_String t) \<in> set (fields_from_context (Some (with_trace ctx t s p b)))"
  by (simp add: with_trace_def Let_def)

lemma normalize_trace_id: "normalize_field (field ''_trace_id'' v) = field ''_trace_id'' v"
  by (simp add: normalize_field_def field_key_aliases_def field_def)

text \<open>C34: an entry logged through \<open>Logger(ctx)\<close> for a context with a trace carries that trace id and not the
  empty default, and the trace can be read back from the context.\<close>

theorem trace_id_reaches_entry:
  assumes law: "\<And>c fs ent gs w. inner_write (inner_with c fs) ent gs w = inner_write c ent (fs @ gs) w"
    and ids: "t \<noteq> []" "s \<noteq> []"
  shows "trace_from_context (Some (with_trace ctx t s p b)) = Some (t, s) \<and>
    (\<exists>msg out. rf_write inner_write (ctx_logger inner_with g (Some (with_trace ctx t s p b))) ent fs w =
        inner_write (rc_core g) (ent\<lparr> le_message := msg \<rparr>) out w \<and>
      field ''_trace_id'' (F_String t) \<in> set out \<and>
      {f \<in> set out. lf_key f = ''_trace_id''} \<subseteq>
        set (normalize_fields (fields_from_context (Some (with_trace ctx t s p b)) @ fs)))"
proof -
  let ?cf = "fields_from_context (Some (with_trace ctx t s p b))"
  let ?out = "rf_fields g (?cf @ fs)"
  have w: "rf_write inner_write (ctx_logger inner_with g (Some (with_trace ctx t s p b))) ent fs w =
      inner_write (rc_core g) (ent\<lparr> le_message := truncate_utf8 (le_message ent) max_log_text_len \<rparr>) ?out w"
    unfolding ctx_logger_def rf_with_fields [of ?cf inner_with g fs, symmetric] rf_write_def law [symmetric]
    by (simp add: rf_with_def Let_def)
  have own: "field ''_trace_id'' (F_String t) \<in> set (normalize_fields (?cf @ fs))"
  proof -
    have "normalize_field (field ''_trace_id'' (F_String t)) \<in> normalize_field ` set (?cf @ fs)"
      by (rule imageI) (simp add: with_trace_fields [OF ids(1)])
    then show ?thesis by (simp only: normalize_trace_id normalize_fields_def set_map)
  qed
  then have k: "''_trace_id'' \<in> lf_key ` set (normalize_fields (?cf @ fs))"
    by (metis field_sel(1) imageI)
  have "{f \<in> set ?out. lf_key f = ''_trace_id''} \<subseteq> set (normalize_fields (?cf @ fs))"
    using k by (auto simp: rf_fields_def missing_defaults_filter Let_def simp del: image_iff)
  moreover have "field ''_trace_id'' (F_String t) \<in> set ?out" using own by (simp add: rf_fields_def Let_def)
  ultimately show ?thesis using w with_trace_ids [OF ids, of ctx p b] by blast
qed

theorem trace_id_reaches_entry_witness:
  "trace_from_context (Some (with_trace \<lparr> cx_fields = None, cx_trace_id = None, cx_span_id = None,
      cx_parent_span_id = None, cx_sampled = None \<rparr> ''t1'' ''s1'' [] True)) = Some (''t1'', ''s1'')"
  using trace_id_reaches_entry [of demo_write demo_with "''t1''" "''s1''"] by (simp add: demo_write_def demo_with_def)

section \<open>The level split\<close>

lemma enablers_partition:
  "info_enabler ll lvl \<and> \<not> warn_enabler ll lvl \<or> warn_enabler ll lvl \<and> \<not> info_enabler ll lvl \<or>
   \<not> console_enabler ll lvl \<and> \<not> info_enabler ll lvl \<and> \<not> warn_enabler ll lvl"
  by (auto simp: info_enabler_def warn_enabler_def console_enabler_def)

text \<open>The split of the outputs by level is bypassed. The wrapper's \<open>Check\<close> asks only whether some output
  is enabled, and a core's \<open>Write\<close> always writes; so every entry at or above the configured level goes to
  both files and the console: info entries into the error file, and errors into the info file.\<close>

lemma level_split_bypassed:
  assumes enabled: "\<And>c lvl. inner_enabled c lvl = (\<exists>x \<in> set (init_log_outputs lp ep ll). snd x lvl)"
    and writes: "\<And>c ent fs w d. d \<in> fst ` set (init_log_outputs lp ep ll) \<Longrightarrow> inner_write c ent fs w d = w d @ [ent]"
    and lvl: "ll \<le> le_level ent" and d: "d \<in> {Log_File lp, Err_File ep, Console}"
  shows "\<exists>msg. rf_log inner_enabled inner_write c ent fs w d = w d @ [ent\<lparr> le_message := msg \<rparr>]"
proof -
  have "inner_enabled (rc_core c) (le_level ent)"
    using lvl by (simp add: enabled init_log_outputs_def console_enabler_def)
  then have "rf_log inner_enabled inner_write c ent fs w = rf_write inner_write c ent fs w"
    by (simp add: rf_log_def rf_check_def)
  moreover have "d \<in> fst ` set (init_log_outputs lp ep ll)" using d by (auto simp: init_log_outputs_def)
  ultimately show ?thesis
    by (intro exI [of _ "truncate_utf8 (le_message ent) max_log_text_len"]) (simp add: rf_write_def writes)
qed

lemma level_split_bypassed_witness:
  "\<exists>msg. rf_log (\<lambda>c lvl. \<exists>x \<in> set (init_log_outputs ''a.log'' ''e.log'' info_level). snd x lvl)
     (\<lambda>c ent fs w d. w d @ [ent]) demo_core demo_entry [] (\<lambda>_. []) (Err_File ''e.log'') = [demo_entry\<lparr> le_message := msg \<rparr>]"
  using level_split_bypassed [of "\<lambda>c lvl. \<exists>x \<in> set (init_log_outputs ''a.log'' ''e.log'' info_level). snd x lvl"
      "''a.log''" "''e.log''" info_level "\<lambda>c ent fs w d. w d @ [ent]" demo_entry "Err_File ''e.log''" demo_core "[]" "\<lambda>_. []"]
  by (simp add: demo_entry_def)

end
