(* ===== verification/Client_Hooks.thy ===== *)
theory Client_Hooks
  imports Log_Core Utils
begin

text \<open>
  What the database clients report about each command: the hook of the Redis client
  (\<open>redis/hook.go\<close>), the logger of the SQL client and the start-up of the SQL client
  (\<open>mysql/mysql_logger.go\<close>, \<open>mysql/mysql.go\<close>). A span is a record of what was set on it; spans and
  log entries are appended to a world; an entry starts with the fields of the caller's context. Durations are in milliseconds, as they are reported, except the
  slow-query test, which compares nanoseconds. The command, the DSN parser and the database library
  are parameters.
\<close>

section \<open>Spans and entries\<close>

record span =
  sp_name :: string
  sp_attrs :: "(string \<times> fvalue) list"
  sp_errors :: "string list"
  sp_status_error :: "string option"

record telemetry =
  tl_spans :: "span list"
  tl_entries :: "(level \<times> string \<times> log_field list) list"

definition end_span :: "span \<Rightarrow> telemetry \<Rightarrow> telemetry" where
  "end_span sp t = t\<lparr> tl_spans := tl_spans t @ [sp] \<rparr>"

definition log_at :: "level \<Rightarrow> string \<Rightarrow> log_field list \<Rightarrow> telemetry \<Rightarrow> telemetry" where
  "log_at lvl msg fs t = t\<lparr> tl_entries := tl_entries t @ [(lvl, msg, fs)] \<rparr>"

text \<open>An entry of \<open>log.Logger(ctx)\<close>.\<close>

definition log_with :: "log_ctx option \<Rightarrow> level \<Rightarrow> string \<Rightarrow> log_field list \<Rightarrow> telemetry \<Rightarrow> telemetry" where
  "log_with ctx lvl msg fs t = log_at lvl msg (fields_from_context ctx @ fs) t"

text \<open>An error value: its text, and whether it is the library's ``no value'' error.\<close>

record go_error =
  ge_text :: string
  ge_none :: bool

section \<open>Addresses\<close>

definition parse_port :: "string \<Rightarrow> int" where
  "parse_port raw = (case atoi (trim_space raw) of None \<Rightarrow> 0 | Some port \<Rightarrow> if port < 0 then 0 else port)"

definition parse_redis_addr :: "string \<Rightarrow> string \<times> int" where
  "parse_redis_addr raw0 =
     (let raw = trim_space raw0 in
      if raw = [] then ([], 0)
      else case split_host_port raw of
        Some (host, port) \<Rightarrow> (trim_space host, parse_port port)
      | None \<Rightarrow>
          (case split_last CHR '':'' raw of
             Some (a, b) \<Rightarrow> if a \<noteq> [] \<and> b \<noteq> [] then (trim_space a, parse_port b) else (raw, 0)
           | None \<Rightarrow> (raw, 0)))"

fun parse_redis_addrs :: "string list \<Rightarrow> string \<times> int" where
  "parse_redis_addrs [] = ([], 0)"
| "parse_redis_addrs (addr # addrs) =
     (case parse_redis_addr addr of (host, port) \<Rightarrow>
        if host \<noteq> [] \<or> 0 < port then (host, port) else parse_redis_addrs addrs)"

definition mysql_parse_port :: "string \<Rightarrow> int" where
  "mysql_parse_port raw = (case atoi (trim_space raw) of None \<Rightarrow> 0 | Some port \<Rightarrow> if port < 0 then 0 else port)"

definition parse_host_port :: "string \<Rightarrow> string \<times> int" where
  "parse_host_port addr0 =
     (let addr = trim_space addr0 in
      if addr = [] then ([], 0)
      else case split_host_port addr of
        Some (host, port) \<Rightarrow> (host, mysql_parse_port port)
      | None \<Rightarrow>
          (case split_last CHR '':'' addr of
             Some (a, b) \<Rightarrow> if a \<noteq> [] \<and> b \<noteq> [] then (trim_space a, mysql_parse_port b) else (addr, 0)
           | None \<Rightarrow> (addr, 0)))"

section \<open>The Redis hook\<close>

text \<open>A command: its name and its arguments, of which only strings matter (\<open>None\<close>: another type).\<close>

record redis_cmd =
  rd_name :: string
  rd_args :: "string option list"

record redis_hook =
  rh_ip :: string
  rh_port :: int

definition new_redis_trace_log_hook :: "string list \<Rightarrow> redis_hook" where
  "new_redis_trace_log_hook addrs =
     (case parse_redis_addrs addrs of (ip, port) \<Rightarrow> \<lparr> rh_ip = ip, rh_port = port \<rparr>)"

definition dial_hook :: "redis_hook \<Rightarrow> 'd \<Rightarrow> 'd" where
  "dial_hook h next = next"

definition is_redis_nil_reply :: "go_error option \<Rightarrow> bool" where
  "is_redis_nil_reply err = (case err of None \<Rightarrow> False | Some e \<Rightarrow> ge_none e)"

definition command_name :: "redis_cmd option \<Rightarrow> string" where
  "command_name cmd =
     (case cmd of None \<Rightarrow> ''unknown'' | Some c \<Rightarrow>
        let name = trim_space (to_lower (rd_name c)) in if name \<noteq> [] then name else ''unknown'')"

definition lua_sha_from_command :: "redis_cmd option \<Rightarrow> string" where
  "lua_sha_from_command cmd =
     (case cmd of None \<Rightarrow> [] | Some c \<Rightarrow>
        if to_lower (trim_space (rd_name c)) \<noteq> ''evalsha'' then []
        else if length (rd_args c) < 2 then []
        else trim_space (case rd_args c ! 1 of None \<Rightarrow> [] | Some sha \<Rightarrow> sha))"

definition error_flag :: "go_error option \<Rightarrow> bool" where
  "error_flag err = (err \<noteq> None \<and> \<not> is_redis_nil_reply err)"

definition recorded :: "go_error option \<Rightarrow> string list" where
  "recorded err = (case err of None \<Rightarrow> [] | Some e \<Rightarrow> if ge_none e then [] else [ge_text e])"

definition end_command_span ::
  "redis_hook \<Rightarrow> string \<Rightarrow> redis_cmd option \<Rightarrow> int \<Rightarrow> go_error option \<Rightarrow> telemetry \<Rightarrow> telemetry" where
  "end_command_span h name cmd dur err t =
     end_span \<lparr> sp_name = name,
       sp_attrs =
         [(''target_type'', F_String ''redis''), (''remote.ip'', F_String (rh_ip h)), (''remote.port'', F_Int (rh_port h)),
          (''redis.command'', F_String (command_name cmd)), (''error.flag'', F_Bool (error_flag err)),
          (''redis.nil_reply'', F_Bool (is_redis_nil_reply err)), (''duration.ms'', F_Int dur)] @
         (if lua_sha_from_command cmd \<noteq> [] then [(''lua.sha'', F_String (lua_sha_from_command cmd))] else []),
       sp_errors = recorded err,
       sp_status_error = (case err of Some e \<Rightarrow> if ge_none e then None else Some (ge_text e) | None \<Rightarrow> None) \<rparr> t"

text \<open>The end of both hooks: an info entry for success and for a nil reply, an error entry otherwise.\<close>

definition log_reply :: "log_ctx option \<Rightarrow> log_field list \<Rightarrow> go_error option \<Rightarrow> telemetry \<Rightarrow> telemetry" where
  "log_reply ctx fs err t =
     (case err of
        Some e \<Rightarrow>
          if is_redis_nil_reply err
          then log_with ctx info_level ''REDIS'' (fs @ [field ''_redis_nil_reply'' (F_Bool True)]) t
          else log_with ctx error_level ''REDIS'' (fs @ [field ''_error'' (F_Error (ge_text e))]) t
      | None \<Rightarrow> log_with ctx info_level ''REDIS'' fs t)"

definition log_command :: "log_ctx option \<Rightarrow> redis_hook \<Rightarrow> redis_cmd option \<Rightarrow> int \<Rightarrow> go_error option \<Rightarrow> telemetry \<Rightarrow> telemetry" where
  "log_command ctx h cmd dur err t =
     log_reply ctx
       ([field ''_instance_ip'' (F_String (rh_ip h)), field ''_instance_port'' (F_Int (rh_port h)),
         field ''_redis_cmd'' (F_String (command_name cmd)), field ''_dur_ms'' (F_Int dur)] @
        (if lua_sha_from_command cmd \<noteq> [] then [field ''_redis_lua_sha'' (F_String (lua_sha_from_command cmd))] else []))
       err t"

definition process_hook ::
  "log_ctx option \<Rightarrow> redis_hook \<Rightarrow> redis_cmd option \<Rightarrow> int \<Rightarrow> ('w \<Rightarrow> go_error option \<times> 'w) \<Rightarrow> 'w \<Rightarrow> telemetry \<Rightarrow>
   go_error option \<times> 'w \<times> telemetry" where
  "process_hook ctx h cmd dur next w t =
     (case next w of (err, w) \<Rightarrow>
        let t = end_command_span h (''redis.'' @ command_name cmd) cmd dur err t;
            t = log_command ctx h cmd dur err t
        in (err, w, t))"

definition process_pipeline_hook ::
  "log_ctx option \<Rightarrow> redis_hook \<Rightarrow> redis_cmd option list \<Rightarrow> int \<Rightarrow> ('w \<Rightarrow> go_error option \<times> 'w) \<Rightarrow> 'w \<Rightarrow> telemetry \<Rightarrow>
   go_error option \<times> 'w \<times> telemetry" where
  "process_pipeline_hook ctx h cmds dur next w t =
     (case next w of (err, w) \<Rightarrow>
        let t = end_span \<lparr> sp_name = ''redis.pipeline'',
              sp_attrs =
                [(''target_type'', F_String ''redis''), (''remote.ip'', F_String (rh_ip h)), (''remote.port'', F_Int (rh_port h)),
                 (''redis.command_count'', F_Int (int (length cmds))), (''error.flag'', F_Bool (error_flag err)),
                 (''redis.nil_reply'', F_Bool (is_redis_nil_reply err)), (''duration.ms'', F_Int dur)],
              sp_errors = recorded err,
              sp_status_error = (case err of Some e \<Rightarrow> if ge_none e then None else Some (ge_text e) | None \<Rightarrow> None) \<rparr> t;
            t = log_reply ctx
              [field ''_instance_ip'' (F_String (rh_ip h)), field ''_instance_port'' (F_Int (rh_port h)),
               field ''_redis_pipeline_cmd_count'' (F_Int (int (length cmds))), field ''_dur_ms'' (F_Int dur)] err t
        in (err, w, t))"

section \<open>The SQL logger\<close>

text \<open>The levels of gorm: silent 1, error 2, warn 3, info 4. Durations in nanoseconds.\<close>

record mysql_logger =
  ml_level :: int
  ml_slow_threshold :: int
  ml_ip :: string
  ml_port :: int
  ml_database :: string

definition mysql_endpoint :: "(string \<Rightarrow> (string \<times> string) option) \<Rightarrow> string \<Rightarrow> string \<times> int \<times> string" where
  "mysql_endpoint parse_dsn dsn =
     (case parse_dsn dsn of None \<Rightarrow> ([], 0, [])
      | Some (addr, db) \<Rightarrow> (case parse_host_port addr of (host, port) \<Rightarrow> (host, port, db)))"

definition new_mysql_gorm_logger :: "(string \<Rightarrow> (string \<times> string) option) \<Rightarrow> string \<Rightarrow> mysql_logger" where
  "new_mysql_gorm_logger parse_dsn dsn =
     (case mysql_endpoint parse_dsn dsn of (ip, port, db) \<Rightarrow>
        \<lparr> ml_level = 4, ml_slow_threshold = 200000000, ml_ip = ip, ml_port = port, ml_database = db \<rparr>)"

definition log_mode :: "mysql_logger \<Rightarrow> int \<Rightarrow> mysql_logger" where
  "log_mode l lvl = l\<lparr> ml_level := lvl \<rparr>"

definition ml_info :: "log_ctx option \<Rightarrow> mysql_logger \<Rightarrow> string \<Rightarrow> telemetry \<Rightarrow> telemetry" where
  "ml_info ctx l msg t = (if ml_level l < 4 then t else log_with ctx info_level msg [] t)"

definition ml_warn :: "log_ctx option \<Rightarrow> mysql_logger \<Rightarrow> string \<Rightarrow> telemetry \<Rightarrow> telemetry" where
  "ml_warn ctx l msg t = (if ml_level l < 3 then t else log_with ctx warn_level msg [] t)"

definition ml_error :: "log_ctx option \<Rightarrow> mysql_logger \<Rightarrow> string \<Rightarrow> telemetry \<Rightarrow> telemetry" where
  "ml_error ctx l msg t = (if ml_level l < 2 then t else log_with ctx error_level msg [] t)"

definition sql_fields :: "mysql_logger \<Rightarrow> string \<Rightarrow> int \<Rightarrow> bool \<Rightarrow> log_field list" where
  "sql_fields l sql dur is_slow =
     [field ''_instance_ip'' (F_String (ml_ip l)), field ''_instance_port'' (F_Int (ml_port l)),
      field ''_database'' (F_String (ml_database l)), field ''_dur_ms'' (F_Int (dur div 1000000)),
      field ''_sql'' (F_String sql), field ''_is_slow_query'' (F_Bool is_slow)]"

definition emit_trace_span :: "mysql_logger \<Rightarrow> int \<Rightarrow> bool \<Rightarrow> go_error option \<Rightarrow> telemetry \<Rightarrow> telemetry" where
  "emit_trace_span l dur has_err err t =
     end_span \<lparr> sp_name = ''mysql'',
       sp_attrs = [(''target_type'', F_String ''mysql''), (''remote.ip'', F_String (ml_ip l)), (''remote.port'', F_Int (ml_port l)),
         (''error.flag'', F_Bool has_err), (''duration.ms'', F_Int (dur div 1000000))],
       sp_errors = (if has_err then [case err of None \<Rightarrow> [] | Some e \<Rightarrow> ge_text e] else []),
       sp_status_error = (if has_err then Some (case err of None \<Rightarrow> [] | Some e \<Rightarrow> ge_text e) else None) \<rparr> t"

text \<open>\<open>Trace\<close>: the elapsed time \<open>dur\<close> is not negative. \<open>ge_none\<close> is \<open>ErrRecordNotFound\<close>.\<close>

definition sql_trace :: "log_ctx option \<Rightarrow> mysql_logger \<Rightarrow> string \<Rightarrow> int \<Rightarrow> go_error option \<Rightarrow> telemetry \<Rightarrow> telemetry" where
  "sql_trace ctx l sql dur err t =
     (let is_slow = (0 < ml_slow_threshold l \<and> ml_slow_threshold l < dur);
          emit_err = (case err of None \<Rightarrow> False | Some e \<Rightarrow> \<not> ge_none e);
          t = emit_trace_span l dur emit_err err t;
          fs = sql_fields l sql dur is_slow
      in if emit_err then
           (if ml_level l < 2 then t
            else log_with ctx error_level ''SQL'' (fs @ [field ''_error'' (F_Error (ge_text (the err)))]) t)
         else if is_slow then (if ml_level l < 3 then t else log_with ctx warn_level ''SQL'' fs t)
         else if ml_level l < 4 then t
         else log_with ctx info_level ''SQL'' fs t)"

section \<open>Starting the SQL client\<close>

definition load_mysql_conf_from_env :: "(string \<Rightarrow> string) \<Rightarrow> bool \<Rightarrow> telemetry \<Rightarrow> string \<times> telemetry" where
  "load_mysql_conf_from_env env debug t =
     (let usr = str_or_default (env ''MYSQL_USER'') ''root'';
          pwd = str_or_default (env ''MYSQL_PASSWORD'') ''helloworld'';
          host = str_or_default (env ''MYSQL_HOST'') ''192.168.0.120'';
          port = str_or_default (env ''MYSQL_PORT'') ''3306'';
          db_name = str_or_default (env ''MYSQL_DATABASE'') ''test'';
          dsn = usr @ '':'' @ pwd @ ''@tcp('' @ host @ '':'' @ port @ '')/'' @ db_name @ ''?charset=utf8mb4&parseTime=True&loc=Local''
      in (dsn, if debug then log_at info_level ''mysql conf read'' [field ''dsn'' (F_String dsn)] t else t))"

record 'db mysql_global =
  mg_done :: bool
  mg_db :: "'db option"
  mg_pool :: "(int \<times> int) option"
  mg_log :: "string list"

text \<open>\<open>gorm_open\<close> yields an error or the handle (\<open>None\<close>: nil), \<open>sql_db\<close> the error of \<open>db.DB()\<close>.\<close>

definition init_mysql ::
  "(string \<Rightarrow> string \<Rightarrow> string) \<Rightarrow> (string, 'db option) result \<Rightarrow> ('db \<Rightarrow> string option) \<Rightarrow> ('db \<Rightarrow> string option) \<Rightarrow>
   'db mysql_global \<Rightarrow> string option \<times> 'db mysql_global" where
  "init_mysql with_message gorm_open sql_db migrate g =
     (if mg_done g then (None, g)
      else let g = g\<lparr> mg_done := True \<rparr> in
        case gorm_open of
          Inl e \<Rightarrow> (Some e, g)
        | Inr None \<Rightarrow> (Some ''mysql init failed'', g)
        | Inr (Some db) \<Rightarrow>
            let g = g\<lparr> mg_db := Some db \<rparr> in
            case sql_db db of
              Some e \<Rightarrow> (Some (with_message e ''config db''), g)
            | None \<Rightarrow>
                (migrate db, g\<lparr> mg_pool := Some (100, 200), mg_log := mg_log g @ [''mysql connected''] \<rparr>))"

section \<open>Addresses round trip\<close>

text \<open>Printable ASCII without the separators of an address.\<close>

definition host_char :: "char \<Rightarrow> bool" where
  "host_char c \<longleftrightarrow> 32 < byte c \<and> byte c < 127 \<and> c \<notin> {CHR '':'', CHR ''['', CHR '']''}"

lemma digit_printable: "is_digit c \<Longrightarrow> 32 < byte c \<and> byte c < 127 \<and> host_char c"
  by (auto simp: is_digit_def host_char_def byte_def)

lemma itoa_digits: "0 \<le> n \<Longrightarrow> list_all is_digit (itoa n)"
  using nat_digits_digits by (simp add: itoa_def)

lemma address_parts:
  assumes "list_all host_char h" "0 \<le> n"
  shows "trim_space h = h" "trim_space (h @ '':'' @ itoa n) = h @ '':'' @ itoa n" "trim_space (itoa n) = itoa n"
    "split_host_port (h @ '':'' @ itoa n) = Some (h, itoa n)"
proof -
  have n: "list_all host_char (itoa n)"
    using itoa_digits [OF assms(2)] digit_printable by (auto simp: list_all_iff)
  have p: "list_all (\<lambda>c. 32 < byte c \<and> byte c < 127) s" if "list_all host_char s" for s
    using that by (simp add: list_all_iff host_char_def)
  have colon: "list_all (\<lambda>c. 32 < byte c \<and> byte c < 127) '':''" by code_simp
  show "trim_space h = h" "trim_space (itoa n) = itoa n" by (rule trim_space_printable, rule p, fact)+
  show "trim_space (h @ '':'' @ itoa n) = h @ '':'' @ itoa n"
    by (rule trim_space_printable) (simp only: list_all_append p [OF assms(1)] p [OF n] colon)
  have sep: "c \<notin> set s" if "list_all host_char s" "\<not> host_char c" for c s
    using that by (auto simp: list_all_iff)
  have "\<not> host_char CHR '':''" "\<not> host_char CHR ''[''" "\<not> host_char CHR '']''"
    by (simp_all add: host_char_def)
  then show "split_host_port (h @ '':'' @ itoa n) = Some (h, itoa n)"
    by (intro split_host_port_plain sep assms(1) n)
qed

text \<open>The address parsers of both clients recover the host and the port of an address \<open>host:port\<close>.\<close>

lemma address_round_trip:
  assumes "list_all host_char h" "0 \<le> n" "n < 2 ^ 63"
  shows "parse_redis_addr (h @ '':'' @ itoa n) = (h, n) \<and> parse_host_port (h @ '':'' @ itoa n) = (h, n)"
proof -
  have "parse_port (itoa n) = n"
    using assms(2,3) by (simp add: parse_port_def address_parts(3) [OF assms(1,2)] atoi_itoa)
  then show ?thesis
    unfolding parse_redis_addr_def parse_host_port_def mysql_parse_port_def [folded parse_port_def] address_parts(2,4) [OF assms(1,2)] Let_def
    by (simp add: address_parts(1) [OF assms(1,2)])
qed

lemma address_round_trip_witness:
  "parse_redis_addr ''127.0.0.1:80'' = (''127.0.0.1'', 80) \<and> parse_host_port ''127.0.0.1:80'' = (''127.0.0.1'', 80)"
proof -
  have h: "list_all host_char ''127.0.0.1''" by code_simp
  have "''127.0.0.1'' @ '':'' @ itoa 80 = ''127.0.0.1:80''" by code_simp
  with address_round_trip [OF h, of 80] show ?thesis by simp
qed

section \<open>What is reported\<close>

text \<open>The Redis hook is transparent and reports each command once: it returns what the wrapped call
  returned and adds one span and one log entry. They are marked as errors exactly when the call failed
  with something else than the nil reply, and the entry has the fields of the caller's context.\<close>

lemma process_hook_reports:
  assumes "process_hook ctx h cmd dur next w t = (err, w', t')"
  shows "next w = (err, w') \<and>
    (\<exists>sp lvl fs. tl_spans t' = tl_spans t @ [sp] \<and> tl_entries t' = tl_entries t @ [(lvl, ''REDIS'', fs)] \<and>
       (lvl = error_level \<longleftrightarrow> error_flag err) \<and> (sp_status_error sp \<noteq> None \<longleftrightarrow> error_flag err) \<and>
       field ''_redis_cmd'' (F_String (command_name cmd)) \<in> set fs \<and> set (fields_from_context ctx) \<subseteq> set fs)"
  using assms
  by (auto simp: process_hook_def end_command_span_def log_command_def log_reply_def end_span_def log_at_def log_with_def
      error_flag_def is_redis_nil_reply_def Let_def split: prod.splits option.splits if_splits)

lemma process_hook_reports_witness:
  "\<exists>sp fs. process_hook None \<lparr> rh_ip = ''10.0.0.1'', rh_port = 6379 \<rparr> (Some \<lparr> rd_name = ''GET'', rd_args = [] \<rparr>) 3
      (\<lambda>n. (Some \<lparr> ge_text = ''redis: nil'', ge_none = True \<rparr>, Suc n)) 0 \<lparr> tl_spans = [], tl_entries = [] \<rparr> =
    (Some \<lparr> ge_text = ''redis: nil'', ge_none = True \<rparr>, 1, \<lparr> tl_spans = [sp], tl_entries = [(info_level, ''REDIS'', fs)] \<rparr>)"
proof -
  let ?call = "process_hook None \<lparr> rh_ip = ''10.0.0.1'', rh_port = 6379 \<rparr> (Some \<lparr> rd_name = ''GET'', rd_args = [] \<rparr>) 3
      (\<lambda>n. (Some \<lparr> ge_text = ''redis: nil'', ge_none = True \<rparr>, Suc n)) 0 \<lparr> tl_spans = [], tl_entries = [] \<rparr>"
  obtain err w' t' where c: "?call = (err, w', t')" by (rule prod_cases3)
  from process_hook_reports [OF c] obtain sp lvl fs where
    "err = Some \<lparr> ge_text = ''redis: nil'', ge_none = True \<rparr>" "w' = 1" "tl_spans t' = [sp]"
    "tl_entries t' = [(lvl, ''REDIS'', fs)]" by auto
  moreover have "fst (hd (tl_entries (snd (snd ?call)))) = info_level"
    by (simp add: process_hook_def end_command_span_def log_command_def log_reply_def end_span_def log_at_def log_with_def
        is_redis_nil_reply_def fields_from_context_def)
  ultimately show ?thesis using c by (cases t') auto
qed

text \<open>The SQL logger reports a statement with one span and at most one entry: an error entry for a
  real failure, a warning for a slow success, an info entry otherwise, and no entry when the configured
  level is below. Record-not-found is not a failure.\<close>

lemma sql_trace_severity:
  "sql_trace ctx l sql dur err t =
     (let failed = (case err of None \<Rightarrow> False | Some e \<Rightarrow> \<not> ge_none e);
          slow = (0 < ml_slow_threshold l \<and> ml_slow_threshold l < dur);
          severity = (if failed then error_level else if slow then warn_level else info_level)
      in (emit_trace_span l dur failed err t)
           \<lparr> tl_entries := tl_entries t @
               (if ml_level l < 4 - severity then []
                else [(severity, ''SQL'', fields_from_context ctx @ sql_fields l sql dur slow @
                       (if failed then [field ''_error'' (F_Error (ge_text (the err)))] else []))]) \<rparr>)"
  by (simp add: sql_trace_def emit_trace_span_def end_span_def log_at_def log_with_def Let_def)

lemma init_mysql_once:
  "fst (init_mysql wm op sd mig (snd (init_mysql wm op' sd' mig' g))) = None"
  by (auto simp: init_mysql_def Let_def split: sum.split option.split)

lemma init_mysql_logs_connected_after_failed_migration:
  "\<not> mg_done g \<Longrightarrow> sd db = None \<Longrightarrow> mig db = Some e \<Longrightarrow>
   fst (init_mysql wm (Inr (Some db)) sd mig g) = Some e \<and>
   ''mysql connected'' \<in> set (mg_log (snd (init_mysql wm (Inr (Some db)) sd mig g)))"
  by (simp add: init_mysql_def)

end
