(* ===== verification/Go_Http.thy ===== *)
theory Go_Http
  imports Go_Strings
begin

text \<open>
  What the code uses of Go's \<open>path/filepath\<close>, \<open>net/url\<close> and \<open>net/http\<close>: clean paths, the host and path of a plain
  URL, and \<open>http.ServeMux\<close> with patterns that are paths.
\<close>

section \<open>Paths\<close>

text \<open>\<open>filepath.Clean\<close> and \<open>filepath.Join\<close> on slash-separated paths.\<close>

fun clean_loop :: "bool \<Rightarrow> string list \<Rightarrow> string list \<Rightarrow> string list" where
  "clean_loop rooted stack [] = stack"
| "clean_loop rooted stack (c # cs) =
     clean_loop rooted
       (if c = [] \<or> c = ''.'' then stack
        else if c = ''..'' then
          (if stack \<noteq> [] \<and> hd stack \<noteq> ''..'' then tl stack
           else if rooted then stack else c # stack)
        else c # stack) cs"

definition path_clean :: "string \<Rightarrow> string" where
  "path_clean p =
     (let rooted = has_prefix p ''/'';
          body = join ''/'' (rev (clean_loop rooted [] (split_on CHR ''/'' p)));
          out = (if rooted then ''/'' else []) @ body
      in if out = [] then ''.'' else out)"

definition path_join :: "string \<Rightarrow> string \<Rightarrow> string" where
  "path_join a b =
     (if a = [] \<and> b = [] then []
      else if a = [] then path_clean b
      else if b = [] then path_clean a
      else path_clean (a @ ''/'' @ b))"

section \<open>URLs\<close>

text \<open>Of a URL without a query, a fragment or escapes: whether it asks for TLS, the host and the path; no other URL is described.\<close>

definition url_special :: "char set" where "url_special = {CHR ''?'', CHR ''#'', CHR ''%''}"

definition url_parts :: "string \<Rightarrow> (bool \<times> string \<times> string) option" where
  "url_parts url =
     (let rest = (if has_prefix url ''http://'' then drop 7 url else drop 8 url);
          host = takeWhile (\<lambda>c. c \<noteq> CHR ''/'') rest
      in if (has_prefix url ''http://'' \<or> has_prefix url ''https://'') \<and> host \<noteq> [] \<and> list_all (\<lambda>c. c \<notin> url_special) rest
         then Some (has_prefix url ''https://'', host, drop (length host) rest) else None)"

section \<open>The mux\<close>

type_synonym 'h mux = "(string \<times> 'h) list"

text \<open>\<open>Handle\<close> panics on a pattern that is there already.\<close>

definition mux_handle :: "string \<Rightarrow> 'h \<Rightarrow> 'h mux \<Rightarrow> (string, 'h mux) result" where
  "mux_handle pattern h mux =
     (if pattern = [] then Inl ''http: invalid pattern''
      else if map_of mux pattern \<noteq> None then Inl (''pattern conflict: '' @ pattern)
      else Inr (mux @ [(pattern, h)]))"

definition clean_url_path :: "string \<Rightarrow> string" where
  "clean_url_path p =
     (if p = [] then ''/''
      else let p = (if has_prefix p ''/'' then p else ''/'' @ p); np = path_clean p
           in if last p = CHR ''/'' \<and> np \<noteq> ''/'' then np @ ''/'' else np)"

text \<open>The handler of the pattern that is the path, or else of the longest subtree that has the path in it.\<close>

definition longer :: "string \<times> 'h \<Rightarrow> (string \<times> 'h) option \<Rightarrow> (string \<times> 'h) option" where
  "longer e best = (case best of None \<Rightarrow> Some e | Some b \<Rightarrow> if length (fst b) < length (fst e) then Some e else best)"

definition mux_match :: "'h mux \<Rightarrow> string \<Rightarrow> 'h option" where
  "mux_match mux path =
     (case map_of mux path of
        Some h \<Rightarrow> Some h
      | None \<Rightarrow> map_option snd (fold longer [(p, h) \<leftarrow> mux. last p = CHR ''/'' \<and> has_prefix path p] None))"

text \<open>An unclean path is redirected to the clean one, the root of a subtree without its slash to the one with it.\<close>

datatype 'h mux_reply = Served 'h | Moved string | Not_Found

definition mux_dispatch :: "'h mux \<Rightarrow> string \<Rightarrow> 'h mux_reply" where
  "mux_dispatch mux path =
     (let clean = clean_url_path path
      in if map_of mux clean = None \<and> last clean \<noteq> CHR ''/'' \<and> map_of mux (clean @ ''/'') \<noteq> None then Moved (clean @ ''/'')
         else if clean \<noteq> path then Moved clean
         else case mux_match mux clean of None \<Rightarrow> Not_Found | Some h \<Rightarrow> Served h)"

text \<open>A handler that answers by the path, or not at all (\<open>http.NotFound\<close>).\<close>

definition serve_http :: "(string \<Rightarrow> 'u option) mux \<Rightarrow> string \<Rightarrow> 'u mux_reply" where
  "serve_http mux path =
     (case mux_dispatch mux path of
        Served h \<Rightarrow> (case h path of None \<Rightarrow> Not_Found | Some u \<Rightarrow> Served u)
      | Moved p \<Rightarrow> Moved p
      | Not_Found \<Rightarrow> Not_Found)"

section \<open>Lemmas\<close>

lemma mux_handle_ok:
  "mux_handle pattern h mux = Inr mux' \<longleftrightarrow> pattern \<noteq> [] \<and> map_of mux pattern = None \<and> mux' = mux @ [(pattern, h)]"
  by (auto simp: mux_handle_def)

lemma serve_http_clean: "serve_http mux path = Served u \<Longrightarrow> clean_url_path path = path"
  by (auto simp: serve_http_def mux_dispatch_def Let_def split: mux_reply.splits option.splits if_splits)

lemma serve_http_handler:
  assumes "clean_url_path path = path" "map_of mux path \<noteq> None \<or> last path = CHR ''/'' \<or> map_of mux (path @ ''/'') = None"
  shows "serve_http mux path =
    (case Option.bind (mux_match mux path) (\<lambda>h. h path) of None \<Rightarrow> Not_Found | Some u \<Rightarrow> Served u)"
  using assms by (auto simp: serve_http_def mux_dispatch_def Let_def split: option.splits)

lemma serve_http_served:
  assumes "serve_http mux path = Served u"
  shows "\<exists>h. mux_match mux path = Some h \<and> h path = Some u"
  using assms serve_http_clean [OF assms]
  by (auto simp: serve_http_def mux_dispatch_def Let_def split: mux_reply.splits option.splits if_splits)

lemma url_parts_plain:
  assumes "host \<noteq> []" "CHR ''/'' \<notin> set host" "list_all (\<lambda>c. c \<notin> url_special) host"
    and "list_all (\<lambda>c. c \<notin> url_special) path" "scheme \<in> {''http://'', ''https://''}"
  shows "url_parts (scheme @ host @ CHR ''/'' # path) = Some (scheme = ''https://'', host, CHR ''/'' # path)"
proof -
  have t: "takeWhile (\<lambda>c. c \<noteq> CHR ''/'') (host @ CHR ''/'' # path) = host" using assms(2) by (subst takeWhile_append2) auto
  show ?thesis using assms by (auto simp: url_parts_def Let_def t url_special_def)
qed

end
