(* ===== verification/Pprof.thy ===== *)
theory Pprof
  imports Client_Hooks Go_Http
begin

text \<open>
  The profiling manager of \<open>infra/pprof.go\<close>. The process is a record of what the manager can change:
  the files that exist, the open handles, whether the CPU profiler runs, the addresses listened on
  the failure counter (one label per increment) and the log. What the operating system answers is the
  environment of a call. A path is its text; a time is its text in the layout of the file names.

  \<open>Start\<close> and \<open>Stop\<close> change the state word by an atomic compare-and-swap before they take the mutex, so
  a call is two atomic steps: the swap and the locked body. The first half of the theory runs calls
  one after the other, the second half interleaves the steps of concurrent calls.
\<close>

section \<open>The process\<close>

record pprof_world =
  pw_files :: "string set"
  pw_open :: "string list"
  pw_profiling :: bool
  pw_listening :: "string list"
  pw_failures :: "string list"
  pw_telemetry :: telemetry

definition create_file :: "string \<Rightarrow> pprof_world \<Rightarrow> pprof_world" where
  "create_file path w = w\<lparr> pw_files := insert path (pw_files w), pw_open := path # pw_open w \<rparr>"

definition close_file :: "string \<Rightarrow> pprof_world \<Rightarrow> pprof_world" where
  "close_file path w = w\<lparr> pw_open := remove1 path (pw_open w) \<rparr>"

definition remove_file :: "string \<Rightarrow> pprof_world \<Rightarrow> pprof_world" where
  "remove_file path w = w\<lparr> pw_files := pw_files w - {path} \<rparr>"

definition rename_file :: "string \<Rightarrow> string \<Rightarrow> pprof_world \<Rightarrow> pprof_world" where
  "rename_file old new w = w\<lparr> pw_files := insert new (pw_files w - {old}) \<rparr>"

text \<open>\<open>runtime/pprof.StartCPUProfile\<close> fails while a profile is running.\<close>

definition start_cpu_profile :: "pprof_world \<Rightarrow> (string, pprof_world) result" where
  "start_cpu_profile w =
     (if pw_profiling w then Inl ''cpu profiling already in use'' else Inr (w\<lparr> pw_profiling := True \<rparr>))"

definition stop_cpu_profile :: "pprof_world \<Rightarrow> pprof_world" where
  "stop_cpu_profile w = w\<lparr> pw_profiling := False \<rparr>"

text \<open>\<open>net.Listen\<close>: the environment says which address the name is bound to, or the error; an address
  that is listened on cannot be bound again.\<close>

definition listen :: "(string, string) result \<Rightarrow> pprof_world \<Rightarrow> (string, string \<times> pprof_world) result" where
  "listen answer w =
     (case answer of
        Inl e \<Rightarrow> Inl e
      | Inr a \<Rightarrow> if a \<in> set (pw_listening w) then Inl ''bind: address already in use''
                else Inr (a, w\<lparr> pw_listening := a # pw_listening w \<rparr>))"

definition shut_listener :: "string \<Rightarrow> pprof_world \<Rightarrow> pprof_world" where
  "shut_listener a w = w\<lparr> pw_listening := remove1 a (pw_listening w) \<rparr>"

definition count_failure :: "string \<Rightarrow> pprof_world \<Rightarrow> pprof_world" where
  "count_failure profile w = w\<lparr> pw_failures := pw_failures w @ [profile] \<rparr>"

definition pprof_log :: "level \<Rightarrow> string \<Rightarrow> log_field list \<Rightarrow> pprof_world \<Rightarrow> pprof_world" where
  "pprof_log lvl msg fs w = w\<lparr> pw_telemetry := log_at lvl msg fs (pw_telemetry w) \<rparr>"

lemma pprof_log_keeps [simp]:
  "pw_files (pprof_log lvl msg fs w) = pw_files w" "pw_open (pprof_log lvl msg fs w) = pw_open w"
  "pw_profiling (pprof_log lvl msg fs w) = pw_profiling w" "pw_listening (pprof_log lvl msg fs w) = pw_listening w"
  "pw_failures (pprof_log lvl msg fs w) = pw_failures w"
  by (simp_all add: pprof_log_def)

section \<open>The manager\<close>

datatype pprof_state = Stopped | Running | Dumping

definition state_string :: "pprof_state \<Rightarrow> string" where
  "state_string s = (case s of Running \<Rightarrow> ''running'' | Dumping \<Rightarrow> ''dumping'' | Stopped \<Rightarrow> ''stopped'')"

record dynamic_pprof =
  dp_addr :: string
  dp_app_name :: string
  dp_dump_dir :: string
  dp_state :: pprof_state
  dp_server :: "string option"
  dp_started_at :: string
  dp_cpu_file :: "string option"
  dp_cpu_tmp :: string

definition state_text :: "dynamic_pprof \<Rightarrow> string" where
  "state_text m = state_string (dp_state m)"

definition zero_time :: string where "zero_time = ''00010101-000000''"

definition new_dynamic_pprof :: "string \<Rightarrow> string \<Rightarrow> string \<Rightarrow> dynamic_pprof" where
  "new_dynamic_pprof addr app_env dump_dir =
     \<lparr> dp_addr = str_or_default (trim_space addr) '':6060'',
       dp_app_name = trim_space app_env,
       dp_dump_dir = str_or_default (trim_space dump_dir) ''/tmp'',
       dp_state = Stopped, dp_server = None, dp_started_at = zero_time, dp_cpu_file = None, dp_cpu_tmp = [] \<rparr>"

definition profile_path :: "dynamic_pprof \<Rightarrow> string \<Rightarrow> string \<Rightarrow> string" where
  "profile_path m started_at profile =
     path_join (dp_dump_dir m) (''pprof-'' @ dp_app_name m @ ''-'' @ started_at @ ''-'' @ profile @ ''.prof'')"

definition tmp_cpu_profile_path :: "dynamic_pprof \<Rightarrow> string \<Rightarrow> string" where
  "tmp_cpu_profile_path m started_at =
     path_join (dp_dump_dir m) (''pprof-'' @ dp_app_name m @ ''-'' @ started_at @ ''-'' @ ''cpu'' @ ''.tmp'')"

text \<open>What the system answers during a \<open>Start\<close>.\<close>

record start_env =
  se_stamp :: string
  se_mkdir :: "string option"
  se_create :: "string option"
  se_listen :: "(string, string) result"

definition swap_state :: "pprof_state \<Rightarrow> pprof_state \<Rightarrow> dynamic_pprof \<Rightarrow> dynamic_pprof option" where
  "swap_state old new m = (if dp_state m = old then Some (m\<lparr> dp_state := new \<rparr>) else None)"

definition start_body ::
  "start_env \<Rightarrow> dynamic_pprof \<Rightarrow> pprof_world \<Rightarrow> (bool \<times> string option) \<times> dynamic_pprof \<times> pprof_world" where
  "start_body env m w =
     (case se_mkdir env of Some e \<Rightarrow> ((False, Some e), m\<lparr> dp_state := Stopped \<rparr>, w) | None \<Rightarrow>
        let tmp = tmp_cpu_profile_path m (se_stamp env) in
        case se_create env of Some e \<Rightarrow> ((False, Some e), m\<lparr> dp_state := Stopped \<rparr>, w) | None \<Rightarrow>
          let w = create_file tmp w in
          case start_cpu_profile w of
            Inl e \<Rightarrow> ((False, Some e), m\<lparr> dp_state := Stopped \<rparr>, remove_file tmp (close_file tmp w))
          | Inr w \<Rightarrow>
              case listen (se_listen env) w of
                Inl e \<Rightarrow> ((False, Some e), m\<lparr> dp_state := Stopped \<rparr>,
                          remove_file tmp (close_file tmp (stop_cpu_profile w)))
              | Inr (bound, w) \<Rightarrow>
                  ((True, None),
                   m\<lparr> dp_server := Some bound, dp_started_at := se_stamp env,
                      dp_cpu_file := Some tmp, dp_cpu_tmp := tmp \<rparr>,
                   pprof_log info_level ''pprof started''
                     [field ''addr'' (F_String bound), field ''app'' (F_String (dp_app_name m)), field ''cpu_profile_tmp'' (F_String tmp)] w))"

definition start ::
  "start_env \<Rightarrow> dynamic_pprof \<Rightarrow> pprof_world \<Rightarrow> (bool \<times> string option) \<times> dynamic_pprof \<times> pprof_world" where
  "start env m w =
     (case swap_state Stopped Running m of
        None \<Rightarrow> ((False, None), m, w)
      | Some m \<Rightarrow> start_body env m w)"

record dump_env =
  de_found :: bool
  de_create :: "string option"
  de_write :: "string option"

record stop_env =
  xe_shutdown :: "string option"
  xe_close :: "string option"
  xe_rename :: "string option"
  xe_heap :: dump_env
  xe_goroutine :: dump_env

definition dump_named_profile ::
  "dynamic_pprof \<Rightarrow> string \<Rightarrow> string \<Rightarrow> dump_env \<Rightarrow> pprof_world \<Rightarrow> (string, string) result \<times> pprof_world" where
  "dump_named_profile m name started_at env w =
     (if \<not> de_found env then (Inl (name @ '' profile not found''), count_failure name w)
      else let path = profile_path m started_at name in
        case de_create env of Some e \<Rightarrow> (Inl e, count_failure name w) | None \<Rightarrow>
          let w = create_file path w in
          case de_write env of
            Some e \<Rightarrow> (Inl e, close_file path (remove_file path (count_failure name w)))
          | None \<Rightarrow> (Inr path, close_file path w))"

record stop_result =
  sr_changed :: bool
  sr_state :: string
  sr_dumped_files :: "string list"

text \<open>A stage of \<open>Stop\<close> yields its errors, the files it dumped and the process.\<close>

type_synonym stage = "string list \<times> string list \<times> pprof_world"

definition shutdown_stage :: "string option \<Rightarrow> string option \<Rightarrow> pprof_world \<Rightarrow> stage" where
  "shutdown_stage server answer w =
     (case server of None \<Rightarrow> ([], [], w)
      | Some a \<Rightarrow> (case answer of None \<Rightarrow> [] | Some e \<Rightarrow> [e], [], shut_listener a w))"

definition cpu_stage ::
  "dynamic_pprof \<Rightarrow> string \<Rightarrow> string option \<Rightarrow> string \<Rightarrow> stop_env \<Rightarrow> pprof_world \<Rightarrow> stage" where
  "cpu_stage m started_at cpu_file cpu_tmp env w =
     (case cpu_file of None \<Rightarrow> ([], [], w)
      | Some f \<Rightarrow>
          let w = close_file f (stop_cpu_profile w) in
          case xe_close env of Some e \<Rightarrow> ([''close cpu profile: '' @ e], [], count_failure ''cpu'' w) | None \<Rightarrow>
            let final = profile_path m started_at ''cpu'' in
            case xe_rename env of Some e \<Rightarrow> ([''rename cpu profile: '' @ e], [], count_failure ''cpu'' w)
            | None \<Rightarrow> ([], [final], rename_file cpu_tmp final w))"

definition named_stage ::
  "dynamic_pprof \<Rightarrow> string \<Rightarrow> string \<Rightarrow> dump_env \<Rightarrow> pprof_world \<Rightarrow> stage" where
  "named_stage m name started_at env w =
     (case dump_named_profile m name started_at env w of
        (Inl e, w) \<Rightarrow> ([e], [], w) | (Inr path, w) \<Rightarrow> ([], [path], w))"

definition then_stage :: "stage \<Rightarrow> (pprof_world \<Rightarrow> stage) \<Rightarrow> stage" where
  "then_stage a f = (case a of (es, ds, w) \<Rightarrow> case f w of (es', ds', w) \<Rightarrow> (es @ es', ds @ ds', w))"

definition stop_body ::
  "stop_env \<Rightarrow> dynamic_pprof \<Rightarrow> pprof_world \<Rightarrow> (stop_result \<times> string list) \<times> dynamic_pprof \<times> pprof_world" where
  "stop_body env m w =
     (let started_at = dp_started_at m; server = dp_server m; cpu_file = dp_cpu_file m; cpu_tmp = dp_cpu_tmp m;
          m = m\<lparr> dp_server := None, dp_cpu_file := None, dp_cpu_tmp := [], dp_started_at := zero_time \<rparr>;
          st = shutdown_stage server (xe_shutdown env) w;
          st = then_stage st (cpu_stage m started_at cpu_file cpu_tmp env);
          st = then_stage st (named_stage m ''heap'' started_at (xe_heap env));
          st = then_stage st (named_stage m ''goroutine'' started_at (xe_goroutine env))
      in case st of (errs, dumped, w) \<Rightarrow>
        ((\<lparr> sr_changed = True, sr_state = state_string Stopped, sr_dumped_files = dumped \<rparr>, errs),
         m\<lparr> dp_state := Stopped \<rparr>,
         if errs \<noteq> []
         then pprof_log error_level ''pprof stopped with dump errors''
           [field ''dumped_files'' (F_Strings dumped), field ''error'' (F_Error (join [CHR 0x0A] errs))] w
         else pprof_log info_level ''pprof stopped'' [field ''dumped_files'' (F_Strings dumped)] w))"

definition stop ::
  "stop_env \<Rightarrow> dynamic_pprof \<Rightarrow> pprof_world \<Rightarrow> (stop_result \<times> string list) \<times> dynamic_pprof \<times> pprof_world" where
  "stop env m w =
     (case swap_state Running Dumping m of
        None \<Rightarrow> ((\<lparr> sr_changed = False, sr_state = state_text m, sr_dumped_files = [] \<rparr>, []), m, w)
      | Some m \<Rightarrow> stop_body env m w)"

section \<open>The control handlers\<close>

record control_response =
  cr_state :: string
  cr_changed :: bool
  cr_addr :: string
  cr_dumped_files :: "string list"
  cr_error :: string

datatype http_reply = Method_Not_Allowed | Json int control_response

definition allow_pprof_control_method :: "string \<Rightarrow> bool" where
  "allow_pprof_control_method meth = (meth = ''GET'' \<or> meth = ''POST'')"

definition handle_start ::
  "string \<Rightarrow> start_env \<Rightarrow> dynamic_pprof \<Rightarrow> pprof_world \<Rightarrow> http_reply \<times> dynamic_pprof \<times> pprof_world" where
  "handle_start meth env m w =
     (if \<not> allow_pprof_control_method meth then (Method_Not_Allowed, m, w)
      else case start env m w of ((changed, err), m, w) \<Rightarrow>
        (Json (if err = None then 200 else 500)
           \<lparr> cr_state = state_text m, cr_changed = changed, cr_addr = dp_addr m,
             cr_dumped_files = [], cr_error = (case err of None \<Rightarrow> [] | Some e \<Rightarrow> e) \<rparr>, m, w))"

definition handle_stop ::
  "string \<Rightarrow> stop_env \<Rightarrow> dynamic_pprof \<Rightarrow> pprof_world \<Rightarrow> http_reply \<times> dynamic_pprof \<times> pprof_world" where
  "handle_stop meth env m w =
     (if \<not> allow_pprof_control_method meth then (Method_Not_Allowed, m, w)
      else case stop env m w of ((result, errs), m, w) \<Rightarrow>
        (Json (if errs = [] then 200 else 500)
           \<lparr> cr_state = sr_state result, cr_changed = sr_changed result, cr_addr = [],
             cr_dumped_files = sr_dumped_files result, cr_error = join [CHR 0x0A] errs \<rparr>, m, w))"

text \<open>The routes that \<open>RegisterHandlers\<close> adds to a mux (\<open>None\<close>: a nil one).\<close>

definition register_handlers :: "'h \<Rightarrow> 'h \<Rightarrow> 'h mux option \<Rightarrow> (string, 'h mux option) result" where
  "register_handlers on_start on_stop mux =
     (case mux of None \<Rightarrow> Inr None
      | Some mux \<Rightarrow>
          (case mux_handle ''/pprof/start'' on_start mux of Inl p \<Rightarrow> Inl p
           | Inr mux \<Rightarrow>
               (case mux_handle ''/pprof/stop'' on_stop mux of Inl p \<Rightarrow> Inl p
                | Inr mux \<Rightarrow> Inr (Some mux))))"

section \<open>Accounting of resources\<close>

definition opt_list :: "'a option \<Rightarrow> 'a list" where
  "opt_list x = (case x of None \<Rightarrow> [] | Some a \<Rightarrow> [a])"

lemma opt_list_simps [simp]: "opt_list None = []" "opt_list (Some a) = [a]"
  by (simp_all add: opt_list_def)

text \<open>Beyond the addresses \<open>ls\<close> and the handles \<open>os\<close> of the rest of the process, the listeners, open
  files and the CPU profile are exactly those the manager refers to.\<close>

definition accounted :: "string list \<Rightarrow> string list \<Rightarrow> dynamic_pprof \<Rightarrow> pprof_world \<Rightarrow> bool" where
  "accounted ls os m w \<longleftrightarrow>
     mset (pw_listening w) = mset ls + mset (opt_list (dp_server m)) \<and>
     mset (pw_open w) = mset os + mset (opt_list (dp_cpu_file m)) \<and>
     pw_profiling w = (dp_cpu_file m \<noteq> None) \<and> (dp_server m = None \<longleftrightarrow> dp_cpu_file m = None)"

lemmas world_ops = create_file_def close_file_def remove_file_def rename_file_def stop_cpu_profile_def
  shut_listener_def count_failure_def

lemma start_body_accounted:
  assumes "accounted ls os m w" "start_body env m w = (r, m', w')"
  shows "accounted ls os m' w'"
  using assms
  by (auto simp: start_body_def accounted_def world_ops start_cpu_profile_def listen_def Let_def
      split: option.splits sum.splits if_splits)

lemma named_stage_effect:
  assumes "named_stage m name t env w = (es, ds, w')"
  shows "pw_listening w' = pw_listening w \<and> mset (pw_open w') = mset (pw_open w) \<and> pw_profiling w' = pw_profiling w"
  using assms by (auto simp: named_stage_def dump_named_profile_def world_ops Let_def split: option.splits if_splits)

lemma cpu_stage_effect:
  assumes "cpu_stage m t cpu_file tmp env w = (es, ds, w')" "mset (pw_open w) = mset os + mset (opt_list cpu_file)"
    "pw_profiling w = (cpu_file \<noteq> None)"
  shows "pw_listening w' = pw_listening w \<and> mset (pw_open w') = mset os \<and> \<not> pw_profiling w'"
  using assms by (auto simp: cpu_stage_def world_ops Let_def split: option.splits)

lemma shutdown_stage_effect:
  assumes "shutdown_stage server answer w = (es, ds, w')" "mset (pw_listening w) = mset ls + mset (opt_list server)"
  shows "mset (pw_listening w') = mset ls \<and> pw_open w' = pw_open w \<and> pw_profiling w' = pw_profiling w \<and>
    pw_files w' = pw_files w \<and> pw_failures w' = pw_failures w \<and> ds = [] \<and> length es \<le> 1"
  using assms by (auto simp: shutdown_stage_def world_ops split: option.splits)

lemma stop_body_accounted:
  assumes "accounted ls os m w" "stop_body env m w = (r, m', w')"
  shows "accounted ls os m' w' \<and> dp_server m' = None \<and> dp_cpu_file m' = None \<and> dp_state m' = Stopped"
proof -
  let ?m = "m\<lparr> dp_server := None, dp_cpu_file := None, dp_cpu_tmp := [], dp_started_at := zero_time \<rparr>"
  obtain es1 ds1 w1 where 1: "shutdown_stage (dp_server m) (xe_shutdown env) w = (es1, ds1, w1)" by (rule prod_cases3)
  obtain es2 ds2 w2 where 2: "cpu_stage ?m (dp_started_at m) (dp_cpu_file m) (dp_cpu_tmp m) env w1 = (es2, ds2, w2)"
    by (rule prod_cases3)
  obtain es3 ds3 w3 where 3: "named_stage ?m ''heap'' (dp_started_at m) (xe_heap env) w2 = (es3, ds3, w3)"
    by (rule prod_cases3)
  obtain es4 ds4 w4 where 4: "named_stage ?m ''goroutine'' (dp_started_at m) (xe_goroutine env) w3 = (es4, ds4, w4)"
    by (rule prod_cases3)
  have m': "m' = ?m\<lparr> dp_state := Stopped \<rparr>"
    using assms(2) by (simp add: stop_body_def Let_def 1 2 3 4 then_stage_def)
  have w': "pw_listening w' = pw_listening w4" "pw_open w' = pw_open w4" "pw_profiling w' = pw_profiling w4"
    using assms(2) by (auto simp: stop_body_def Let_def 1 2 3 4 then_stage_def split: if_splits)
  have "mset (pw_listening w1) = mset ls \<and> pw_open w1 = pw_open w \<and> pw_profiling w1 = pw_profiling w"
    using shutdown_stage_effect [OF 1] assms(1) by (auto simp: accounted_def)
  moreover from this have "pw_listening w2 = pw_listening w1 \<and> mset (pw_open w2) = mset os \<and> \<not> pw_profiling w2"
    using cpu_stage_effect [OF 2, of os] assms(1) by (auto simp: accounted_def)
  moreover have "pw_listening w4 = pw_listening w2 \<and> mset (pw_open w4) = mset (pw_open w2) \<and>
      pw_profiling w4 = pw_profiling w2"
    using named_stage_effect [OF 3] named_stage_effect [OF 4] by simp
  ultimately show ?thesis by (simp add: m' w' accounted_def)
qed

section \<open>One call after the other\<close>

datatype pprof_call = Call_Start start_env | Call_Stop stop_env

fun run_call :: "pprof_call \<Rightarrow> dynamic_pprof \<times> pprof_world \<Rightarrow> dynamic_pprof \<times> pprof_world" where
  "run_call (Call_Start env) (m, w) = snd (start env m w)"
| "run_call (Call_Stop env) (m, w) = snd (stop env m w)"

definition settled :: "string list \<Rightarrow> string list \<Rightarrow> dynamic_pprof \<Rightarrow> pprof_world \<Rightarrow> bool" where
  "settled ls os m w \<longleftrightarrow> accounted ls os m w \<and>
     (dp_state m = Running \<and> dp_server m \<noteq> None \<or> dp_state m = Stopped \<and> dp_server m = None)"

lemma start_body_state:
  assumes "start_body env m w = (r, m', w')"
  shows "r = (True, None) \<and> dp_state m' = dp_state m \<and> dp_server m' \<noteq> None \<and> \<not> pw_profiling w \<or>
    (\<exists>e. r = (False, Some e)) \<and> m' = m\<lparr> dp_state := Stopped \<rparr> \<and> pw_files w' \<subseteq> pw_files w"
  using assms
  by (auto simp: start_body_def world_ops start_cpu_profile_def listen_def Let_def
      split: option.splits sum.splits if_splits)

lemma accounted_state [simp]: "accounted ls os (m\<lparr> dp_state := s \<rparr>) w = accounted ls os m w"
  by (simp add: accounted_def)

lemma start_settled:
  assumes "settled ls os m w" "start env m w = (r, m', w')"
  shows "settled ls os m' w'"
proof (cases "dp_state m = Stopped")
  case True
  then have b: "start_body env (m\<lparr> dp_state := Running \<rparr>) w = (r, m', w')"
    using assms(2) by (simp add: start_def swap_state_def)
  with start_body_accounted [OF _ b, of ls os] start_body_state [OF b] assms(1) True show ?thesis
    by (auto simp: settled_def)
next
  case False
  with assms show ?thesis by (simp add: start_def swap_state_def)
qed

lemma stop_settled:
  assumes "settled ls os m w" "stop env m w = (r, m', w')"
  shows "settled ls os m' w'"
proof (cases "dp_state m = Running")
  case True
  then have b: "stop_body env (m\<lparr> dp_state := Dumping \<rparr>) w = (r, m', w')"
    using assms(2) by (simp add: stop_def swap_state_def)
  with stop_body_accounted [OF _ b, of ls os] assms(1) show ?thesis by (simp add: settled_def)
next
  case False
  with assms show ?thesis by (simp add: stop_def swap_state_def)
qed

lemma run_call_settled: "settled ls os m w \<Longrightarrow> run_call c (m, w) = (m', w') \<Longrightarrow> settled ls os m' w'"
  by (cases c) (auto dest: start_settled stop_settled split: prod.splits simp: prod_eq_iff)

lemma fold_calls_settled: "settled ls os m w \<Longrightarrow> fold run_call cs (m, w) = (m', w') \<Longrightarrow> settled ls os m' w'"
proof (induction cs arbitrary: m w)
  case (Cons c cs)
  obtain m1 w1 where "run_call c (m, w) = (m1, w1)" by fastforce
  with Cons show ?case using run_call_settled by fastforce
qed simp

text \<open>Whatever sequence of \<open>Start\<close> and \<open>Stop\<close> calls is made one after the other, and whatever the
  system answers, the manager is running exactly when it holds a server, it is never left dumping, and
  the process has no listener, open file or CPU profile that the manager does not refer to.\<close>

lemma pprof_sequential_accounts:
  assumes "fold run_call calls (new_dynamic_pprof addr app dir, w\<lparr> pw_profiling := False \<rparr>) = (m', w')"
  shows "accounted (pw_listening w) (pw_open w) m' w' \<and>
    (dp_state m' = Running \<and> dp_server m' \<noteq> None \<or> dp_state m' = Stopped \<and> dp_server m' = None)"
proof -
  have "settled (pw_listening w) (pw_open w) (new_dynamic_pprof addr app dir) (w\<lparr> pw_profiling := False \<rparr>)"
    by (simp add: settled_def accounted_def new_dynamic_pprof_def)
  from fold_calls_settled [OF this assms] show ?thesis by (simp add: settled_def)
qed

section \<open>Names of the dumped files\<close>

lemma split_on_plain: "d \<notin> set s \<Longrightarrow> split_on d s = [s]"
  by (induction s) auto

lemma split_on_tail: "d \<notin> set s \<Longrightarrow> split_on d (pre @ s) = butlast (split_on d pre) @ [last (split_on d pre) @ s]"
proof (induction pre)
  case Nil
  then show ?case by (simp add: split_on_plain)
next
  case (Cons c cs)
  obtain f fs where f: "split_on d cs = f # fs" by (cases "split_on d cs") auto
  with Cons show ?case by (cases fs) auto
qed

lemma join_snoc: "join sep (xs @ [x]) = (if xs = [] then x else join sep xs @ sep @ x)"
  by (induction sep xs rule: join.induct) auto

lemma clean_loop_snoc:
  "2 < length c \<Longrightarrow> clean_loop rooted stack (cs @ [c]) = c # clean_loop rooted stack cs"
  by (induction rooted stack cs rule: clean_loop.induct) auto

text \<open>Cleaning leaves the tail of the last component alone.\<close>

lemma path_clean_tail:
  assumes "pre \<noteq> []"
  shows "\<exists>R. \<forall>s. CHR ''/'' \<notin> set s \<and> 2 < length s \<longrightarrow> path_clean (pre @ s) = R @ s"
proof -
  let ?rooted = "has_prefix pre ''/''" and ?l = "last (split_on CHR ''/'' pre)"
  let ?stack = "rev (clean_loop ?rooted [] (butlast (split_on CHR ''/'' pre)))"
  let ?R = "(if ?rooted then ''/'' else []) @ (if ?stack = [] then ?l else join ''/'' ?stack @ ''/'' @ ?l)"
  have "path_clean (pre @ s) = ?R @ s" if s: "CHR ''/'' \<notin> set s" "2 < length s" for s
  proof -
    have "has_prefix (pre @ s) ''/'' = ?rooted" using assms by (cases pre) simp_all
    moreover have "2 < length (?l @ s)" using s(2) by simp
    ultimately have "clean_loop (has_prefix (pre @ s) ''/'') [] (split_on CHR ''/'' (pre @ s)) =
        (?l @ s) # clean_loop ?rooted [] (butlast (split_on CHR ''/'' pre))"
      by (simp only: split_on_tail [OF s(1)] clean_loop_snoc)
    then show ?thesis using s(2) assms \<open>has_prefix (pre @ s) ''/'' = ?rooted\<close>
      by (auto simp: path_clean_def Let_def join_snoc)
  qed
  then show ?thesis by blast
qed

lemma profile_path_tail:
  "\<exists>R. \<forall>p. CHR ''/'' \<notin> set p \<longrightarrow> profile_path m t p = R @ p @ ''.prof''"
proof -
  let ?pre = "(if dp_dump_dir m = [] then [] else dp_dump_dir m @ ''/'') @ ''pprof-'' @ dp_app_name m @ ''-'' @ t @ ''-''"
  obtain R where R: "\<And>s. CHR ''/'' \<notin> set s \<Longrightarrow> 2 < length s \<Longrightarrow> path_clean (?pre @ s) = R @ s"
    using path_clean_tail [of ?pre] by auto
  have "profile_path m t p = R @ p @ ''.prof''" if "CHR ''/'' \<notin> set p" for p
    using R [of "p @ ''.prof''"] that
    by (cases "dp_dump_dir m = []") (simp_all add: profile_path_def path_join_def)
  then show ?thesis by blast
qed

lemma profile_paths_distinct:
  "distinct [profile_path m t ''cpu'', profile_path m t ''heap'', profile_path m t ''goroutine'']"
proof -
  obtain R where "\<And>p. CHR ''/'' \<notin> set p \<Longrightarrow> profile_path m t p = R @ p @ ''.prof''"
    using profile_path_tail by blast
  then show ?thesis by simp
qed

section \<open>What \<open>Stop\<close> leaves behind\<close>

text \<open>A stage dumps a file or counts a failure.\<close>

definition dumps_or_counts :: "string \<Rightarrow> string \<Rightarrow> pprof_world \<Rightarrow> stage \<Rightarrow> bool" where
  "dumps_or_counts path label w st =
     (case st of (es, ds, w') \<Rightarrow>
        es = [] \<and> ds = [path] \<and> path \<in> pw_files w' \<and> pw_failures w' = pw_failures w \<or>
        es \<noteq> [] \<and> ds = [] \<and> pw_failures w' = pw_failures w @ [label])"

lemma named_stage_dumps:
  "dumps_or_counts (profile_path m t name) name w (named_stage m name t env w)"
  by (auto simp: dumps_or_counts_def named_stage_def dump_named_profile_def world_ops Let_def split: option.split)

lemma named_stage_files:
  "named_stage m name t env w = (es, ds, w') \<Longrightarrow> x \<in> pw_files w \<Longrightarrow> x \<noteq> profile_path m t name \<Longrightarrow> x \<in> pw_files w'"
  by (auto simp: named_stage_def dump_named_profile_def world_ops Let_def split: option.splits if_splits)

lemma cpu_stage_dumps:
  "cpu_file \<noteq> None \<Longrightarrow> dumps_or_counts (profile_path m t ''cpu'') ''cpu'' w (cpu_stage m t cpu_file tmp env w)"
  by (auto simp: dumps_or_counts_def cpu_stage_def world_ops Let_def split: option.split)

lemma stage_silent:
  "shutdown_stage server answer w = (es, ds, w') \<Longrightarrow> pw_telemetry w' = pw_telemetry w"
  "cpu_stage m t cpu_file tmp env w = (es, ds, w') \<Longrightarrow> pw_telemetry w' = pw_telemetry w"
  "named_stage m name t denv w = (es, ds, w') \<Longrightarrow> pw_telemetry w' = pw_telemetry w"
  by (auto simp: shutdown_stage_def cpu_stage_def named_stage_def dump_named_profile_def world_ops Let_def
      split: option.splits prod.splits sum.splits if_splits)

text \<open>C6: stopping a running manager always ends it: the profile is off, the listener and the handles are
  given back and the state is stopped even if every step fails. Each of the three profiles is either
  left on disk under its own name and reported, or counted as a failure; the error is nil exactly when
  nothing was counted and the server shut down cleanly, and the one entry is an error exactly if there was one.\<close>

theorem stop_releases_everything:
  assumes "settled ls os m w" "dp_state m = Running" "stop env m w = ((result, errs), m', w')"
  shows "sr_changed result \<and> sr_state result = ''stopped'' \<and> dp_state m' = Stopped \<and> dp_server m' = None \<and>
    \<not> pw_profiling w' \<and> mset (pw_listening w') = mset ls \<and> mset (pw_open w') = mset os \<and>
    set (sr_dumped_files result) \<subseteq> pw_files w' \<and> distinct (sr_dumped_files result) \<and>
    (\<exists>failed. pw_failures w' = pw_failures w @ failed \<and> length (sr_dumped_files result) + length failed = 3 \<and>
       (errs = [] \<longleftrightarrow> failed = [] \<and> xe_shutdown env = None)) \<and>
    (\<exists>lvl msg fs. pw_telemetry w' = log_at lvl msg fs (pw_telemetry w) \<and> (lvl = error_level \<longleftrightarrow> errs \<noteq> []))"
proof -
  let ?m = "m\<lparr> dp_state := Dumping, dp_server := None, dp_cpu_file := None, dp_cpu_tmp := [], dp_started_at := zero_time \<rparr>"
  let ?t = "dp_started_at m"
  obtain a f where af: "dp_server m = Some a" "dp_cpu_file m = Some f"
    using assms(1,2) by (auto simp: settled_def accounted_def)
  have b: "stop_body env (m\<lparr> dp_state := Dumping \<rparr>) w = ((result, errs), m', w')"
    using assms(2,3) by (simp add: stop_def swap_state_def)
  have acc: "accounted ls os m' w' \<and> dp_server m' = None \<and> dp_cpu_file m' = None \<and> dp_state m' = Stopped"
    by (rule stop_body_accounted [OF _ b]) (use assms(1) in \<open>simp add: settled_def\<close>)
  obtain es1 ds1 w1 where 1: "shutdown_stage (dp_server m) (xe_shutdown env) w = (es1, ds1, w1)" by (rule prod_cases3)
  obtain es2 ds2 w2 where 2: "cpu_stage ?m ?t (dp_cpu_file m) (dp_cpu_tmp m) env w1 = (es2, ds2, w2)"
    by (rule prod_cases3)
  obtain es3 ds3 w3 where 3: "named_stage ?m ''heap'' ?t (xe_heap env) w2 = (es3, ds3, w3)" by (rule prod_cases3)
  obtain es4 ds4 w4 where 4: "named_stage ?m ''goroutine'' ?t (xe_goroutine env) w3 = (es4, ds4, w4)"
    by (rule prod_cases3)
  have res: "result = \<lparr> sr_changed = True, sr_state = ''stopped'', sr_dumped_files = ds1 @ ds2 @ ds3 @ ds4 \<rparr>"
    "errs = es1 @ es2 @ es3 @ es4"
    using b by (simp_all add: stop_body_def Let_def 1 2 3 4 then_stage_def state_string_def)
  have w': "pw_files w' = pw_files w4" "pw_failures w' = pw_failures w4"
    and w4: "pw_telemetry w' = (if errs \<noteq> [] then log_at error_level ''pprof stopped with dump errors''
        [field ''dumped_files'' (F_Strings (sr_dumped_files result)), field ''error'' (F_Error (join [CHR 0x0A] errs))] (pw_telemetry w4)
      else log_at info_level ''pprof stopped'' [field ''dumped_files'' (F_Strings (sr_dumped_files result))] (pw_telemetry w4))"
    using b by (auto simp: stop_body_def Let_def 1 2 3 4 then_stage_def pprof_log_def split: if_splits)
  have entry: "\<exists>lvl msg fs. pw_telemetry w' = log_at lvl msg fs (pw_telemetry w4) \<and> (lvl = error_level \<longleftrightarrow> errs \<noteq> [])"
  proof (cases "errs = []")
    case True
    with w4 show ?thesis by (intro exI [of _ info_level] exI conjI) auto
  next
    case False
    with w4 show ?thesis by (intro exI [of _ error_level] exI conjI) auto
  qed
  have silent: "pw_telemetry w4 = pw_telemetry w"
    using stage_silent(1) [OF 1] stage_silent(2) [OF 2] stage_silent(3) [OF 3] stage_silent(3) [OF 4] by simp
  have s1: "ds1 = []" "pw_failures w1 = pw_failures w" "es1 = [] \<longleftrightarrow> xe_shutdown env = None"
    using 1 by (auto simp: shutdown_stage_def af world_ops split: option.splits)
  have d2: "dumps_or_counts (profile_path ?m ?t ''cpu'') ''cpu'' w1 (es2, ds2, w2)"
    unfolding 2 [symmetric] by (rule cpu_stage_dumps) (simp add: af)
  have d3: "dumps_or_counts (profile_path ?m ?t ''heap'') ''heap'' w2 (es3, ds3, w3)"
    using named_stage_dumps [of ?m ?t "''heap''" w2 "xe_heap env"] by (simp add: 3)
  have d4: "dumps_or_counts (profile_path ?m ?t ''goroutine'') ''goroutine'' w3 (es4, ds4, w4)"
    using named_stage_dumps [of ?m ?t "''goroutine''" w3 "xe_goroutine env"] by (simp add: 4)
  note keep = named_stage_files [OF 3] named_stage_files [OF 4] and dist = profile_paths_distinct [of ?m ?t]
  have files: "set (ds2 @ ds3 @ ds4) \<subseteq> pw_files w4" "distinct (ds2 @ ds3 @ ds4)"
    using d2 d3 d4 keep dist by (auto simp: dumps_or_counts_def)
  have fails: "\<exists>failed. pw_failures w4 = pw_failures w @ failed \<and> length (ds2 @ ds3 @ ds4) + length failed = 3 \<and>
      (es2 @ es3 @ es4 = [] \<longleftrightarrow> failed = [])"
    using d2 d3 d4 s1(2) by (auto simp: dumps_or_counts_def)
  show ?thesis using acc files fails s1 entry unfolding res accounted_def w'(1,2) silent by auto
qed

section \<open>Concurrent calls\<close>

text \<open>The threads between their swap and the locked body are counted. The body is one atomic step: it
  holds the mutex and touches the state word only to store it once. A call whose swap fails changes
  nothing.\<close>

record pprof_system =
  ps_manager :: dynamic_pprof
  ps_world :: pprof_world
  ps_starting :: nat
  ps_stopping :: nat

datatype pprof_event = Enter_Start | Enter_Stop | Run_Start start_env | Run_Stop stop_env

inductive pprof_step :: "pprof_system \<Rightarrow> pprof_event \<Rightarrow> pprof_system \<Rightarrow> bool" where
  enter_start: "swap_state Stopped Running (ps_manager c) = Some m \<Longrightarrow>
    pprof_step c Enter_Start (c\<lparr> ps_manager := m, ps_starting := Suc (ps_starting c) \<rparr>)"
| enter_stop: "swap_state Running Dumping (ps_manager c) = Some m \<Longrightarrow>
    pprof_step c Enter_Stop (c\<lparr> ps_manager := m, ps_stopping := Suc (ps_stopping c) \<rparr>)"
| run_start: "ps_starting c = Suc n \<Longrightarrow> start_body env (ps_manager c) (ps_world c) = (r, m, w) \<Longrightarrow>
    pprof_step c (Run_Start env) (c\<lparr> ps_manager := m, ps_world := w, ps_starting := n \<rparr>)"
| run_stop: "ps_stopping c = Suc n \<Longrightarrow> stop_body env (ps_manager c) (ps_world c) = (r, m, w) \<Longrightarrow>
    pprof_step c (Run_Stop env) (c\<lparr> ps_manager := m, ps_world := w, ps_stopping := n \<rparr>)"

inductive_cases enter_startE: "pprof_step c Enter_Start d"
inductive_cases enter_stopE: "pprof_step c Enter_Stop d"
inductive_cases run_startE: "pprof_step c (Run_Start env) d"
inductive_cases run_stopE: "pprof_step c (Run_Stop env) d"

inductive pprof_run :: "pprof_system \<Rightarrow> pprof_event list \<Rightarrow> pprof_system \<Rightarrow> bool" where
  run_nil: "pprof_run c [] c"
| run_snoc: "pprof_run c es d \<Longrightarrow> pprof_step d e d' \<Longrightarrow> pprof_run c (es @ [e]) d'"

definition pprof_boot :: "string \<Rightarrow> string \<Rightarrow> string \<Rightarrow> pprof_world \<Rightarrow> pprof_system" where
  "pprof_boot addr app dir w =
     \<lparr> ps_manager = new_dynamic_pprof addr app dir, ps_world = w\<lparr> pw_profiling := False \<rparr>,
       ps_starting = 0, ps_stopping = 0 \<rparr>"

definition sys_accounted :: "string list \<Rightarrow> string list \<Rightarrow> pprof_system \<Rightarrow> bool" where
  "sys_accounted ls os c \<longleftrightarrow> accounted ls os (ps_manager c) (ps_world c) \<and>
     (dp_state (ps_manager c) = Dumping \<longrightarrow> 0 < ps_stopping c)"

lemma swap_state_Some: "swap_state old new m = Some m' \<longleftrightarrow> dp_state m = old \<and> m' = m\<lparr> dp_state := new \<rparr>"
  by (auto simp: swap_state_def)

lemma pprof_step_accounted:
  assumes "pprof_step c e d" "sys_accounted ls os c"
  shows "sys_accounted ls os d"
  using assms
proof cases
  case (run_start n env r m w)
  with start_body_accounted [OF _ run_start(4), of ls os] start_body_state [OF run_start(4)] assms(2)
  show ?thesis by (auto simp: sys_accounted_def)
next
  case (run_stop n env r m w)
  with stop_body_accounted [OF _ run_stop(4), of ls os] assms(2) show ?thesis by (simp add: sys_accounted_def)
qed (auto simp: sys_accounted_def swap_state_Some)

lemma pprof_run_accounted:
  assumes "pprof_run c es d" "sys_accounted ls os c"
  shows "sys_accounted ls os d"
  using assms by induction (auto dest: pprof_step_accounted)

text \<open>C7: in every interleaving of concurrent calls, the listeners, open files and CPU profile of the
  process are exactly those the manager refers to, so no interleaving loses one; and a manager left
  dumping has a \<open>Stop\<close> still under way.\<close>

theorem pprof_interleaved_accounts:
  assumes "pprof_run (pprof_boot addr app dir w) events c"
  shows "accounted (pw_listening w) (pw_open w) (ps_manager c) (ps_world c) \<and>
    (dp_state (ps_manager c) = Dumping \<longrightarrow> 0 < ps_stopping c)"
proof -
  have "sys_accounted (pw_listening w) (pw_open w) (pprof_boot addr app dir w)"
    by (simp add: sys_accounted_def accounted_def pprof_boot_def new_dynamic_pprof_def)
  from pprof_run_accounted [OF assms this] show ?thesis by (simp add: sys_accounted_def)
qed

subsection \<open>The lost session\<close>

text \<open>A manager that is stopped and at rest but still holds a session.\<close>

definition leaked :: "dynamic_pprof \<Rightarrow> pprof_world \<Rightarrow> bool" where
  "leaked m w \<longleftrightarrow> dp_state m = Stopped \<and> dp_server m \<noteq> None \<and> pw_profiling w"

definition demo_world :: pprof_world where
  "demo_world = \<lparr> pw_files = {}, pw_open = [], pw_profiling = False, pw_listening = [], pw_failures = [],
     pw_telemetry = \<lparr> tl_spans = [], tl_entries = [] \<rparr> \<rparr>"

definition demo_start :: start_env where
  "demo_start = \<lparr> se_stamp = ''20260101-120000'', se_mkdir = None, se_create = None, se_listen = Inr ''[::]:6060'' \<rparr>"

definition demo_dump :: dump_env where
  "demo_dump = \<lparr> de_found = True, de_create = None, de_write = None \<rparr>"

definition demo_stop :: stop_env where
  "demo_stop = \<lparr> xe_shutdown = None, xe_close = None, xe_rename = None, xe_heap = demo_dump, xe_goroutine = demo_dump \<rparr>"

definition demo_boot :: pprof_system where
  "demo_boot = pprof_boot [] ''app'' [] demo_world"

lemma runs: "pprof_run c [] c"
  "pprof_run c es d \<Longrightarrow> pprof_step d e d' \<Longrightarrow> es' = es @ [e] \<Longrightarrow> pprof_run c es' d'"
  by (auto intro: pprof_run.intros)

lemma demo_leak:
  defines "m \<equiv> new_dynamic_pprof [] ''app'' []"
  defines "x \<equiv> snd (stop_body demo_stop (m\<lparr> dp_state := Dumping \<rparr>) demo_world)"
  defines "y \<equiv> snd (start_body demo_start (fst x) (snd x))"
  shows "pprof_run demo_boot [Enter_Start, Enter_Stop, Run_Stop demo_stop, Run_Start demo_start]
      \<lparr> ps_manager = fst y, ps_world = snd y, ps_starting = 0, ps_stopping = 0 \<rparr>"
    and "leaked (fst y) (snd y)"
proof -
  have boot: "demo_boot = \<lparr> ps_manager = m, ps_world = demo_world, ps_starting = 0, ps_stopping = 0 \<rparr>"
    by (simp add: demo_boot_def pprof_boot_def m_def demo_world_def)
  have st: "dp_state m = Stopped" by (simp add: m_def new_dynamic_pprof_def)
  let ?c1 = "\<lparr> ps_manager = m\<lparr> dp_state := Running \<rparr>, ps_world = demo_world, ps_starting = 1, ps_stopping = 0 \<rparr>"
  let ?c2 = "\<lparr> ps_manager = m\<lparr> dp_state := Dumping \<rparr>, ps_world = demo_world, ps_starting = 1, ps_stopping = 1 \<rparr>"
  let ?c3 = "\<lparr> ps_manager = fst x, ps_world = snd x, ps_starting = 1, ps_stopping = 0 \<rparr>"
  have 1: "pprof_step demo_boot Enter_Start ?c1"
    using enter_start [of demo_boot "m\<lparr> dp_state := Running \<rparr>"] st by (simp add: boot swap_state_def)
  have 2: "pprof_step ?c1 Enter_Stop ?c2"
    using enter_stop [of ?c1 "m\<lparr> dp_state := Dumping \<rparr>"] by (simp add: swap_state_def)
  have 3: "pprof_step ?c2 (Run_Stop demo_stop) ?c3"
    using run_stop [of ?c2 0 demo_stop _ "fst x" "snd x"] by (simp add: x_def prod_eq_iff)
  have 4: "pprof_step ?c3 (Run_Start demo_start) \<lparr> ps_manager = fst y, ps_world = snd y, ps_starting = 0, ps_stopping = 0 \<rparr>"
    using run_start [of ?c3 0 demo_start _ "fst y" "snd y"] by (simp add: y_def prod_eq_iff)
  show "pprof_run demo_boot [Enter_Start, Enter_Stop, Run_Stop demo_stop, Run_Start demo_start]
      \<lparr> ps_manager = fst y, ps_world = snd y, ps_starting = 0, ps_stopping = 0 \<rparr>"
    using run_snoc [OF run_snoc [OF run_snoc [OF run_snoc [OF run_nil 1] 2] 3] 4] by simp
  show "leaked (fst y) (snd y)" unfolding y_def x_def m_def by code_simp
qed

lemma leaked_start:
  assumes "leaked m w" "start env m w = (r, m', w')"
  shows "leaked m' w' \<and> (\<exists>e. r = (False, Some e)) \<and> dp_server m' = dp_server m"
proof -
  have "start_body env (m\<lparr> dp_state := Running \<rparr>) w = (r, m', w')"
    using assms by (simp add: start_def swap_state_def leaked_def)
  with assms(1) show ?thesis
    by (auto simp: start_body_def leaked_def world_ops start_cpu_profile_def Let_def split: option.splits)
qed

lemma leaked_run_call:
  assumes "leaked m w" "run_call c (m, w) = (m', w')"
  shows "leaked m' w' \<and> dp_server m' = dp_server m"
proof (cases c)
  case (Call_Start env)
  then show ?thesis using assms leaked_start [OF assms(1), of env "fst (start env m w)" m' w'] by (simp add: prod_eq_iff)
next
  case (Call_Stop env)
  then show ?thesis using assms by (simp add: stop_def swap_state_def leaked_def)
qed

text \<open>Such a session is never recovered by calls that do not overlap: every later \<open>Start\<close> fails with
  an error, every later \<open>Stop\<close> reports that nothing changed, and the old server goes on listening.\<close>

lemma pprof_leak_is_permanent:
  assumes "leaked m w" "fold run_call calls (m, w) = (m', w')"
  shows "leaked m' w' \<and> dp_server m' = dp_server m \<and>
    (\<forall>env. \<exists>e. fst (start env m' w') = (False, Some e)) \<and>
    (\<forall>env. \<not> sr_changed (fst (fst (stop env m' w'))))"
proof -
  have l: "leaked m' w' \<and> dp_server m' = dp_server m"
    using assms
  proof (induction calls arbitrary: m w)
    case (Cons c cs)
    obtain m1 w1 where "run_call c (m, w) = (m1, w1)" by fastforce
    with Cons leaked_run_call show ?case by fastforce
  qed simp
  then have "\<exists>e. fst (start env m' w') = (False, Some e)" for env
    using leaked_start [of m' w' env] by (metis prod.collapse)
  moreover have "\<not> sr_changed (fst (fst (stop env m' w')))" for env
    using l by (simp add: stop_def swap_state_def leaked_def)
  ultimately show ?thesis using l by blast
qed




section \<open>Witnesses\<close>

lemma demo_calls:
  "\<exists>m' w'. fold run_call [Call_Start demo_start] (new_dynamic_pprof [] ''app'' [], demo_world\<lparr> pw_profiling := False \<rparr>) = (m', w') \<and>
     dp_state m' = Running"
  by (auto simp: prod_eq_iff) code_simp

lemma pprof_sequential_accounts_witness:
  "\<exists>m' w'. accounted [] [] m' w' \<and> dp_state m' = Running \<and> dp_server m' \<noteq> None \<and>
     fold run_call [Call_Start demo_start] (new_dynamic_pprof [] ''app'' [], demo_world\<lparr> pw_profiling := False \<rparr>) = (m', w')"
  using demo_calls pprof_sequential_accounts [of "[Call_Start demo_start]" "[]" "''app''" "[]" demo_world]
  by (fastforce simp: demo_world_def)

theorem pprof_interleaved_accounts_witness:
  "\<exists>c :: pprof_system. accounted [] [] (ps_manager c) (ps_world c) \<and> dp_server (ps_manager c) \<noteq> None"
proof -
  obtain c where c: "pprof_run demo_boot [Enter_Start, Enter_Stop, Run_Stop demo_stop, Run_Start demo_start] c"
    "leaked (ps_manager c) (ps_world c)"
    using demo_leak by fastforce
  from pprof_interleaved_accounts [OF c(1) [unfolded demo_boot_def]]
  have "accounted [] [] (ps_manager c) (ps_world c)" by (simp add: demo_world_def)
  with c(2) show ?thesis unfolding leaked_def by blast
qed


lemma pprof_leak_is_permanent_witness:
  "\<exists>m w. leaked m w \<and> (\<exists>e. fst (start demo_start m w) = (False, Some e))"
proof -
  obtain m w where "leaked m w" using demo_leak by blast
  with pprof_leak_is_permanent [of m w "[]" m w] have "leaked m w \<and> (\<exists>e. fst (start demo_start m w) = (False, Some e))"
    by simp
  then show ?thesis by blast
qed

definition demo_running :: "dynamic_pprof \<times> pprof_world" where
  "demo_running = run_call (Call_Start demo_start) (new_dynamic_pprof [] ''app'' [], demo_world)"

theorem stop_releases_everything_witness:
  "dp_state (fst demo_running) = Running \<and>
   (case stop demo_stop (fst demo_running) (snd demo_running) of ((result, errs), m', w') \<Rightarrow>
      dp_state m' = Stopped \<and> \<not> pw_profiling w' \<and> pw_listening w' = [] \<and>
      set (sr_dumped_files result) \<subseteq> pw_files w' \<and> errs = [])"
proof -
  have r: "dp_state (fst demo_running) = Running" by code_simp
  have "settled [] [] (fst demo_running) (snd demo_running)"
    unfolding demo_running_def
    by (rule run_call_settled [of _ _ "new_dynamic_pprof [] ''app'' []" demo_world "Call_Start demo_start"])
      (simp_all add: settled_def accounted_def new_dynamic_pprof_def demo_world_def)
  moreover obtain result errs m' w' where s: "stop demo_stop (fst demo_running) (snd demo_running) = ((result, errs), m', w')"
    by (metis prod.exhaust)
  moreover have "snd (fst (stop demo_stop (fst demo_running) (snd demo_running))) = []" by code_simp
  ultimately show ?thesis using r stop_releases_everything [of "[]" "[]" "fst demo_running" "snd demo_running" demo_stop result errs m' w']
    by simp
qed

end
