(* ===== verification/Redis_Lua.thy ===== *)
theory Redis_Lua
  imports Utils
begin

text \<open>
  \<open>redis/lua.go\<close> and \<open>redis/redis.go\<close>: the executor of a Lua script that caches the script's SHA, and
  the start-up of the global client. The client library is a parameter: a record of its three script
  calls on a world \<open>'w\<close>, and \<open>no_script\<close>, which says whether an error has the prefix \<open>NOSCRIPT\<close>.
  The goroutine that reloads the script is a pending step; the locks make the reload and the reset of
  the SHA atomic.
\<close>

section \<open>The executor\<close>

type_synonym ('w, 'e, 'a) call = "'w \<Rightarrow> ('e, 'a) result \<times> 'w"

record ('w, 'e, 'v) script_client =
  sc_load :: "string \<Rightarrow> ('w, 'e, string) call"
  sc_eval_sha :: "string \<Rightarrow> string list \<Rightarrow> string list \<Rightarrow> ('w, 'e, 'v) call"
  sc_eval :: "string \<Rightarrow> string list \<Rightarrow> string list \<Rightarrow> ('w, 'e, 'v) call"

record ('w, 'e, 'v) lua_executor =
  lx_name :: string
  lx_client :: "('w, 'e, 'v) script_client option"
  lx_script :: string
  lx_sha :: string
  lx_resp_fn :: "('v \<Rightarrow> 'w \<Rightarrow> 'e option \<times> 'w) option"

datatype 'e lua_error = Client_Nil | Sha_Empty | Call_Failed 'e

definition new_lua_executor ::
  "string \<Rightarrow> ('w, 'e, 'v) script_client option \<Rightarrow> string \<Rightarrow> ('v \<Rightarrow> 'w \<Rightarrow> 'e option \<times> 'w) option \<Rightarrow>
   ('w, 'e, 'v) lua_executor" where
  "new_lua_executor name client script resp_fn =
     \<lparr> lx_name = name, lx_client = client, lx_script = script, lx_sha = [], lx_resp_fn = resp_fn \<rparr>"

definition prepare_lua_script ::
  "('w, 'e, 'v) lua_executor \<Rightarrow> 'w \<Rightarrow> 'e lua_error option \<times> ('w, 'e, 'v) lua_executor \<times> 'w" where
  "prepare_lua_script l w =
     (case lx_client l of None \<Rightarrow> (Some Client_Nil, l, w)
      | Some client \<Rightarrow>
          case sc_load client (lx_script l) w of
            (Inl e, w) \<Rightarrow> (Some (Call_Failed e), l, w)
          | (Inr sha, w) \<Rightarrow> (None, l\<lparr> lx_sha := sha \<rparr>, w))"

text \<open>A call through a nil client panics; the operations below are on an executor with a client.\<close>

definition run_resp_fn ::
  "('v \<Rightarrow> 'w \<Rightarrow> 'e option \<times> 'w) \<Rightarrow> 'v \<Rightarrow> 'w \<Rightarrow> 'e lua_error option \<times> 'w" where
  "run_resp_fn f res w = (case f res w of (err, w) \<Rightarrow> (map_option Call_Failed err, w))"

definition fast_path ::
  "('w, 'e, 'v) script_client \<Rightarrow> ('w, 'e, 'v) lua_executor \<Rightarrow> string list \<Rightarrow> string list \<Rightarrow> 'w \<Rightarrow>
   'e lua_error option \<times> 'w" where
  "fast_path client l keys args w =
     (if lx_sha l = [] then (Some Sha_Empty, w)
      else case sc_eval_sha client (lx_sha l) keys args w of
        (Inr res, w) \<Rightarrow> (case lx_resp_fn l of Some f \<Rightarrow> run_resp_fn f res w | None \<Rightarrow> (None, w))
      | (Inl e, w) \<Rightarrow> (Some (Call_Failed e), w))"

text \<open>The Boolean says whether the reloading goroutine is started.\<close>

definition slow_path_with_lock ::
  "('w, 'e, 'v) script_client \<Rightarrow> ('w, 'e, 'v) lua_executor \<Rightarrow> string list \<Rightarrow> string list \<Rightarrow> 'w \<Rightarrow>
   'e lua_error option \<times> bool \<times> 'w" where
  "slow_path_with_lock client l keys args w =
     (case sc_eval client (lx_script l) keys args w of
        (Inl e, w) \<Rightarrow> (Some (Call_Failed e), False, w)
      | (Inr res, w) \<Rightarrow>
          (case lx_resp_fn l of
             Some f \<Rightarrow> (case run_resp_fn f res w of (err, w) \<Rightarrow> (err, False, w))
           | None \<Rightarrow> (None, True, w)))"

definition reload_goroutine ::
  "('w, 'e, 'v) lua_executor \<Rightarrow> 'w \<Rightarrow> ('w, 'e, 'v) lua_executor \<times> 'w" where
  "reload_goroutine l w = (if lx_sha l \<noteq> [] then (l, w) else snd (prepare_lua_script l w))"

definition update_one_event ::
  "('e \<Rightarrow> bool) \<Rightarrow> ('w, 'e, 'v) script_client \<Rightarrow> ('w, 'e, 'v) lua_executor \<Rightarrow> string list \<Rightarrow> string list \<Rightarrow> 'w \<Rightarrow>
   'e lua_error option \<times> bool \<times> ('w, 'e, 'v) lua_executor \<times> 'w" where
  "update_one_event no_script client l keys args w =
     (case fast_path client l keys args w of
        (None, w) \<Rightarrow> (None, False, l, w)
      | (Some err, w) \<Rightarrow>
          let l = (case err of
                     Call_Failed e \<Rightarrow> if no_script e then l\<lparr> lx_sha := [] \<rparr> else l
                   | _ \<Rightarrow> l)
          in case slow_path_with_lock client l keys args w of
            (err, reload, w) \<Rightarrow> (err, reload, l, w))"

section \<open>Updates and pending reloads\<close>

record ('w, 'e, 'v) lua_system =
  ls_exec :: "('w, 'e, 'v) lua_executor"
  ls_world :: 'w
  ls_pending :: nat

inductive lua_step ::
  "('e \<Rightarrow> bool) \<Rightarrow> ('w, 'e, 'v) script_client \<Rightarrow> ('w, 'e, 'v) lua_system \<Rightarrow> ('w, 'e, 'v) lua_system \<Rightarrow> bool"
  for no_script client where
  step_update: "update_one_event no_script client (ls_exec s) keys args (ls_world s) = (err, reload, l, w) \<Longrightarrow>
    lua_step no_script client s
      \<lparr> ls_exec = l, ls_world = w, ls_pending = (if reload then Suc (ls_pending s) else ls_pending s) \<rparr>"
| step_reload: "ls_pending s = Suc n \<Longrightarrow> reload_goroutine (ls_exec s) (ls_world s) = (l, w) \<Longrightarrow>
    lua_step no_script client s \<lparr> ls_exec = l, ls_world = w, ls_pending = n \<rparr>"

inductive_cases lua_stepE: "lua_step no_script client s t"

definition lua_reachable ::
  "('e \<Rightarrow> bool) \<Rightarrow> ('w, 'e, 'v) script_client \<Rightarrow> ('w, 'e, 'v) lua_system \<Rightarrow> ('w, 'e, 'v) lua_system \<Rightarrow> bool" where
  "lua_reachable no_script client = (lua_step no_script client)\<^sup>*\<^sup>*"

section \<open>What an update does\<close>

lemma update_fast:
  "fast_path client l keys args w = (None, w') \<Longrightarrow>
   update_one_event no_script client l keys args w = (None, False, l, w')"
  by (simp add: update_one_event_def)

lemma update_keeps:
  assumes "update_one_event no_script client l keys args w = (err, reload, l', w')"
  shows "lx_resp_fn l' = lx_resp_fn l \<and> lx_client l' = lx_client l \<and> lx_script l' = lx_script l \<and>
    (lx_sha l' = lx_sha l \<or> lx_sha l' = []) \<and> (reload \<longrightarrow> err = None \<and> lx_resp_fn l = None)"
proof -
  have slow: "r \<longrightarrow> e = None \<and> lx_resp_fn k = None" if "slow_path_with_lock client k keys args v = (e, r, v')"
    for k v e r v'
    using that by (auto simp: slow_path_with_lock_def split: prod.splits sum.splits option.splits)
  from assms show ?thesis
    by (auto simp: update_one_event_def Let_def split: prod.splits option.splits lua_error.splits if_splits dest!: slow)
qed

text \<open>C14: without a response callback the executor heals itself. When the server has lost the script, the
  update still succeeds through \<open>Eval\<close> and starts a reload; once the reload has run, the executor holds
  the SHA the server returned, and the next update goes through \<open>EvalSha\<close> alone.\<close>

theorem lua_heals_without_callback:
  assumes l: "lx_client l = Some client" "lx_resp_fn l = None" "lx_sha l \<noteq> []"
    and lost: "sc_eval_sha client (lx_sha l) keys args w = (Inl e, w1)" "no_script e"
    and eval: "sc_eval client (lx_script l) keys args w1 = (Inr res, w2)"
    and load: "sc_load client (lx_script l) w2 = (Inr sha, w3)" "sha \<noteq> []"
    and again: "sc_eval_sha client sha keys2 args2 w3 = (Inr res2, w4)"
  shows "\<exists>l2 l3. update_one_event no_script client l keys args w = (None, True, l2, w2) \<and>
    reload_goroutine l2 w2 = (l3, w3) \<and> lx_sha l3 = sha \<and>
    update_one_event no_script client l3 keys2 args2 w3 = (None, False, l3, w4)"
proof -
  have "update_one_event no_script client l keys args w = (None, True, l\<lparr> lx_sha := [] \<rparr>, w2)"
    using l lost eval by (simp add: update_one_event_def fast_path_def slow_path_with_lock_def)
  moreover have "reload_goroutine (l\<lparr> lx_sha := [] \<rparr>) w2 = (l\<lparr> lx_sha := sha \<rparr>, w3)"
    using l load by (simp add: reload_goroutine_def prepare_lua_script_def)
  moreover have "update_one_event no_script client (l\<lparr> lx_sha := sha \<rparr>) keys2 args2 w3 = (None, False, l\<lparr> lx_sha := sha \<rparr>, w4)"
    using l load again by (intro update_fast) (simp add: fast_path_def)
  ultimately show ?thesis by auto
qed

text \<open>Executors with a response callback that have lost their SHA, with no reload pending.\<close>

definition never_reloads :: "('w, 'e, 'v) lua_system \<Rightarrow> bool" where
  "never_reloads s \<longleftrightarrow> lx_resp_fn (ls_exec s) \<noteq> None \<and> lx_sha (ls_exec s) = [] \<and> ls_pending s = 0"

lemma lua_step_never_reloads:
  assumes "lua_step no_script client s t" "never_reloads s"
  shows "never_reloads t"
  using assms
proof cases
  case (step_update keys args err reload l w)
  with update_keeps [OF step_update(2)] assms(2) show ?thesis by (auto simp: never_reloads_def)
next
  case (step_reload n l w)
  with assms(2) show ?thesis by (simp add: never_reloads_def)
qed

interpretation no_reload: preserved "lua_step no_script client" never_reloads for no_script client
  by unfold_locales (rule lua_step_never_reloads)

text \<open>With a response callback nothing ever reloads the script. Once such an executor has no SHA (as
  after one \<open>NOSCRIPT\<close>), no sequence of updates gives it one again: in every reachable state the SHA is
  empty, no reload is pending, and an update sends the whole script with \<open>Eval\<close>.\<close>

lemma lua_callback_never_reloads:
  assumes "lua_reachable no_script client s t" "lx_resp_fn (ls_exec s) \<noteq> None" "lx_sha (ls_exec s) = []"
    "ls_pending s = 0"
  shows "lx_sha (ls_exec t) = [] \<and> ls_pending t = 0 \<and>
    update_one_event no_script client (ls_exec t) keys args w =
      (case slow_path_with_lock client (ls_exec t) keys args w of (err, reload, w') \<Rightarrow> (err, reload, ls_exec t, w'))"
proof -
  have "never_reloads s" using assms(2-) by (simp add: never_reloads_def)
  with assms(1) have "never_reloads t" unfolding lua_reachable_def by (rule no_reload.run_preserves)
  then show ?thesis by (simp add: never_reloads_def update_one_event_def fast_path_def Let_def)
qed

text \<open>A callback that rejects a reply makes the script run twice: \<open>EvalSha\<close> has already executed it
  on the server, and the update executes it again with \<open>Eval\<close> in the state that execution left.\<close>

lemma lua_callback_error_runs_twice:
  assumes "lx_sha l \<noteq> []" "sc_eval_sha client (lx_sha l) keys args w = (Inr res, w1)"
    "lx_resp_fn l = Some f" "f res w1 = (Some e, w2)" "\<not> no_script e"
    "sc_eval client (lx_script l) keys args w2 = (Inr res2, w3)"
  shows "update_one_event no_script client l keys args w =
    (map_option Call_Failed (fst (f res2 w3)), False, l, snd (f res2 w3))"
  using assms
  by (simp add: update_one_event_def fast_path_def slow_path_with_lock_def run_resp_fn_def split: prod.split)

subsection \<open>A server for the witnesses\<close>

text \<open>The world: the scripts the server has cached, and the log of executed scripts.\<close>

type_synonym demo_redis = "string list \<times> string list"

definition demo_client :: "(demo_redis, string, int) script_client" where
  "demo_client =
     \<lparr> sc_load = (\<lambda>script (cache, log). (Inr (''sha-'' @ script), (script # cache, log))),
       sc_eval_sha = (\<lambda>sha keys args (cache, log).
          if (\<exists>x \<in> set cache. sha = ''sha-'' @ x) then (Inr (int (length log)), (cache, sha # log))
          else (Inl ''NOSCRIPT'', (cache, log))),
       sc_eval = (\<lambda>script keys args (cache, log). (Inr (int (length log)), (cache, script # log))) \<rparr>"

definition demo_exec :: "(int \<Rightarrow> demo_redis \<Rightarrow> string option \<times> demo_redis) option \<Rightarrow> (demo_redis, string, int) lua_executor" where
  "demo_exec f = \<lparr> lx_name = ''incr'', lx_client = Some demo_client, lx_script = ''S'', lx_sha = ''sha-S'', lx_resp_fn = f \<rparr>"

definition first_fails :: "int \<Rightarrow> demo_redis \<Rightarrow> string option \<times> demo_redis" where
  "first_fails res w = (if res = 0 then Some ''bad reply'' else None, w)"

theorem lua_heals_without_callback_witness:
  "\<exists>l2 l3. update_one_event (\<lambda>e. e = ''NOSCRIPT'') demo_client (demo_exec None) [''k''] [] ([], []) = (None, True, l2, ([], [''S''])) \<and>
    reload_goroutine l2 ([], [''S'']) = (l3, ([''S''], [''S''])) \<and> lx_sha l3 = ''sha-S'' \<and>
    update_one_event (\<lambda>e. e = ''NOSCRIPT'') demo_client l3 [''k''] [] ([''S''], [''S'']) = (None, False, l3, ([''S''], [''sha-S'', ''S'']))"
  by (rule lua_heals_without_callback [where e = "''NOSCRIPT''" and ?w1.0 = "([], [])" and res = 0 and ?res2.0 = 1])
    (simp_all add: demo_exec_def demo_client_def)

definition demo_lost :: "string list \<Rightarrow> (demo_redis, string, int) lua_system" where
  "demo_lost log = \<lparr> ls_exec = (demo_exec (Some first_fails))\<lparr> lx_sha := [] \<rparr>, ls_world = ([], log), ls_pending = 0 \<rparr>"

lemma demo_lost_reachable: "lua_reachable (\<lambda>e. e = ''NOSCRIPT'') demo_client (demo_lost []) (demo_lost [''S''])"
proof -
  have "lua_step (\<lambda>e. e = ''NOSCRIPT'') demo_client (demo_lost []) (demo_lost [''S''])"
    using step_update [of "\<lambda>e. e = ''NOSCRIPT''" demo_client "demo_lost []" "[''k'']" "[]" "Some (Call_Failed ''bad reply'')" False
        "(demo_exec (Some first_fails))\<lparr> lx_sha := [] \<rparr>" "([], [''S''])"]
    by (simp add: demo_lost_def demo_exec_def demo_client_def first_fails_def update_one_event_def fast_path_def
        slow_path_with_lock_def run_resp_fn_def)
  then show ?thesis by (auto simp: lua_reachable_def)
qed

lemma lua_callback_never_reloads_witness:
  "lx_sha (ls_exec (demo_lost [''S''])) = [] \<and> ls_pending (demo_lost [''S'']) = 0 \<and>
   fst (update_one_event (\<lambda>e. e = ''NOSCRIPT'') demo_client (ls_exec (demo_lost [''S''])) [''k''] [] ([''S''], [''S''])) = None"
proof -
  have "lx_resp_fn (ls_exec (demo_lost [])) \<noteq> None" "lx_sha (ls_exec (demo_lost [])) = []" "ls_pending (demo_lost []) = 0"
    by (simp_all add: demo_lost_def demo_exec_def)
  from lua_callback_never_reloads [OF demo_lost_reachable this, of "[''k'']" "[]" "([''S''], [''S''])"]
  show ?thesis
    by (simp add: demo_lost_def demo_exec_def demo_client_def first_fails_def slow_path_with_lock_def run_resp_fn_def)
qed

lemma lua_callback_error_runs_twice_witness:
  "update_one_event (\<lambda>e. e = ''NOSCRIPT'') demo_client (demo_exec (Some first_fails)) [''k''] [] ([''S''], []) =
    (None, False, demo_exec (Some first_fails), ([''S''], [''S'', ''sha-S'']))"
  by (subst lua_callback_error_runs_twice [where res = 0 and ?w1.0 = "([''S''], [''sha-S''])" and f = first_fails
        and e = "''bad reply''" and ?w2.0 = "([''S''], [''sha-S''])" and ?res2.0 = 1 and ?w3.0 = "([''S''], [''S'', ''sha-S''])"])
    (simp_all add: demo_exec_def demo_client_def first_fails_def)

section \<open>The global client\<close>

record redis_options =
  ro_addrs :: "string list"
  ro_password :: string
  ro_db :: int

definition load_redis_config_from_env :: "(string \<Rightarrow> string) \<Rightarrow> redis_options" where
  "load_redis_config_from_env env =
     \<lparr> ro_addrs = [str_or_default (env ''REDIS_ADDR'') ''127.0.0.1:6379''],
       ro_password = str_or_default (env ''REDIS_PWD'') [], ro_db = 0 \<rparr>"

text \<open>The once flag and the global, with the world that \<open>Ping\<close> and the waiting act on.\<close>

record 'w redis_global =
  rg_done :: bool
  rg_client :: "redis_options option"
  rg_world :: 'w

definition init_redis ::
  "('e option \<Rightarrow> string \<Rightarrow> 'e option) \<Rightarrow> (string \<Rightarrow> string) \<Rightarrow> (redis_options \<Rightarrow> ('w, 'e) action) \<Rightarrow> ('w \<Rightarrow> 'w) \<Rightarrow>
   redis_options option \<Rightarrow> nat \<Rightarrow> 'w redis_global \<Rightarrow> 'e option \<times> 'w redis_global" where
  "init_redis with_message env ping sleep conf retries g =
     (if rg_done g then (None, g)
      else let conf = (case conf of None \<Rightarrow> load_redis_config_from_env env | Some c \<Rightarrow> c)
           in case retry with_message retries sleep (ping conf) ''init-redis'' (rg_world g) of
                (err, w) \<Rightarrow> (err, \<lparr> rg_done = True, rg_client = Some conf, rg_world = w \<rparr>))"

text \<open>The start-up error is reported once. After a call, failed or not, the client is set and every
  later call returns nil without pinging.\<close>

lemma init_redis_once:
  "fst (init_redis with_message env ping sleep conf2 retries2 (snd (init_redis with_message env ping sleep conf retries g))) = None \<and>
   rg_client (snd (init_redis with_message env ping sleep conf retries g)) =
     (if rg_done g then rg_client g
      else Some (case conf of None \<Rightarrow> load_redis_config_from_env env | Some c \<Rightarrow> c))"
  by (simp add: init_redis_def Let_def split: prod.split)

end
