(* ===== verification/Redis_Lua_Conc.thy ===== *)
theory Redis_Lua_Conc
  imports Redis_Lua
begin

text \<open>
  Concurrent updates of one Lua executor (\<open>redis/lua.go\<close>) at the grain of its lock sections. A call of
  \<open>UpdateOneEvent\<close> is up to three steps: \<open>fastPath\<close> under the read lock, the reset of the SHA under the
  write lock if the answer was \<open>NOSCRIPT\<close>, and \<open>slowPathWithLock\<close>, which takes no lock; a reload is a
  further step under the write lock. The steps of any number of calls and reloads interleave.
\<close>

section \<open>Steps\<close>

type_synonym lua_call = "string list \<times> string list"

text \<open>\<open>lc_reset\<close> and \<open>lc_slow\<close>: the calls about to reset the SHA, and about to run the slow path.
  \<open>lc_failed\<close>, for the statements only: some slow path or reload has failed.\<close>

record ('w, 'e, 'v) lua_conc =
  lc_exec :: "('w, 'e, 'v) lua_executor"
  lc_world :: 'w
  lc_reset :: "lua_call multiset"
  lc_slow :: "lua_call multiset"
  lc_pending :: nat
  lc_failed :: bool

definition lost_script :: "('e \<Rightarrow> bool) \<Rightarrow> 'e lua_error \<Rightarrow> bool" where
  "lost_script no_script err = (case err of Call_Failed e \<Rightarrow> no_script e | _ \<Rightarrow> False)"

inductive conc_step ::
  "('e \<Rightarrow> bool) \<Rightarrow> ('w, 'e, 'v) script_client \<Rightarrow> ('w, 'e, 'v) lua_conc \<Rightarrow> ('w, 'e, 'v) lua_conc \<Rightarrow> bool"
  for no_script client where
  fast_done: "fast_path client (lc_exec s) keys args (lc_world s) = (None, w) \<Longrightarrow>
    conc_step no_script client s (s\<lparr> lc_world := w \<rparr>)"
| fast_lost: "fast_path client (lc_exec s) keys args (lc_world s) = (Some err, w) \<Longrightarrow> lost_script no_script err \<Longrightarrow>
    conc_step no_script client s (s\<lparr> lc_world := w, lc_reset := add_mset (keys, args) (lc_reset s) \<rparr>)"
| fast_failed: "fast_path client (lc_exec s) keys args (lc_world s) = (Some err, w) \<Longrightarrow> \<not> lost_script no_script err \<Longrightarrow>
    conc_step no_script client s (s\<lparr> lc_world := w, lc_slow := add_mset (keys, args) (lc_slow s) \<rparr>)"
| reset_sha: "c \<in># lc_reset s \<Longrightarrow>
    conc_step no_script client s (s\<lparr> lc_exec := (lc_exec s)\<lparr> lx_sha := [] \<rparr>,
      lc_reset := lc_reset s - {#c#}, lc_slow := add_mset c (lc_slow s) \<rparr>)"
| slow_path: "(keys, args) \<in># lc_slow s \<Longrightarrow>
    slow_path_with_lock client (lc_exec s) keys args (lc_world s) = (err, reload, w) \<Longrightarrow>
    conc_step no_script client s (s\<lparr> lc_world := w, lc_slow := lc_slow s - {#(keys, args)#},
      lc_pending := (if reload then Suc (lc_pending s) else lc_pending s), lc_failed := (lc_failed s \<or> err \<noteq> None) \<rparr>)"
| reload: "lc_pending s = Suc n \<Longrightarrow> reload_goroutine (lc_exec s) (lc_world s) = (l, w) \<Longrightarrow>
    conc_step no_script client s (s\<lparr> lc_exec := l, lc_world := w, lc_pending := n,
      lc_failed := (lc_failed s \<or> lx_sha l = []) \<rparr>)"

definition conc_init :: "('w, 'e, 'v) lua_executor \<Rightarrow> 'w \<Rightarrow> ('w, 'e, 'v) lua_conc" where
  "conc_init l w = \<lparr> lc_exec = l, lc_world = w, lc_reset = {#}, lc_slow = {#}, lc_pending = 0, lc_failed = False \<rparr>"

text \<open>\<open>UpdateOneEvent\<close> is what these steps do when no other call is running.\<close>

lemma update_one_event_steps:
  assumes "update_one_event no_script client (lc_exec s) keys args (lc_world s) = (err, reload, l, w)"
  shows "\<exists>t. (conc_step no_script client)\<^sup>*\<^sup>* s t \<and> lc_exec t = l \<and> lc_world t = w \<and> lc_reset t = lc_reset s \<and>
    lc_slow t = lc_slow s \<and> lc_pending t = (if reload then Suc (lc_pending s) else lc_pending s)"
proof -
  obtain r1 w1 where f: "fast_path client (lc_exec s) keys args (lc_world s) = (r1, w1)" by fastforce
  show ?thesis
  proof (cases r1)
    case None
    then have "conc_step no_script client s (s\<lparr> lc_world := w1 \<rparr>)" using f by (auto intro: fast_done)
    with None f assms show ?thesis
      by (intro exI [of _ "s\<lparr> lc_world := w1 \<rparr>"]) (auto simp: update_one_event_def)
  next
    case (Some e1)
    let ?l = "if lost_script no_script e1 then (lc_exec s)\<lparr> lx_sha := [] \<rparr> else lc_exec s"
    let ?s = "s\<lparr> lc_world := w1, lc_exec := ?l, lc_slow := add_mset (keys, args) (lc_slow s) \<rparr>"
    have slow: "(conc_step no_script client)\<^sup>*\<^sup>* s ?s"
    proof (cases "lost_script no_script e1")
      case True
      let ?m = "s\<lparr> lc_world := w1, lc_reset := add_mset (keys, args) (lc_reset s) \<rparr>"
      have "conc_step no_script client s ?m" using f Some True by (auto intro: fast_lost)
      moreover have "conc_step no_script client ?m ?s"
        using reset_sha [of "(keys, args)" ?m no_script client] True by simp
      ultimately show ?thesis by auto
    next
      case False
      have "conc_step no_script client s (s\<lparr> lc_world := w1, lc_slow := add_mset (keys, args) (lc_slow s) \<rparr>)"
        using f Some False by (auto intro: fast_failed)
      with False show ?thesis by simp
    qed
    have u: "(case slow_path_with_lock client ?l keys args w1 of (err, reload, w) \<Rightarrow> (err, reload, ?l, w)) =
        (err, reload, l, w)"
      using assms f Some by (auto simp: update_one_event_def lost_script_def Let_def split: lua_error.splits if_splits)
    then have sp: "slow_path_with_lock client (lc_exec ?s) keys args (lc_world ?s) = (err, reload, w)" "l = ?l"
      by (auto split: prod.splits)
    have mem: "(keys, args) \<in># lc_slow ?s" by simp
    let ?t = "?s\<lparr> lc_world := w, lc_slow := lc_slow ?s - {#(keys, args)#},
      lc_pending := (if reload then Suc (lc_pending ?s) else lc_pending ?s), lc_failed := (lc_failed ?s \<or> err \<noteq> None) \<rparr>"
    from slow_path [OF mem sp(1), of no_script] have "conc_step no_script client ?s ?t" .
    with slow have run: "(conc_step no_script client)\<^sup>*\<^sup>* s ?t" by (rule rtranclp.rtrancl_into_rtrancl)
    have "lc_exec ?t = l" by (simp add: sp(2))
    moreover have "lc_world ?t = w" "lc_reset ?t = lc_reset s" "lc_slow ?t = lc_slow s"
      "lc_pending ?t = (if reload then Suc (lc_pending s) else lc_pending s)" by simp_all
    ultimately show ?thesis using run by (intro exI [of _ ?t] conjI)
  qed
qed

section \<open>No reload is lost\<close>

text \<open>Without a callback: an executor that has no SHA has a call or a reload under way that will load it,
  or one of them has failed.\<close>

definition reload_due :: "('w, 'e, 'v) lua_conc \<Rightarrow> bool" where
  "reload_due s \<longleftrightarrow> lx_resp_fn (lc_exec s) = None \<and>
     (lx_sha (lc_exec s) \<noteq> [] \<or> lc_slow s \<noteq> {#} \<or> 0 < lc_pending s \<or> lc_failed s)"

lemma reload_goroutine_resp: "reload_goroutine l w = (l', w') \<Longrightarrow> lx_resp_fn l' = lx_resp_fn l"
  by (auto simp: reload_goroutine_def prepare_lua_script_def split: if_splits option.splits prod.splits sum.splits)

lemma slow_path_reloads:
  "lx_resp_fn l = None \<Longrightarrow> slow_path_with_lock client l keys args w = (None, reload, w') \<Longrightarrow> reload"
  by (auto simp: slow_path_with_lock_def split: prod.splits sum.splits)

lemma conc_step_reload_due:
  assumes "conc_step no_script client s t" "reload_due s"
  shows "reload_due t"
  using assms
proof cases
  case (slow_path keys args err reload w)
  with assms(2) show ?thesis
    using slow_path_reloads [of "lc_exec s" client keys args "lc_world s" reload w]
    by (cases err) (auto simp: reload_due_def)
next
  case (reload n l w)
  with assms(2) show ?thesis by (auto simp: reload_due_def dest: reload_goroutine_resp)
qed (auto simp: reload_due_def)

interpretation conc: preserved "conc_step no_script client" reload_due for no_script client
  by unfold_locales (rule conc_step_reload_due)

text \<open>C20: no interleaving loses the reload of the script. Start any number of concurrent updates on a
  prepared executor without a response callback, with Redis dropping its scripts at any time: whenever
  all slow paths and reloads have finished and none of them failed, the executor holds a SHA again.\<close>

theorem lua_no_reload_lost:
  assumes "(conc_step no_script client)\<^sup>*\<^sup>* (conc_init l w) s" "lx_sha l \<noteq> []" "lx_resp_fn l = None"
    and "lc_slow s = {#}" "lc_pending s = 0" "\<not> lc_failed s"
  shows "lx_sha (lc_exec s) \<noteq> []"
proof -
  have "reload_due (conc_init l w)" using assms(2,3) by (simp add: reload_due_def conc_init_def)
  with assms(1) have "reload_due s" by (rule conc.run_preserves)
  with assms(4-) show ?thesis by (simp add: reload_due_def)
qed

definition demo_conc :: "string \<Rightarrow> demo_redis \<Rightarrow> lua_call multiset \<Rightarrow> lua_call multiset \<Rightarrow> nat \<Rightarrow> (demo_redis, string, int) lua_conc" where
  "demo_conc sha w rs sl n =
     \<lparr> lc_exec = (demo_exec None)\<lparr> lx_sha := sha \<rparr>, lc_world = w, lc_reset = rs, lc_slow = sl, lc_pending = n, lc_failed = False \<rparr>"

lemma demo_conc_run:
  "(conc_step (\<lambda>e. e = ''NOSCRIPT'') demo_client)\<^sup>*\<^sup>* (conc_init (demo_exec None) ([], []))
     (demo_conc ''sha-S'' ([''S''], [''S'', ''S'']) {#} {#} 0)"
proof -
  let ?R = "conc_step (\<lambda>e. e = ''NOSCRIPT'') demo_client"
  let ?a = "([''a''], []) :: lua_call" and ?b = "([''b''], []) :: lua_call"
  note defs = demo_conc_def demo_exec_def demo_client_def
  have "conc_init (demo_exec None) ([], []) = demo_conc ''sha-S'' ([], []) {#} {#} 0"
    by (simp add: conc_init_def demo_conc_def demo_exec_def)
  moreover have "?R (demo_conc ''sha-S'' ([], []) {#} {#} 0) (demo_conc ''sha-S'' ([], []) {#?a#} {#} 0)"
    using fast_lost [of demo_client "demo_conc ''sha-S'' ([], []) {#} {#} 0" "[''a'']" "[]" "Call_Failed ''NOSCRIPT''" "([], [])"]
    by (simp add: defs fast_path_def lost_script_def)
  moreover have "?R (demo_conc ''sha-S'' ([], []) {#?a#} {#} 0) (demo_conc [] ([], []) {#} {#?a#} 0)"
    using reset_sha [of ?a "demo_conc ''sha-S'' ([], []) {#?a#} {#} 0"] by (simp add: defs)
  moreover have "?R (demo_conc [] ([], []) {#} {#?a#} 0) (demo_conc [] ([], []) {#} {#?b, ?a#} 0)"
    using fast_failed [of demo_client "demo_conc [] ([], []) {#} {#?a#} 0" "[''b'']" "[]" Sha_Empty "([], [])"]
    by (simp add: defs fast_path_def lost_script_def)
  moreover have "?R (demo_conc [] ([], []) {#} {#?b, ?a#} 0) (demo_conc [] ([], [''S'']) {#} {#?b#} 1)"
    using slow_path [of "[''a'']" "[]" "demo_conc [] ([], []) {#} {#?b, ?a#} 0" demo_client None True "([], [''S''])"]
    by (simp add: defs slow_path_with_lock_def)
  moreover have "?R (demo_conc [] ([], [''S'']) {#} {#?b#} 1) (demo_conc ''sha-S'' ([''S''], [''S'']) {#} {#?b#} 0)"
    using reload [of "demo_conc [] ([], [''S'']) {#} {#?b#} 1" 0 "(demo_exec None)\<lparr> lx_sha := ''sha-S'' \<rparr>" "([''S''], [''S''])"]
    by (simp add: defs reload_goroutine_def prepare_lua_script_def)
  moreover have "?R (demo_conc ''sha-S'' ([''S''], [''S'']) {#} {#?b#} 0) (demo_conc ''sha-S'' ([''S''], [''S'', ''S'']) {#} {#} 1)"
    using slow_path [of "[''b'']" "[]" "demo_conc ''sha-S'' ([''S''], [''S'']) {#} {#?b#} 0" demo_client None True "([''S''], [''S'', ''S''])"]
    by (simp add: defs slow_path_with_lock_def)
  moreover have "?R (demo_conc ''sha-S'' ([''S''], [''S'', ''S'']) {#} {#} 1) (demo_conc ''sha-S'' ([''S''], [''S'', ''S'']) {#} {#} 0)"
    using reload [of "demo_conc ''sha-S'' ([''S''], [''S'', ''S'']) {#} {#} 1" 0 "demo_exec None" "([''S''], [''S'', ''S''])"]
    by (simp add: defs reload_goroutine_def)
  ultimately show ?thesis
    by (auto intro: converse_rtranclp_into_rtranclp)
qed

theorem lua_no_reload_lost_witness:
  "lx_sha (lc_exec (demo_conc ''sha-S'' ([''S''], [''S'', ''S'']) {#} {#} 0)) \<noteq> []"
  by (rule lua_no_reload_lost [OF demo_conc_run]) (simp_all add: demo_exec_def demo_conc_def)

end
