(* ===== verification/Interceptors.thy ===== *)
theory Interceptors
  imports Client_Hooks
begin

text \<open>
  The RPC interceptors of \<open>interceptor/\<close>: rate limiter, call counter, metrics, request log and
  tracing. A handler \<open>next\<close> is a function on the state it changes; a response with an error is a
  result. The limiter, the tracer, the propagator and the classification of errors into codes are
  parameters. Calls that only read the request are given what they read.
\<close>

section \<open>Rate limiter (\<open>rate_limiter.go\<close>)\<close>

datatype 'e rpc_error = Unavailable string | Resource_Exhausted string | Handler_Error 'e

definition rate_key :: "string \<Rightarrow> string \<Rightarrow> string" where
  "rate_key addr url = hd (split_on CHR '':'' addr) @ ''#'' @ url"

definition qps_rate_limiter ::
  "(string \<Rightarrow> 's \<Rightarrow> (string, int) result \<times> 's) \<Rightarrow> string \<Rightarrow> string \<Rightarrow> ('s \<Rightarrow> ('e, 'r) result \<times> 's) \<Rightarrow> 's \<Rightarrow>
   ('e rpc_error, 'r) result \<times> 's" where
  "qps_rate_limiter allow url addr next s =
     (case allow (rate_key addr url) s of
        (Inl err, s) \<Rightarrow> (Inl (Unavailable (''rate limiter backend error: '' @ err)), s)
      | (Inr allowed, s) \<Rightarrow>
          if allowed \<le> 0 then (Inl (Resource_Exhausted ''rate-limited''), s)
          else (case next s of (Inl e, s) \<Rightarrow> (Inl (Handler_Error e), s) | (Inr r, s) \<Rightarrow> (Inr r, s)))"

section \<open>Call counter (\<open>counter.go\<close>)\<close>

text \<open>The concurrent map of counters, the calls that missed the entry and have still to store one, and,
  for the statements only, the number of finished increments per key.\<close>

record counter_state =
  cs_map :: "string \<Rightarrow> 64 word option"
  cs_missed :: "string \<Rightarrow> nat"
  cs_finished :: "string \<Rightarrow> nat"

definition counted :: "string \<Rightarrow> counter_state \<Rightarrow> counter_state" where
  "counted k c = c\<lparr> cs_finished := (cs_finished c)(k := Suc (cs_finished c k)) \<rparr>"

text \<open>\<open>increment\<close> is one atomic step when \<open>Load\<close> finds the counter, two when it does not.\<close>

inductive count_step :: "counter_state \<Rightarrow> counter_state \<Rightarrow> bool" where
  load_hit: "cs_map c k = Some v \<Longrightarrow>
    count_step c (counted k (c\<lparr> cs_map := (cs_map c)(k := Some (v + 1)) \<rparr>))"
| load_miss: "cs_map c k = None \<Longrightarrow>
    count_step c (c\<lparr> cs_missed := (cs_missed c)(k := Suc (cs_missed c k)) \<rparr>)"
| store_new: "cs_missed c k = Suc n \<Longrightarrow> cs_map c k = None \<Longrightarrow>
    count_step c (counted k (c\<lparr> cs_missed := (cs_missed c)(k := n), cs_map := (cs_map c)(k := Some 1) \<rparr>))"
| store_loaded: "cs_missed c k = Suc n \<Longrightarrow> cs_map c k = Some v \<Longrightarrow>
    count_step c (counted k (c\<lparr> cs_missed := (cs_missed c)(k := n), cs_map := (cs_map c)(k := Some (v + 1)) \<rparr>))"

inductive_cases count_stepE: "count_step c d"

definition counter_start :: counter_state where
  "counter_start = \<lparr> cs_map = (\<lambda>_. None), cs_missed = (\<lambda>_. 0), cs_finished = (\<lambda>_. 0) \<rparr>"

definition count_reachable :: "counter_state \<Rightarrow> bool" where
  "count_reachable c \<longleftrightarrow> count_step\<^sup>*\<^sup>* counter_start c"

text \<open>The report of one round: the entries in ascending order of their value, cut after \<open>topk\<close>.\<close>

definition rpc_counter_report :: "(string \<times> 64 word) list \<Rightarrow> nat \<Rightarrow> (string \<times> 64 word) list" where
  "rpc_counter_report mapper topk =
     (let es = sort_key snd mapper;
          tail = (if length es < topk then length es else topk)
      in take tail es)"

section \<open>Metrics (\<open>metrics.go\<close>)\<close>

text \<open>What a call does: return, or panic.\<close>

datatype ('e, 'r, 'p) handled = Returned "('e, 'r) result" | Panicked 'p

record metrics_state =
  ms_requests :: "(string \<times> string \<times> string) list"
  ms_durations :: "(string \<times> string \<times> string) list"

definition service_name_from_env :: "(string \<Rightarrow> string) \<Rightarrow> string" where
  "service_name_from_env env = str_or_default (trim_space (env ''SERVICE_ID'')) ''lunaship''"

text \<open>The counters are written after the call has returned, not in a deferred function.\<close>

definition metrics_interceptor ::
  "('e option \<Rightarrow> string) \<Rightarrow> string \<Rightarrow> string \<Rightarrow> ('s \<Rightarrow> ('e, 'r, 'p) handled \<times> 's) \<Rightarrow> 's \<Rightarrow> metrics_state \<Rightarrow>
   ('e, 'r, 'p) handled \<times> 's \<times> metrics_state" where
  "metrics_interceptor code_of service endpoint next s m =
     (case next s of
        (Panicked p, s) \<Rightarrow> (Panicked p, s, m)
      | (Returned res, s) \<Rightarrow>
          let code = code_of (case res of Inl e \<Rightarrow> Some e | Inr _ \<Rightarrow> None);
              labels = (service, endpoint, code)
          in (Returned res, s, m\<lparr> ms_requests := ms_requests m @ [labels], ms_durations := ms_durations m @ [labels] \<rparr>))"

section \<open>Request log (\<open>req_rsp_logger.go\<close>)\<close>

record rpc_request =
  rq_remote_service :: string
  rq_procedure :: string
  rq_peer_addr :: string
  rq_peer_protocol :: string
  rq_http_method :: string
  rq_parameters :: string

definition remote_service_from_header :: "string \<Rightarrow> string" where
  "remote_service_from_header raw = trim_space raw"

definition base_fields :: "rpc_request \<Rightarrow> 64 word \<Rightarrow> log_field list" where
  "base_fields req start =
     [field ''_remote_service'' (F_String (remote_service_from_header (rq_remote_service req))),
      field ''_remote_endpoint'' (F_String (rq_procedure req)),
      field ''_remote_ip_port'' (F_String (rq_peer_addr req)),
      field ''_rpc_protocol'' (F_String (rq_peer_protocol req)),
      field ''_http_method'' (F_String (rq_http_method req)),
      field ''_start_ms'' (F_Uint start)]"

text \<open>The deferred function; a handler that panicked has left \<open>resp\<close> and \<open>err\<close> nil.\<close>

definition log_response ::
  "log_ctx option \<Rightarrow> ('e \<Rightarrow> string) \<Rightarrow> ('e \<Rightarrow> string) \<Rightarrow> ('r \<Rightarrow> string) \<Rightarrow> log_field list \<Rightarrow> 64 word \<Rightarrow>
   ('e, 'r, 'p) handled \<Rightarrow> telemetry \<Rightarrow> telemetry" where
  "log_response ctx code_of text render base dur h t =
     (let resp = (case h of Returned (Inr r) \<Rightarrow> render r | _ \<Rightarrow> ''nil'');
          fs = [field ''_resp'' (F_Any resp), field ''_dur_ms'' (F_Uint dur)]
      in case h of
           Returned (Inl e) \<Rightarrow>
             log_at error_level ''response''
               (base @ fs @ [field ''_err_code'' (F_String (code_of e)), field ''_error'' (F_Error (text e))]) t
         | _ \<Rightarrow> if is_sampled ctx then log_at info_level ''response'' (base @ fs) t else t)"

definition logger_interceptor ::
  "log_ctx option \<Rightarrow> ('e \<Rightarrow> string) \<Rightarrow> ('e \<Rightarrow> string) \<Rightarrow> ('r \<Rightarrow> string) \<Rightarrow> rpc_request \<Rightarrow> int \<Rightarrow> int \<Rightarrow>
   ('s \<Rightarrow> ('e, 'r, 'p) handled \<times> 's) \<Rightarrow> 's \<Rightarrow> telemetry \<Rightarrow> ('e, 'r, 'p) handled \<times> 's \<times> telemetry" where
  "logger_interceptor ctx code_of text render req now1 now2 next s t =
     (let start = now_in_ms now1;
          base = fields_from_context ctx @ base_fields req start;
          t = (if is_sampled ctx
               then log_at info_level ''request'' (base @ [field ''_parameters'' (F_Any (rq_parameters req))]) t else t)
      in case next s of (h, s) \<Rightarrow>
           (h, s, log_response ctx code_of text render base (now_in_ms now2 - start) h t))"

section \<open>Tracing (\<open>trace.go\<close>)\<close>

record span_context =
  sc_valid :: bool
  sc_trace_id :: string
  sc_span_id :: string
  sc_sampled :: bool

definition trace_identifiers :: "span_context \<Rightarrow> string \<times> string \<times> bool" where
  "trace_identifiers sc = (if \<not> sc_valid sc then ([], [], True) else (sc_trace_id sc, sc_span_id sc, sc_sampled sc))"

definition parent_span_id :: "span_context \<Rightarrow> string" where
  "parent_span_id parent = (if \<not> sc_valid parent then [] else sc_span_id parent)"

text \<open>A request context: the values of package \<open>log\<close> and the current span context.\<close>

record req_ctx =
  rx_log :: log_ctx
  rx_span :: span_context

type_synonym headers = "(string \<times> string) list"

definition server_span_attrs :: "string \<Rightarrow> (string \<times> fvalue) list" where
  "server_span_attrs meth =
     (''rpc.system'', F_String ''connect'') # (if meth \<noteq> [] then [(''http.method'', F_String meth)] else [])"

definition trace_into_log :: "req_ctx \<Rightarrow> string \<Rightarrow> req_ctx" where
  "trace_into_log ctx parent =
     (case trace_identifiers (rx_span ctx) of (t, s, sampled) \<Rightarrow>
        ctx\<lparr> rx_log := with_trace (rx_log ctx) t s parent sampled \<rparr>)"

text \<open>\<open>extract\<close> reads the remote span context into the context, \<open>tracer\<close> starts a child span.\<close>

definition start_server_span ::
  "(headers \<Rightarrow> req_ctx \<Rightarrow> req_ctx) \<Rightarrow> (string \<Rightarrow> req_ctx \<Rightarrow> req_ctx) \<Rightarrow> string \<Rightarrow> string \<Rightarrow> headers \<Rightarrow> req_ctx \<Rightarrow>
   (string \<times> fvalue) list \<times> req_ctx" where
  "start_server_span extract tracer procedure meth hs ctx =
     (let ctx = extract hs ctx;
          parent = parent_span_id (rx_span ctx);
          ctx = tracer procedure ctx
      in (server_span_attrs meth, trace_into_log ctx parent))"

definition start_client_span ::
  "(req_ctx \<Rightarrow> headers \<Rightarrow> headers) \<Rightarrow> (string \<Rightarrow> req_ctx \<Rightarrow> req_ctx) \<Rightarrow> string \<Rightarrow> string \<Rightarrow> string \<Rightarrow> headers \<Rightarrow> req_ctx \<Rightarrow>
   (string \<times> fvalue) list \<times> req_ctx \<times> headers" where
  "start_client_span inject tracer caller_app procedure meth hs ctx =
     (let parent = parent_span_id (rx_span ctx);
          ctx = tracer procedure ctx;
          ctx = trace_into_log ctx parent;
          hs = (if caller_app \<noteq> [] then AList.update ''X-Lunaship-Remote-Service'' caller_app hs else hs)
      in (server_span_attrs meth, ctx, inject ctx hs))"

text \<open>The client interceptor; the calls of a client do not panic.\<close>

definition trace_interceptor ::
  "('e \<Rightarrow> string) \<Rightarrow> string \<Rightarrow> (string \<times> fvalue) list \<Rightarrow> req_ctx \<Rightarrow>
   (req_ctx \<Rightarrow> 's \<Rightarrow> ('e, 'r) result \<times> 's) \<Rightarrow> 's \<Rightarrow> telemetry \<Rightarrow> ('e, 'r) result \<times> 's \<times> telemetry" where
  "trace_interceptor text name attrs ctx next s t =
     (case next ctx s of (res, s) \<Rightarrow>
        (res, s, end_span \<lparr> sp_name = name, sp_attrs = attrs,
           sp_errors = (case res of Inl e \<Rightarrow> [text e] | Inr _ \<Rightarrow> []),
           sp_status_error = (case res of Inl e \<Rightarrow> Some (text e) | Inr _ \<Rightarrow> None) \<rparr> t))"

text \<open>The server interceptor ends the span in a deferred call; \<open>panic_events\<close> is what the library's \<open>End\<close> records of a
  panic that passes through it.\<close>

definition trace_server_interceptor ::
  "('e \<Rightarrow> string) \<Rightarrow> ('p \<Rightarrow> string list) \<Rightarrow> string \<Rightarrow> (string \<times> fvalue) list \<Rightarrow> req_ctx \<Rightarrow>
   (req_ctx \<Rightarrow> 's \<Rightarrow> telemetry \<Rightarrow> ('e, 'r, 'p) handled \<times> 's \<times> telemetry) \<Rightarrow> 's \<Rightarrow> telemetry \<Rightarrow>
   ('e, 'r, 'p) handled \<times> 's \<times> telemetry" where
  "trace_server_interceptor text panic_events name attrs ctx next s t =
     (case next ctx s t of (h, s, t) \<Rightarrow>
        (h, s, end_span \<lparr> sp_name = name, sp_attrs = attrs,
           sp_errors = (case h of Returned (Inl e) \<Rightarrow> [text e] | Returned (Inr _) \<Rightarrow> [] | Panicked p \<Rightarrow> panic_events p),
           sp_status_error = (case h of Returned (Inl e) \<Rightarrow> Some (text e) | _ \<Rightarrow> None) \<rparr> t))"

section \<open>The Redis counter, recovery and asynchronous spans\<close>

text \<open>\<open>NewRedisRpcCounter\<close> starts a goroutine per call, which increments a field of a hash; \<open>jobs\<close> are the
  procedures whose goroutines have still to run. \<open>client\<close> is the global client with its \<open>HIncrBy\<close>: calling
  it while it is nil panics, which \<open>utils.Go\<close> swallows.\<close>

definition redis_rpc_counter :: "string \<Rightarrow> ('s \<Rightarrow> 'a \<times> 's) \<Rightarrow> 's \<Rightarrow> string list \<Rightarrow> 'a \<times> 's \<times> string list" where
  "redis_rpc_counter url next s jobs =
     (let jobs = jobs @ [url] in case next s of (res, s) \<Rightarrow> (res, s, jobs))"

definition count_call ::
  "(string \<Rightarrow> string \<Rightarrow> int \<Rightarrow> 'w \<Rightarrow> string option \<times> 'w) option \<Rightarrow> string \<Rightarrow> 'w \<times> telemetry \<Rightarrow>
   string option \<times> 'w \<times> telemetry" where
  "count_call client url wt =
     (case client of None \<Rightarrow> (Some ''nil pointer dereference'', wt)
      | Some hincrby \<Rightarrow>
          case hincrby ''rpc_counter'' url 1 (fst wt) of
            (None, w) \<Rightarrow> (None, w, snd wt)
          | (Some e, w) \<Rightarrow>
              (None, w, log_at error_level ''rpc_counter'' [field ''url'' (F_String url), field ''error'' (F_Error e)] (snd wt)))"

definition count_job ::
  "(string \<Rightarrow> string \<Rightarrow> int \<Rightarrow> 'w \<Rightarrow> string option \<times> 'w) option \<Rightarrow> string \<Rightarrow> 'w \<times> telemetry \<Rightarrow>
   string option \<times> 'w \<times> telemetry" where
  "count_job client url wt = go_safe (count_call client url) wt"

text \<open>\<open>infra/recover.go\<close>: a panic of a handler is logged and answered with the code \<open>Internal\<close>.\<close>

datatype recover_error = Code_Internal

definition recover_fn ::
  "log_ctx option \<Rightarrow> string \<Rightarrow> string \<Rightarrow> string \<Rightarrow> telemetry \<Rightarrow> recover_error \<times> telemetry" where
  "recover_fn ctx procedure recovered stack t =
     (Code_Internal, log_at error_level ''request panic'' (fields_from_context ctx @
        [field ''target'' (F_String procedure), field ''recover'' (F_Any recovered), field ''stack'' (F_String stack)]) t)"

text \<open>\<open>StartAsyncSpan\<close> of \<open>trace/trace.go\<close>: the function it returns ends the span.\<close>

definition end_async_span :: "string \<Rightarrow> string option \<Rightarrow> telemetry \<Rightarrow> telemetry" where
  "end_async_span name err t =
     end_span \<lparr> sp_name = name, sp_attrs = [],
       sp_errors = (case err of None \<Rightarrow> [] | Some e \<Rightarrow> [e]), sp_status_error = err \<rparr> t"

text \<open>Registering a collector: an answer that it is registered already is not an error, any other error
  panics. Four packages share this code.\<close>

datatype register_answer = Registered | Already_Registered | Register_Failed string

definition register_collector :: "register_answer \<Rightarrow> string option" where
  "register_collector answer = (case answer of Register_Failed e \<Rightarrow> Some e | _ \<Rightarrow> None)"

section \<open>Laws\<close>

text \<open>The rate limiter asks the limiter once, under a key of the peer and the procedure, and runs the
  handler exactly when a request is allowed; otherwise the handler's state is untouched.\<close>

lemma rate_limiter_gate:
  assumes "allow (rate_key addr url) s = (answer, s1)"
  shows "qps_rate_limiter allow url addr next s =
    (if \<exists>n. answer = Inr n \<and> 0 < n
     then (map_sum Handler_Error id (fst (next s1)), snd (next s1))
     else (Inl (case answer of Inl e \<Rightarrow> Unavailable (''rate limiter backend error: '' @ e)
                 | Inr _ \<Rightarrow> Resource_Exhausted ''rate-limited''), s1))"
  using assms by (auto simp: qps_rate_limiter_def split: sum.split prod.split)

lemma rate_limiter_gate_witness:
  "qps_rate_limiter (\<lambda>k n. (if n < (2::nat) then Inr 1 else Inr 0, Suc n)) ''/a.B/C'' ''10.0.0.7:51234''
     (\<lambda>n. (Inr n :: (string, nat) result, n)) 2 = (Inl (Resource_Exhausted ''rate-limited''), 3)"
  using rate_limiter_gate [of "\<lambda>k n. (if n < (2::nat) then Inr 1 else Inr 0, Suc n)" "''10.0.0.7:51234''" "''/a.B/C''" 2 "Inr 0" 3
      "\<lambda>n. (Inr n :: (string, nat) result, n)"]
  by simp

lemma hd_split_on: "d \<notin> set h \<Longrightarrow> hd (split_on d (h @ d # rest)) = h"
proof (induction h)
  case (Cons c cs)
  then obtain f fs where "split_on d (cs @ d # rest) = f # fs" by (cases "split_on d (cs @ d # rest)") auto
  with Cons show ?case by auto
qed simp

text \<open>The key separates IPv4 peers by address whatever their port, but it ends at the first colon, so
  all IPv6 peers with the same first group share one limit (with \<open>::\<close> first, the key is just a bracket).\<close>

lemma rate_key_first_colon:
  assumes "CHR '':'' \<notin> set h"
  shows "rate_key (h @ '':'' @ rest) url = h @ ''#'' @ url"
  using hd_split_on [OF assms, of rest] by (simp add: rate_key_def)

lemma rate_key_first_colon_witness:
  "rate_key ''[2001:db8::1]:80'' ''/p'' = ''[2001#/p'' \<and> rate_key ''[2001:beef::2]:80'' ''/p'' = ''[2001#/p''"
  using rate_key_first_colon [of "''[2001''" "''db8::1]:80''" "''/p''"]
    rate_key_first_colon [of "''[2001''" "''beef::2]:80''" "''/p''"] by simp

text \<open>The counter of every procedure is the number of finished increments for it.\<close>

definition counts_agree :: "counter_state \<Rightarrow> bool" where
  "counts_agree c \<longleftrightarrow> (\<forall>k. (case cs_map c k of None \<Rightarrow> 0 | Some v \<Rightarrow> v) = of_nat (cs_finished c k))"

lemma counts_agreeD: "counts_agree c \<Longrightarrow> cs_map c k = Some v \<Longrightarrow> v = of_nat (cs_finished c k)"
  "counts_agree c \<Longrightarrow> cs_map c k = None \<Longrightarrow> of_nat (cs_finished c k) = (0 :: 64 word)"
  unfolding counts_agree_def by (metis option.simps(5), metis option.simps(4))

lemma count_step_agree:
  assumes "count_step c d" "counts_agree c"
  shows "counts_agree d"
  using assms
  by cases (auto simp: counts_agree_def counted_def counts_agreeD [OF assms(2)] add.commute)

interpretation counting: preserved count_step counts_agree
  by unfold_locales (rule count_step_agree)

text \<open>C15: no interleaving of concurrent calls loses a count: in every reachable state the counter of a
  procedure is the number of finished increments for it, modulo \<open>2^64\<close>.\<close>

theorem counter_exact:
  assumes "count_reachable c"
  shows "(case cs_map c k of None \<Rightarrow> 0 | Some v \<Rightarrow> v) = of_nat (cs_finished c k)"
proof -
  have "counts_agree counter_start" by (simp add: counts_agree_def counter_start_def)
  with assms have "counts_agree c" unfolding count_reachable_def by (rule counting.run_preserves)
  then show ?thesis by (simp add: counts_agree_def)
qed

theorem counter_exact_witness:
  "\<exists>c. count_reachable c \<and> cs_finished c ''/p'' = 2 \<and> cs_map c ''/p'' = Some 2"
proof -
  define m1 where "m1 = counter_start\<lparr> cs_missed := (\<lambda>_. 0)(''/p'' := 1) \<rparr>"
  define m2 where "m2 = counter_start\<lparr> cs_missed := (\<lambda>_. 0)(''/p'' := 2) \<rparr>"
  define c where "c = counted ''/p'' (m2\<lparr> cs_missed := (cs_missed m2)(''/p'' := 1), cs_map := (cs_map m2)(''/p'' := Some 1) \<rparr>)"
  define d where "d = counted ''/p'' (c\<lparr> cs_missed := (cs_missed c)(''/p'' := 0), cs_map := (cs_map c)(''/p'' := Some (1 + 1)) \<rparr>)"
  have 1: "count_step counter_start m1"
    using load_miss [of counter_start "''/p''"] by (simp add: counter_start_def m1_def)
  have 2: "count_step m1 m2"
    using load_miss [of m1 "''/p''"] by (simp add: counter_start_def m1_def m2_def numeral_2_eq_2)
  have 3: "count_step m2 c" unfolding c_def by (rule store_new) (simp_all add: counter_start_def m2_def)
  have c: "cs_missed c ''/p'' = 1" "cs_map c ''/p'' = Some 1" "cs_finished c ''/p'' = 1"
    by (simp_all add: c_def counted_def m2_def counter_start_def)
  have 4: "count_step c d" unfolding d_def by (rule store_loaded) (simp_all add: c)
  have "count_step\<^sup>*\<^sup>* counter_start m1" using 1 by (rule r_into_rtranclp)
  from rtranclp.rtrancl_into_rtrancl [OF this 2] have "count_step\<^sup>*\<^sup>* counter_start m2" .
  from rtranclp.rtrancl_into_rtrancl [OF this 3] have "count_step\<^sup>*\<^sup>* counter_start c" .
  from rtranclp.rtrancl_into_rtrancl [OF this 4] have r: "count_reachable d" by (simp add: count_reachable_def)
  have "cs_finished d ''/p'' = 2" "cs_map d ''/p'' = Some 2" using c by (simp_all add: d_def counted_def)
  with r counter_exact [OF r, of "''/p''"] show ?thesis by blast
qed

text \<open>The goroutine of the Redis counter never panics, with or without a client.\<close>

lemma count_job_effect:
  "count_job client url (w, t) =
     (None, case client of None \<Rightarrow> (w, t)
      | Some hincrby \<Rightarrow>
          let (err, w) = hincrby ''rpc_counter'' url 1 w
          in (w, case err of None \<Rightarrow> t
                 | Some e \<Rightarrow> log_at error_level ''rpc_counter'' [field ''url'' (F_String url), field ''error'' (F_Error e)] t))"
  by (simp add: count_job_def count_call_def go_safe_def go_with_action_def split: option.split prod.split)

text \<open>The periodic report shows the least used procedures, not the most used: every counter it leaves
  out is at least as large as every counter it prints.\<close>

lemma rpc_counter_report_smallest:
  assumes "e \<in> set (rpc_counter_report mapper topk)" "f \<in># mset mapper - mset (rpc_counter_report mapper topk)"
  shows "snd e \<le> snd f"
proof -
  let ?s = "sort_key snd mapper"
  have r: "rpc_counter_report mapper topk = take topk ?s" by (simp add: rpc_counter_report_def Let_def)
  have "mset mapper - mset (take topk ?s) = mset (drop topk ?s)"
  proof -
    have "mset (take topk ?s @ drop topk ?s) = mset mapper" by (simp only: append_take_drop_id mset_sort)
    then have "mset mapper = mset (take topk ?s) + mset (drop topk ?s)" by (simp only: mset_append)
    then show ?thesis by (simp only: add_diff_cancel_left')
  qed
  then have f: "f \<in> set (drop topk ?s)" using assms(2) r by simp
  have "sorted (map snd (take topk ?s) @ map snd (drop topk ?s))"
    by (metis append_take_drop_id map_append sorted_sort_key)
  then show ?thesis using assms(1) f r by (auto simp: sorted_append)
qed

lemma rpc_counter_report_smallest_witness:
  "rpc_counter_report [(''/busy'', 900), (''/idle'', 1)] 1 = [(''/idle'', 1)] \<and> (1 :: 64 word) \<le> 900"
proof -
  have r: "rpc_counter_report [(''/busy'', 900), (''/idle'', 1)] 1 = [(''/idle'', 1)]"
    by (simp add: rpc_counter_report_def word_le_nat_alt)
  show ?thesis
    using rpc_counter_report_smallest [of "(''/idle'', 1)" "[(''/busy'', 900), (''/idle'', 1)]" 1 "(''/busy'', 900)"]
    unfolding r by simp
qed

text \<open>The request log never hides a failure: an error response is logged at error level with its code
  whether or not the call is sampled, and an unsampled call that succeeds logs nothing.\<close>

lemma logger_interceptor_reports:
  "(let (h, s', t') = logger_interceptor ctx code_of text render req now1 now2 next s t;
        base = fields_from_context ctx @ base_fields req (now_in_ms now1) in
      next s = (h, s') \<and> tl_spans t' = tl_spans t \<and>
      (case h of
         Returned (Inl e) \<Rightarrow> \<exists>es fs. tl_entries t' = es @ [(error_level, ''response'', fs)] \<and>
            field ''_err_code'' (F_String (code_of e)) \<in> set fs
       | _ \<Rightarrow> tl_entries t' = tl_entries t @ (if is_sampled ctx then
            [(info_level, ''request'', base @ [field ''_parameters'' (F_Any (rq_parameters req))]),
             (info_level, ''response'', base @
               [field ''_resp'' (F_Any (case h of Returned (Inr r) \<Rightarrow> render r | _ \<Rightarrow> ''nil'')),
                field ''_dur_ms'' (F_Uint (now_in_ms now2 - now_in_ms now1))])] else [])))"
  by (auto simp: logger_interceptor_def log_response_def log_at_def Let_def split: prod.split handled.split sum.split)

lemma metrics_once:
  "metrics_interceptor code_of service endpoint next s m = (Returned res, s', m') \<Longrightarrow>
   next s = (Returned res, s') \<and> length (ms_requests m') = Suc (length (ms_requests m)) \<and>
   last (ms_requests m') = (service, endpoint, code_of (case res of Inl e \<Rightarrow> Some e | Inr _ \<Rightarrow> None))"
  by (auto simp: metrics_interceptor_def Let_def split: prod.splits handled.splits)

lemma server_span_trace_logged:
  assumes "sc_valid (rx_span (tracer procedure (extract hs ctx)))"
    "sc_trace_id (rx_span (tracer procedure (extract hs ctx))) \<noteq> []"
    "sc_span_id (rx_span (tracer procedure (extract hs ctx))) \<noteq> []"
  shows "trace_from_context (Some (rx_log (snd (start_server_span extract tracer procedure meth hs ctx)))) =
    Some (sc_trace_id (rx_span (tracer procedure (extract hs ctx))), sc_span_id (rx_span (tracer procedure (extract hs ctx))))"
  using assms by (simp add: start_server_span_def trace_into_log_def trace_identifiers_def Let_def with_trace_ids)

end
