(* ===== verification/Kafka_Carrier.thy ===== *)
theory Kafka_Carrier
  imports Go_Strings
begin

text \<open>
  The two carriers of \<open>kafka/instrumentation.go\<close> through which a propagator reads and writes the
  headers of a message, and the contract that the propagator relies on (its \<open>TextMapCarrier\<close>
  interface). The consumer's carrier can only replace a header that is there; the producer's carrier
  appends a missing one. Header names are compared with \<open>EqualFold\<close>. The headers of a consumed
  message are pointers to distinct headers, none nil: the carrier is their list of values.
\<close>

section \<open>The contract\<close>

locale header_reader =
  fixes get :: "'c \<Rightarrow> string \<Rightarrow> string"
    and keys :: "'c \<Rightarrow> string list"
  assumes get_fold: "equal_fold k k' \<Longrightarrow> get c k = get c k'"
    and get_absent: "\<forall>k' \<in> set (keys c). \<not> equal_fold k' k \<Longrightarrow> get c k = []"

locale header_carrier = header_reader +
  fixes set_header :: "'c \<Rightarrow> string \<Rightarrow> string \<Rightarrow> 'c"
  assumes get_set_present: "\<exists>k' \<in> set (keys c). equal_fold k' k \<Longrightarrow> get (set_header c k v) k = v"
    and get_set_other: "\<not> equal_fold k k' \<Longrightarrow> get (set_header c k v) k' = get c k'"
    and keys_set_mono: "set (keys c) \<subseteq> set (keys (set_header c k v))"

locale appending_carrier = header_carrier +
  assumes key_set: "\<exists>k' \<in> set (keys (set_header c k v)). equal_fold k' k"
    and get_set: "get (set_header c k v) k = v"

text \<open>\<open>Inject\<close> writes a list of fields, the propagator's, one after the other.\<close>

definition inject_with :: "('c \<Rightarrow> string \<Rightarrow> string \<Rightarrow> 'c) \<Rightarrow> (string \<times> string) list \<Rightarrow> 'c \<Rightarrow> 'c" where
  "inject_with put kvs c = fold (\<lambda>(k, v) c. put c k v) kvs c"

lemma inject_with_simps [simp]:
  "inject_with put [] c = c"
  "inject_with put ((k, v) # kvs) c = inject_with put kvs (put c k v)"
  by (simp_all add: inject_with_def)

text \<open>Names that a fold-insensitive lookup tells apart.\<close>

fun fold_distinct :: "string list \<Rightarrow> bool" where
  "fold_distinct [] = True"
| "fold_distinct (k # ks) = (list_all (\<lambda>k'. \<not> equal_fold k k') ks \<and> fold_distinct ks)"

context header_carrier
begin

lemma get_inject_other:
  "list_all (\<lambda>(k', _). \<not> equal_fold k' k) kvs \<Longrightarrow> get (inject_with set_header kvs c) k = get c k"
proof (induction kvs arbitrary: c)
  case (Cons kv kvs)
  then show ?case by (cases kv) (simp add: get_set_other)
qed simp

lemma keys_inject_mono: "set (keys c) \<subseteq> set (keys (inject_with set_header kvs c))"
proof (induction kvs arbitrary: c)
  case (Cons kv kvs)
  then show ?case using keys_set_mono by (cases kv) fastforce
qed simp

end

context appending_carrier
begin

lemma get_inject_same:
  "fold_distinct (map fst kvs) \<Longrightarrow> (k, v) \<in> set kvs \<Longrightarrow> get (inject_with set_header kvs c) k = v"
proof (induction kvs arbitrary: c)
  case (Cons kv kvs)
  obtain a b where kv: "kv = (a, b)" by (cases kv)
  show ?case
  proof (cases "(k, v) \<in> set kvs")
    case True
    with Cons kv show ?thesis by simp
  next
    case False
    with Cons.prems(2) kv have "a = k" "b = v" by auto
    moreover have "list_all (\<lambda>(k', _). \<not> equal_fold k' k) kvs"
      using Cons.prems(1) kv \<open>a = k\<close> equal_fold_sym by (auto simp: list_all_iff)
    ultimately show ?thesis using kv by (simp add: get_inject_other get_set)
  qed
qed simp

lemma get_inject:
  "fold_distinct (map fst kvs) \<Longrightarrow> (k, v) \<in> set kvs \<Longrightarrow> equal_fold k k' \<Longrightarrow>
   get (inject_with set_header kvs c) k' = v"
  using get_inject_same get_fold by metis

end

section \<open>The carriers\<close>

record record_header =
  hd_key :: string
  hd_value :: string

definition record_header :: "string \<Rightarrow> string \<Rightarrow> record_header" where
  "record_header k v = \<lparr> hd_key = k, hd_value = v \<rparr>"

fun header_get :: "record_header list \<Rightarrow> string \<Rightarrow> string" where
  "header_get [] key = []"
| "header_get (header # hs) key =
     (if equal_fold (hd_key header) key then hd_value header else header_get hs key)"

fun consumer_set :: "record_header list \<Rightarrow> string \<Rightarrow> string \<Rightarrow> record_header list" where
  "consumer_set [] key value = []"
| "consumer_set (header # hs) key value =
     (if equal_fold (hd_key header) key then header\<lparr> hd_value := value \<rparr> # hs
      else header # consumer_set hs key value)"

definition header_keys :: "record_header list \<Rightarrow> string list" where
  "header_keys hs = map hd_key hs"

fun producer_get :: "record_header list \<Rightarrow> string \<Rightarrow> string" where
  "producer_get [] key = []"
| "producer_get (header # hs) key =
     (if equal_fold (hd_key header) key then hd_value header else producer_get hs key)"

fun producer_set :: "record_header list \<Rightarrow> string \<Rightarrow> string \<Rightarrow> record_header list" where
  "producer_set [] key value = [\<lparr> hd_key = key, hd_value = value \<rparr>]"
| "producer_set (header # hs) key value =
     (if equal_fold (hd_key header) key then header\<lparr> hd_value := value \<rparr> # hs
      else header # producer_set hs key value)"

definition producer_keys :: "record_header list \<Rightarrow> string list" where
  "producer_keys hs = map hd_key hs"

subsection \<open>They meet the contract\<close>

lemma equal_fold_cong: "equal_fold k k' \<Longrightarrow> equal_fold h k = equal_fold h k'"
  using equal_fold_sym equal_fold_trans by blast

lemma fold_neither: "\<not> equal_fold k k' \<Longrightarrow> equal_fold h k \<Longrightarrow> equal_fold h k' \<Longrightarrow> False"
  using equal_fold_sym equal_fold_trans by blast

lemma producer_get_header_get: "producer_get = header_get"
proof (intro ext)
  fix hs k show "producer_get hs k = header_get hs k" by (induction hs) auto
qed

interpretation consumer: header_carrier header_get header_keys consumer_set
proof unfold_locales
  show "header_get c k = header_get c k'" if "equal_fold k k'" for k k' c
    by (induction c) (simp_all add: equal_fold_cong [OF that])
  show "header_get c k = []" if "\<forall>k' \<in> set (header_keys c). \<not> equal_fold k' k" for c k
    using that by (induction c) (auto simp: header_keys_def)
  show "header_get (consumer_set c k v) k = v" if "\<exists>k' \<in> set (header_keys c). equal_fold k' k" for c k v
    using that by (induction c) (auto simp: header_keys_def)
  show "header_get (consumer_set c k v) k' = header_get c k'" if "\<not> equal_fold k k'" for k k' c v
    using that by (induction c) (auto dest: fold_neither)
  show "set (header_keys c) \<subseteq> set (header_keys (consumer_set c k v))" for c k v
    by (induction c) (auto simp: header_keys_def)
qed

interpretation producer: appending_carrier producer_get producer_keys producer_set
proof unfold_locales
  show "producer_get c k = producer_get c k'" if "equal_fold k k'" for k k' c
    by (induction c) (simp_all add: equal_fold_cong [OF that])
  show "producer_get c k = []" if "\<forall>k' \<in> set (producer_keys c). \<not> equal_fold k' k" for c k
    using that by (induction c) (auto simp: producer_keys_def)
  show set: "producer_get (producer_set c k v) k = v" for c k v by (induction c) auto
  show "producer_get (producer_set c k v) k = v" for c k v by (rule set)
  show "producer_get (producer_set c k v) k' = producer_get c k'" if "\<not> equal_fold k k'" for k k' c v
    using that by (induction c) (auto dest: fold_neither)
  show "set (producer_keys c) \<subseteq> set (producer_keys (producer_set c k v))" for c k v
    by (induction c) (auto simp: producer_keys_def)
  show "\<exists>k' \<in> set (producer_keys (producer_set c k v)). equal_fold k' k" for c k v
    by (induction c) (auto simp: producer_keys_def)
qed

text \<open>A propagator's own header never grows the list when the name is there, in any case of letters.\<close>

lemma producer_set_keys:
  "producer_keys (producer_set hs k v) =
   (if \<exists>k' \<in> set (producer_keys hs). equal_fold k' k then producer_keys hs else producer_keys hs @ [k])"
  by (induction hs) (auto simp: producer_keys_def)

lemma consumer_set_keys: "header_keys (consumer_set hs k v) = header_keys hs"
  by (induction hs) (auto simp: header_keys_def)

end
