(* ===== verification/Kafka.thy ===== *)
theory Kafka
  imports Interceptors Kafka_Carrier
begin

text \<open>
  The Kafka client of \<open>kafka/\<close>: message metadata and instrumentation (\<open>instrumentation.go\<close>), the
  metrics calls (\<open>metrics.go\<close>), the producer (\<open>producer.go\<close>) and the consumer's handling of a claim
  (\<open>consumer.go\<close>). \<open>sarama\<close>, the tracer and the propagator are parameters, gathered in a record. The
  partition and the offset are only copied, so they are integers. Times are in nanoseconds and do not
  run backwards; a gauge is recorded with the nanoseconds that the code divides into milliseconds.
  Tracing identifiers are read as in the interceptors, whose code \<open>instrumentation.go\<close> repeats.
\<close>

section \<open>Names and addresses\<close>

fun first_broker :: "string list \<Rightarrow> string" where
  "first_broker [] = []"
| "first_broker (b # bs) = (let broker = trim_space b in if broker \<noteq> [] then broker else first_broker bs)"

definition primary_broker_endpoint :: "string \<Rightarrow> string" where
  "primary_broker_endpoint brokers = first_broker (split_on CHR '','' brokers)"

fun broker_loop :: "string list \<Rightarrow> string list" where
  "broker_loop [] = []"
| "broker_loop (b # bs) =
     (let broker = trim_space b in if broker = [] then broker_loop bs else broker # broker_loop bs)"

definition parse_broker_list :: "string \<Rightarrow> string list" where
  "parse_broker_list brokers = broker_loop (split_on CHR '','' brokers)"

definition join_host_port :: "string \<Rightarrow> int \<Rightarrow> string" where
  "join_host_port host0 port =
     (let host = trim_space host0 in
      if host = [] then [] else if port \<le> 0 then host else host @ '':'' @ itoa port)"

definition is_control :: "string \<Rightarrow> bool" where
  "is_control ch = (code_point ch < 32 \<or> 127 \<le> code_point ch \<and> code_point ch < 160)"

definition is_printable_kafka_key :: "string \<Rightarrow> bool" where
  "is_printable_kafka_key key =
     (if length key = 0 \<or> \<not> utf8_valid key then False else list_all (\<lambda>ch. \<not> is_control ch) (runes key))"

definition kafka_tracer_name :: "(string \<Rightarrow> string) \<Rightarrow> string" where
  "kafka_tracer_name env = (let name = trim_space (env ''APP_NAME'') in if name = [] then ''lunaship.kafka'' else name)"

text \<open>\<open>app\<close> is the application name of \<open>log.AppIdentity\<close>.\<close>

definition kafka_app_name :: "string \<Rightarrow> (string \<Rightarrow> string) \<Rightarrow> string" where
  "kafka_app_name app env = (if trim_space app \<noteq> [] then trim_space app else trim_space (env ''APP_NAME''))"

definition consumer_tracer_name :: "(string \<Rightarrow> string) \<Rightarrow> string" where
  "consumer_tracer_name env = kafka_tracer_name env"

definition consumer_app_name :: "string \<Rightarrow> (string \<Rightarrow> string) \<Rightarrow> string" where
  "consumer_app_name app env = kafka_app_name app env"

definition consumer_span_name :: "string \<Rightarrow> string \<Rightarrow> string" where
  "consumer_span_name name topic =
     (if trim_space name \<noteq> [] then ''kafka.consume '' @ name else ''kafka.consume '' @ topic)"

definition producer_span_name :: "string \<Rightarrow> string" where
  "producer_span_name topic = ''kafka.produce '' @ trim_space topic"

section \<open>Metadata of a message\<close>

record consumer_message =
  cm_topic :: string
  cm_partition :: int
  cm_offset :: int
  cm_key :: string
  cm_headers :: "record_header list"

record consumer_metadata =
  cd_topic :: string
  cd_partition :: int
  cd_offset :: int
  cd_consumer_group :: string
  cd_consumer_name :: string
  cd_instance_addr :: string
  cd_instance_port :: int
  cd_kafka_key :: string
  cd_app_name :: string
  cd_kafka_instance :: string
  cd_started_at :: int

record producer_metadata =
  pd_topic :: string
  pd_instance_addr :: string
  pd_instance_port :: int
  pd_kafka_key :: string
  pd_app_name :: string
  pd_kafka_instance :: string
  pd_started_at :: int

definition build_consumer_metadata ::
  "string \<Rightarrow> string \<Rightarrow> string \<Rightarrow> string \<Rightarrow> consumer_message \<Rightarrow> int \<Rightarrow> consumer_metadata" where
  "build_consumer_metadata app_name name grp broker_addr msg now =
     (let addr = primary_broker_endpoint broker_addr in
      \<lparr> cd_topic = cm_topic msg, cd_partition = cm_partition msg, cd_offset = cm_offset msg,
        cd_consumer_group = trim_space grp, cd_consumer_name = trim_space name,
        cd_instance_addr = addr, cd_instance_port = 0,
        cd_kafka_key = (if is_printable_kafka_key (cm_key msg) then cm_key msg else []),
        cd_app_name = app_name,
        cd_kafka_instance = (if addr \<noteq> [] then join_host_port addr 0 else []),
        cd_started_at = now \<rparr>)"

definition build_producer_metadata :: "string \<Rightarrow> string \<Rightarrow> string \<Rightarrow> string \<Rightarrow> int \<Rightarrow> producer_metadata" where
  "build_producer_metadata app_name brokers topic key now =
     (let addr = primary_broker_endpoint brokers in
      \<lparr> pd_topic = trim_space topic, pd_instance_addr = addr, pd_instance_port = 0,
        pd_kafka_key = (if is_printable_kafka_key key then key else []),
        pd_app_name = app_name,
        pd_kafka_instance = (if addr \<noteq> [] then join_host_port addr 0 else []),
        pd_started_at = now \<rparr>)"

definition consumer_context_fields :: "consumer_metadata \<Rightarrow> log_field list" where
  "consumer_context_fields d =
     [field ''_topic'' (F_String (cd_topic d)), field ''_partition'' (F_Int (cd_partition d)),
      field ''_offset'' (F_Int (cd_offset d)), field ''_consumer_group'' (F_String (cd_consumer_group d)),
      field ''_instance_addr'' (F_String (cd_instance_addr d))] @
     (if cd_consumer_name d \<noteq> [] then [field ''_consumer'' (F_String (cd_consumer_name d))] else []) @
     (if 0 < cd_instance_port d then [field ''_instance_port'' (F_Int (cd_instance_port d))] else []) @
     (if cd_kafka_key d \<noteq> [] then [field ''_kafka_key'' (F_String (cd_kafka_key d))] else [])"

definition producer_context_fields :: "producer_metadata \<Rightarrow> log_field list" where
  "producer_context_fields d =
     [field ''_topic'' (F_String (pd_topic d)), field ''_instance_addr'' (F_String (pd_instance_addr d))] @
     (if 0 < pd_instance_port d then [field ''_instance_port'' (F_Int (pd_instance_port d))] else []) @
     (if pd_kafka_key d \<noteq> [] then [field ''_kafka_key'' (F_String (pd_kafka_key d))] else [])"

definition consumer_span_attributes :: "consumer_metadata \<Rightarrow> (string \<times> fvalue) list" where
  "consumer_span_attributes d =
     [(''kafka.topic'', F_String (cd_topic d)), (''kafka.partition'', F_Int (cd_partition d)),
      (''kafka.op'', F_String ''consume''), (''kafka.offset'', F_Int (cd_offset d)),
      (''consumer.group'', F_String (cd_consumer_group d))] @
     (if cd_kafka_instance d \<noteq> [] then [(''instance'', F_String (cd_kafka_instance d))] else [])"

definition producer_span_attributes :: "producer_metadata \<Rightarrow> (string \<times> fvalue) list" where
  "producer_span_attributes d =
     [(''kafka.topic'', F_String (pd_topic d)), (''kafka.op'', F_String ''produce'')] @
     (if pd_kafka_instance d \<noteq> [] then [(''instance'', F_String (pd_kafka_instance d))] else [])"

section \<open>Libraries and state\<close>

text \<open>An error by its text and its dynamic type (\<open>%T\<close>).\<close>

record kafka_error =
  ke_text :: string
  ke_type :: string

record producer_message =
  pm_topic :: string
  pm_key :: "string option"
  pm_value :: string
  pm_headers :: "record_header list"

text \<open>
  The process environment and application name; the tracer (its name, the span's name) and the
  propagator, which writes a list of fields to the carrier and reads the carrier through its \<open>Get\<close>
  and \<open>Keys\<close>; the client's sending and closing on the world \<open>'w\<close>.
\<close>

record ('p, 'w) kafka_lib =
  kl_env :: "string \<Rightarrow> string"
  kl_app :: string
  kl_tracer :: "string \<Rightarrow> string \<Rightarrow> req_ctx \<Rightarrow> req_ctx"
  kl_inject :: "req_ctx \<Rightarrow> (string \<times> string) list"
  kl_extract :: "(string \<Rightarrow> string) \<Rightarrow> string list \<Rightarrow> req_ctx \<Rightarrow> req_ctx"
  kl_send :: "'p \<Rightarrow> producer_message \<Rightarrow> 'w \<Rightarrow> (int \<times> int \<times> kafka_error option) \<times> 'w"
  kl_close :: "'p \<Rightarrow> 'w \<Rightarrow> string option \<times> 'w"

text \<open>Calls to the metrics library: the metric, its label values and, for a gauge, the elapsed time.\<close>

datatype metric_call = Gauge_Set string "string list" int | Counter_Inc string "string list"

record 'w kafka_state =
  ks_world :: 'w
  ks_telemetry :: telemetry
  ks_metrics :: "metric_call list"

definition log_ctx_at :: "req_ctx \<Rightarrow> level \<Rightarrow> string \<Rightarrow> log_field list \<Rightarrow> telemetry \<Rightarrow> telemetry" where
  "log_ctx_at ctx lvl msg fs t = log_at lvl msg (fields_from_context (Some (rx_log ctx)) @ fs) t"

definition kafka_span :: "string \<Rightarrow> (string \<times> fvalue) list \<Rightarrow> kafka_error option \<Rightarrow> span" where
  "kafka_span name attrs err =
     \<lparr> sp_name = name, sp_attrs = attrs,
       sp_errors = (case err of None \<Rightarrow> [] | Some e \<Rightarrow> [ke_text e]), sp_status_error = map_option ke_text err \<rparr>"

definition enrich_ctx :: "req_ctx \<Rightarrow> log_field list \<Rightarrow> req_ctx" where
  "enrich_ctx ctx fs = ctx\<lparr> rx_log := with_fields (rx_log ctx) fs \<rparr>"

section \<open>Instrumentation\<close>

definition kafka_trace_identifiers :: "span_context \<Rightarrow> string \<times> string \<times> bool" where
  "kafka_trace_identifiers sc = (if \<not> sc_valid sc then ([], [], True) else (sc_trace_id sc, sc_span_id sc, sc_sampled sc))"

definition kafka_parent_span_id :: "span_context \<Rightarrow> string" where
  "kafka_parent_span_id parent = (if \<not> sc_valid parent then [] else sc_span_id parent)"

definition start_consumer_instrumentation ::
  "('p, 'w) kafka_lib \<Rightarrow> req_ctx \<Rightarrow> string \<Rightarrow> string \<Rightarrow> string \<Rightarrow> consumer_message \<Rightarrow> int \<Rightarrow>
   req_ctx \<times> (string \<times> (string \<times> fvalue) list) \<times> consumer_metadata" where
  "start_consumer_instrumentation lib base_ctx name grp broker_addr msg now =
     (let d = build_consumer_metadata (consumer_app_name (kl_app lib) (kl_env lib)) name grp broker_addr msg now;
          extracted = kl_extract lib (header_get (cm_headers msg)) (header_keys (cm_headers msg)) base_ctx;
          parent = kafka_parent_span_id (rx_span extracted);
          span_name = consumer_span_name name (cm_topic msg);
          ctx = kl_tracer lib (consumer_tracer_name (kl_env lib)) span_name extracted;
          (trace_id, span_id, sampled) = kafka_trace_identifiers (rx_span ctx);
          ctx = ctx\<lparr> rx_log := with_trace (rx_log ctx) trace_id span_id parent sampled \<rparr>;
          ctx = enrich_ctx ctx (consumer_context_fields d)
      in (ctx, (span_name, consumer_span_attributes d), d))"

definition start_producer_instrumentation ::
  "('p, 'w) kafka_lib \<Rightarrow> req_ctx \<Rightarrow> string \<Rightarrow> string \<Rightarrow> string \<Rightarrow> record_header list \<Rightarrow> int \<Rightarrow>
   req_ctx \<times> (string \<times> (string \<times> fvalue) list) \<times> producer_metadata \<times> record_header list" where
  "start_producer_instrumentation lib base_ctx brokers topic key hs now =
     (let d = build_producer_metadata (kafka_app_name (kl_app lib) (kl_env lib)) brokers topic key now;
          parent = kafka_parent_span_id (rx_span base_ctx);
          span_name = producer_span_name topic;
          ctx = kl_tracer lib (kafka_tracer_name (kl_env lib)) span_name base_ctx;
          (trace_id, span_id, sampled) = kafka_trace_identifiers (rx_span ctx);
          ctx = ctx\<lparr> rx_log := with_trace (rx_log ctx) trace_id span_id parent sampled \<rparr>;
          ctx = enrich_ctx ctx (producer_context_fields d)
      in (ctx, (span_name, producer_span_attributes d), d, inject_with producer_set (kl_inject lib ctx) hs))"

lemma kafka_names: "consumer_tracer_name env = kafka_tracer_name env" "consumer_app_name app env = kafka_app_name app env"
  by (simp_all add: consumer_tracer_name_def consumer_app_name_def)

lemma kafka_ids: "kafka_parent_span_id sc = parent_span_id sc" "kafka_trace_identifiers sc = trace_identifiers sc"
  by (simp_all add: kafka_parent_span_id_def parent_span_id_def kafka_trace_identifiers_def trace_identifiers_def)

text \<open>Both starts put the span into the log fields as the interceptors do.\<close>

lemma start_consumer_instrumentation_eq:
  "start_consumer_instrumentation lib base_ctx name grp broker_addr msg now =
     (let d = build_consumer_metadata (kafka_app_name (kl_app lib) (kl_env lib)) name grp broker_addr msg now;
          extracted = kl_extract lib (header_get (cm_headers msg)) (header_keys (cm_headers msg)) base_ctx;
          span_name = consumer_span_name name (cm_topic msg);
          ctx = kl_tracer lib (kafka_tracer_name (kl_env lib)) span_name extracted;
          ctx = trace_into_log ctx (parent_span_id (rx_span extracted));
          ctx = enrich_ctx ctx (consumer_context_fields d)
      in (ctx, (span_name, consumer_span_attributes d), d))"
  unfolding start_consumer_instrumentation_def kafka_names kafka_ids trace_into_log_def Let_def by (simp split: prod.split)

lemma start_producer_instrumentation_eq:
  "start_producer_instrumentation lib base_ctx brokers topic key hs now =
     (let d = build_producer_metadata (kafka_app_name (kl_app lib) (kl_env lib)) brokers topic key now;
          span_name = producer_span_name topic;
          ctx = kl_tracer lib (kafka_tracer_name (kl_env lib)) span_name base_ctx;
          ctx = trace_into_log ctx (parent_span_id (rx_span base_ctx));
          ctx = enrich_ctx ctx (producer_context_fields d)
      in (ctx, (span_name, producer_span_attributes d), d, inject_with producer_set (kl_inject lib ctx) hs))"
  unfolding start_producer_instrumentation_def kafka_ids trace_into_log_def Let_def by (simp split: prod.split)

definition finish_consumer_instrumentation ::
  "req_ctx \<Rightarrow> string \<times> (string \<times> fvalue) list \<Rightarrow> kafka_error option \<Rightarrow> int \<Rightarrow> telemetry \<Rightarrow> telemetry" where
  "finish_consumer_instrumentation ctx sp err duration t =
     (let duration_ms = duration div 1000000;
          t = end_span (kafka_span (fst sp)
                (snd sp @ [(''error.flag'', F_Bool (err \<noteq> None)), (''duration.ms'', F_Int duration_ms)]) err) t;
          fs = [field ''_dur_ms'' (F_Int duration_ms)]
      in case err of
           Some e \<Rightarrow> log_ctx_at ctx error_level ''KAFKA_CONSUME'' (fs @ [field ''_error'' (F_String (ke_text e))]) t
         | None \<Rightarrow> log_ctx_at ctx info_level ''KAFKA_CONSUME'' fs t)"

definition finish_producer_instrumentation ::
  "req_ctx \<Rightarrow> string \<times> (string \<times> fvalue) list \<Rightarrow> producer_metadata \<Rightarrow> int \<Rightarrow> int \<Rightarrow> kafka_error option \<Rightarrow> int \<Rightarrow>
   telemetry \<Rightarrow> telemetry" where
  "finish_producer_instrumentation ctx sp d part off err now t =
     (let duration_ms = (now - pd_started_at d) div 1000000;
          t = end_span (kafka_span (fst sp)
                (snd sp @ [(''kafka.partition'', F_Int part), (''kafka.offset'', F_Int off),
                   (''error.flag'', F_Bool (err \<noteq> None)), (''duration.ms'', F_Int duration_ms)]) err) t
      in case err of
           Some e \<Rightarrow> log_ctx_at ctx error_level ''KAFKA_PRODUCE''
             [field ''_dur_ms'' (F_Int duration_ms), field ''_error'' (F_String (ke_text e))] t
         | None \<Rightarrow> log_ctx_at ctx info_level ''KAFKA_PRODUCE''
             [field ''_partition'' (F_Int part), field ''_offset'' (F_Int off), field ''_dur_ms'' (F_Int duration_ms)] t)"

definition consumer_error_type :: "kafka_error option \<Rightarrow> string" where
  "consumer_error_type err = (case err of None \<Rightarrow> [] | Some e \<Rightarrow> ke_type e)"

definition record_consumer_metrics :: "consumer_metadata \<Rightarrow> kafka_error option \<Rightarrow> int \<Rightarrow> metric_call list \<Rightarrow> metric_call list" where
  "record_consumer_metrics d err now ms =
     (let labels = [cd_kafka_instance d, cd_topic d, itoa (cd_partition d), cd_consumer_group d, cd_app_name d];
          ms = ms @ [Gauge_Set ''kafka_consume_duration_ms'' labels (now - cd_started_at d)]
      in if err \<noteq> None then ms @ [Counter_Inc ''kafka_consume_error_count'' (labels @ [consumer_error_type err])] else ms)"

definition record_producer_metrics :: "producer_metadata \<Rightarrow> int \<Rightarrow> kafka_error option \<Rightarrow> int \<Rightarrow> metric_call list \<Rightarrow> metric_call list" where
  "record_producer_metrics d part err now ms =
     (let labels = [pd_kafka_instance d, pd_topic d, itoa part, pd_app_name d];
          ms = ms @ [Gauge_Set ''kafka_produce_duration_ms'' labels (now - pd_started_at d)]
      in if err \<noteq> None then ms @ [Counter_Inc ''kafka_produce_error_count'' (labels @ [consumer_error_type err])] else ms)"

section \<open>Producer\<close>

datatype producer_error = Err_Producer_Closed | Err_No_Brokers | Err_Topic_Empty | Err_Client string

text \<open>A nil client is \<open>None\<close>, as after \<open>Close\<close>.\<close>

record 'p kafka_producer =
  kp_brokers :: string
  kp_topic :: string
  kp_client :: "'p option"
  kp_closed :: bool
  kp_close_err :: "string option"

text \<open>\<open>with_successes\<close> sets \<open>Producer.Return.Successes\<close> on a copy of the configuration.\<close>

definition new_kafka_producer ::
  "(string list \<Rightarrow> 'cfg \<Rightarrow> (string, 'p) result) \<Rightarrow> ('cfg \<Rightarrow> 'cfg) \<Rightarrow> 'cfg \<Rightarrow> string \<Rightarrow> 'cfg option \<Rightarrow> string \<Rightarrow>
   (producer_error, 'p kafka_producer) result" where
  "new_kafka_producer new_sync_producer with_successes new_config brokers0 cfg topic =
     (let brokers = trim_space brokers0 in
      if brokers = [] then Inl Err_No_Brokers
      else if trim_space topic = [] then Inl Err_Topic_Empty
      else let broker_list = parse_broker_list brokers in
        if length broker_list = 0 then Inl Err_No_Brokers
        else let config = with_successes (case cfg of None \<Rightarrow> new_config | Some c \<Rightarrow> c) in
          case new_sync_producer broker_list config of
            Inl e \<Rightarrow> Inl (Err_Client e)
          | Inr p \<Rightarrow> Inr \<lparr> kp_brokers = brokers, kp_topic = trim_space topic, kp_client = Some p,
                         kp_closed = False, kp_close_err = None \<rparr>)"

text \<open>The headers are a Go map: its entries in the order of one iteration.\<close>

record message =
  ms_key :: string
  ms_headers :: "(string \<times> string) list"
  ms_payload :: string

fun header_loop :: "(string \<times> string) list \<Rightarrow> record_header list" where
  "header_loop [] = []"
| "header_loop ((k0, v) # kvs) =
     (let k = trim_space k0 in
      if k = [] then header_loop kvs else \<lparr> hd_key = k, hd_value = v \<rparr> # header_loop kvs)"

definition build_message :: "string \<Rightarrow> message \<Rightarrow> producer_message" where
  "build_message topic msg =
     \<lparr> pm_topic = topic, pm_key = (if 0 < length (ms_key msg) then Some (ms_key msg) else None),
       pm_value = ms_payload msg, pm_headers = (if 0 < length (ms_headers msg) then header_loop (ms_headers msg) else []) \<rparr>"

definition background_ctx :: req_ctx where
  "background_ctx =
     \<lparr> rx_log = \<lparr> cx_fields = None, cx_trace_id = None, cx_span_id = None, cx_parent_span_id = None, cx_sampled = None \<rparr>,
       rx_span = \<lparr> sc_valid = False, sc_trace_id = [], sc_span_id = [], sc_sampled = False \<rparr> \<rparr>"

text \<open>The times: when the span starts, when it is finished, when the metrics are recorded.\<close>

type_synonym times = "int \<times> int \<times> int"

fun publish ::
  "('p, 'w) kafka_lib \<Rightarrow> 'p kafka_producer option \<Rightarrow> req_ctx option \<Rightarrow> message \<Rightarrow> times \<Rightarrow> 'w kafka_state \<Rightarrow>
   (int \<times> int \<times> (producer_error + kafka_error) option) \<times> 'w kafka_state" where
  "publish lib producer ctx0 msg (start, now1, now2) s =
     (case producer of None \<Rightarrow> ((- 1, - 1, Some (Inl Err_Producer_Closed)), s) | Some p \<Rightarrow>
      case kp_client p of None \<Rightarrow> ((- 1, - 1, Some (Inl Err_Producer_Closed)), s) | Some client \<Rightarrow>
        let ctx = (case ctx0 of None \<Rightarrow> background_ctx | Some c \<Rightarrow> c);
            m = build_message (kp_topic p) msg
        in case start_producer_instrumentation lib ctx (kp_brokers p) (kp_topic p) (ms_key msg) (pm_headers m) start of
          (inst_ctx, sp, d, hs) \<Rightarrow>
            (case kl_send lib client (m\<lparr> pm_headers := hs \<rparr>) (ks_world s) of
               ((part, off, err), w) \<Rightarrow>
                 ((part, off, map_option Inr err),
                  s\<lparr> ks_world := w,
                     ks_telemetry := finish_producer_instrumentation inst_ctx sp d part off err now1 (ks_telemetry s),
                     ks_metrics := record_producer_metrics d part err now2 (ks_metrics s) \<rparr>)))"

definition close_producer ::
  "('p, 'w) kafka_lib \<Rightarrow> 'p kafka_producer option \<Rightarrow> 'w \<Rightarrow> string option \<times> 'p kafka_producer option \<times> 'w" where
  "close_producer lib producer w =
     (case producer of None \<Rightarrow> (None, None, w) | Some p \<Rightarrow>
        if kp_closed p then (kp_close_err p, Some p, w)
        else let p = p\<lparr> kp_closed := True \<rparr> in
          case kp_client p of
            None \<Rightarrow> (None, Some (p\<lparr> kp_close_err := None \<rparr>), w)
          | Some client \<Rightarrow>
              (case kl_close lib client w of (err, w) \<Rightarrow>
                 (err, Some (p\<lparr> kp_close_err := err, kp_client := None \<rparr>), w)))"

section \<open>Consumer\<close>

text \<open>A handler returns an error or none, or panics.\<close>

datatype handler_end = Handler_Returned "kafka_error option" | Handler_Panicked string

type_synonym 'w handler = "req_ctx \<Rightarrow> consumer_message \<Rightarrow> 'w \<Rightarrow> handler_end \<times> 'w"

record 'w consumer_wrapper =
  cw_name :: string
  cw_handler :: "'w handler option"
  cw_consumer_group :: string
  cw_broker_addr :: string

definition new_context_consumer_wrapper :: "string \<Rightarrow> 'w handler option \<Rightarrow> 'w consumer_wrapper" where
  "new_context_consumer_wrapper name f =
     \<lparr> cw_name = name, cw_handler = f, cw_consumer_group = [], cw_broker_addr = [] \<rparr>"

definition new_consumer_wrapper ::
  "string \<Rightarrow> (consumer_message \<Rightarrow> 'w \<Rightarrow> handler_end \<times> 'w) option \<Rightarrow> 'w consumer_wrapper" where
  "new_consumer_wrapper name f =
     \<lparr> cw_name = name,
       cw_handler = Some (\<lambda>_ msg w. case f of None \<Rightarrow> (Handler_Returned None, w) | Some g \<Rightarrow> g msg w),
       cw_consumer_group = [], cw_broker_addr = [] \<rparr>"

definition bind_runtime :: "string \<Rightarrow> string \<Rightarrow> 'w consumer_wrapper \<Rightarrow> 'w consumer_wrapper" where
  "bind_runtime consumer_group brokers c =
     c\<lparr> cw_consumer_group := trim_space consumer_group, cw_broker_addr := primary_broker_endpoint brokers \<rparr>"

definition handle_message :: "'w consumer_wrapper \<Rightarrow> 'w handler" where
  "handle_message c ctx msg w = (case cw_handler c of None \<Rightarrow> (Handler_Returned None, w) | Some f \<Rightarrow> f ctx msg w)"

text \<open>The result is the panic of the handler, after which nothing of the message is reported.\<close>

fun consume_message ::
  "('p, 'w) kafka_lib \<Rightarrow> 'w consumer_wrapper \<Rightarrow> req_ctx \<Rightarrow> consumer_message \<Rightarrow> times \<Rightarrow> 'w kafka_state \<Rightarrow>
   string option \<times> 'w kafka_state" where
  "consume_message lib c base_ctx msg (start, now1, now2) s =
     (case start_consumer_instrumentation lib base_ctx (cw_name c) (cw_consumer_group c) (cw_broker_addr c) msg start of
        (ctx, sp, d) \<Rightarrow>
          (case handle_message c ctx msg (ks_world s) of
             (Handler_Panicked p, w) \<Rightarrow> (Some p, s\<lparr> ks_world := w \<rparr>)
           | (Handler_Returned err, w) \<Rightarrow>
               (None, s\<lparr> ks_world := w,
                  ks_telemetry := finish_consumer_instrumentation ctx sp err (now1 - cd_started_at d) (ks_telemetry s),
                  ks_metrics := record_consumer_metrics d err now2 (ks_metrics s) \<rparr>)))"

text \<open>
  One choice of the \<open>select\<close> of \<open>ConsumeClaim\<close>: a message, the closed message channel, or the end of the
  session. The result says whether the loop has returned or panicked; it still waits at the end of the choices.
\<close>

datatype claim_event = Claim_Message consumer_message times | Claim_Closed | Session_Done

datatype claim_end = Claim_Waiting | Claim_Returned | Claim_Panicked string

fun consume_claim ::
  "('p, 'w) kafka_lib \<Rightarrow> 'w consumer_wrapper \<Rightarrow> req_ctx \<Rightarrow> claim_event list \<Rightarrow> 'w kafka_state \<Rightarrow> claim_end \<times> 'w kafka_state" where
  "consume_claim lib c session_ctx [] s = (Claim_Waiting, s)"
| "consume_claim lib c session_ctx (Claim_Message msg ts # es) s =
     (case consume_message lib c session_ctx msg ts s of
        (Some p, s) \<Rightarrow> (Claim_Panicked p, s)
      | (None, s) \<Rightarrow> consume_claim lib c session_ctx es s)"
| "consume_claim lib c session_ctx (Claim_Closed # es) s =
     (Claim_Returned, s\<lparr> ks_telemetry := log_at info_level ''message channel was closed''
                [field ''consumer_name'' (F_String (cw_name c))] (ks_telemetry s) \<rparr>)"
| "consume_claim lib c session_ctx (Session_Done # es) s = (Claim_Returned, s)"

section \<open>The trace crosses the broker\<close>

lemma rx_span_into_log [simp]: "rx_span (trace_into_log ctx parent) = rx_span ctx"
  by (simp add: trace_into_log_def split: prod.split)

lemma rx_span_enrich [simp]: "rx_span (enrich_ctx ctx fs) = rx_span ctx"
  by (simp add: enrich_ctx_def)

lemma with_fields_ids [simp]:
  "cx_trace_id (with_fields l fs) = cx_trace_id l" "cx_parent_span_id (with_fields l fs) = cx_parent_span_id l"
  by (simp_all add: with_fields_def)

text \<open>The value that an entry has for a key: that of its last field.\<close>

definition entry_value :: "string \<Rightarrow> log_field list \<Rightarrow> fvalue option" where
  "entry_value k fs = map_of (rev (map (\<lambda>f. (lf_key f, lf_value f)) fs)) k"

lemma entry_value_append: "entry_value k (fs @ gs) = (case entry_value k gs of None \<Rightarrow> entry_value k fs | Some v \<Rightarrow> Some v)"
  by (simp add: entry_value_def map_add_def split: option.split)

lemma entry_value_absent [simp]: "k \<notin> lf_key ` set fs \<Longrightarrow> entry_value k fs = None"
  by (auto simp: entry_value_def map_of_eq_None_iff)

lemma entry_value_Cons: "entry_value k (f # fs) = (case entry_value k fs of None \<Rightarrow> (if lf_key f = k then Some (lf_value f) else None) | Some v \<Rightarrow> Some v)"
  by (simp add: entry_value_def map_add_def split: option.split)

lemma trace_fields:
  assumes "sc_valid (rx_span ctx)" "sc_trace_id (rx_span ctx) \<noteq> []" "sc_span_id (rx_span ctx) \<noteq> []"
  shows "fields_from_context (Some (rx_log (trace_into_log ctx parent))) = fields_from_context (Some (rx_log ctx)) @
    [field ''_trace_id'' (F_String (sc_trace_id (rx_span ctx))), field ''_span_id'' (F_String (sc_span_id (rx_span ctx)))] @
    (if parent \<noteq> [] then [field ''_parent_span_id'' (F_String parent)] else [])"
  using assms by (simp add: trace_into_log_def trace_identifiers_def with_trace_def Let_def)

text \<open>The fields that the instrumentation adds later leave the trace alone.\<close>

definition traceless :: "log_field list \<Rightarrow> bool" where
  "traceless fs \<longleftrightarrow> lf_key ` set fs \<inter> {''_trace_id'', ''_span_id'', ''_parent_span_id''} = {}"

lemma traceless_append: "traceless fs \<Longrightarrow> traceless gs \<Longrightarrow> traceless (fs @ gs)"
  unfolding traceless_def set_append image_Un by (simp only: Int_Un_distrib2 Un_empty_left)

lemma traceless_value:
  assumes "traceless fs" "k \<in> {''_trace_id'', ''_span_id'', ''_parent_span_id''}"
  shows "entry_value k fs = None"
proof (rule entry_value_absent)
  show "k \<notin> lf_key ` set fs" using assms unfolding traceless_def by (rule_tac notI) (drule IntI, assumption, simp)
qed

lemma entry_trace:
  assumes "sc_valid (rx_span ctx)" "sc_trace_id (rx_span ctx) \<noteq> []" "sc_span_id (rx_span ctx) \<noteq> []"
    and "traceless (fs @ gs)"
  shows "entry_value ''_trace_id'' (fields_from_context (Some (rx_log (enrich_ctx (trace_into_log ctx parent) fs))) @ gs) =
      Some (F_String (sc_trace_id (rx_span ctx)))"
    and "entry_value ''_span_id'' (fields_from_context (Some (rx_log (enrich_ctx (trace_into_log ctx parent) fs))) @ gs) =
      Some (F_String (sc_span_id (rx_span ctx)))"
    and "parent \<noteq> [] \<Longrightarrow> entry_value ''_parent_span_id'' (fields_from_context (Some (rx_log (enrich_ctx (trace_into_log ctx parent) fs))) @ gs) =
      Some (F_String parent)"
proof -
  have none: "entry_value k (fs @ gs) = None" if "k \<in> {''_trace_id'', ''_span_id'', ''_parent_span_id''}" for k
    using assms(4) that by (rule traceless_value)
  have split: "fields_from_context (Some (rx_log (enrich_ctx (trace_into_log ctx parent) fs))) @ gs =
      fields_from_context (Some (rx_log (trace_into_log ctx parent))) @ (fs @ gs)"
    by (simp add: enrich_ctx_def)
  note parts = split entry_value_append [of _ _ "fs @ gs"] none option.case trace_fields [OF assms(1-3)]
  show "entry_value ''_trace_id'' (fields_from_context (Some (rx_log (enrich_ctx (trace_into_log ctx parent) fs))) @ gs) =
      Some (F_String (sc_trace_id (rx_span ctx)))"
    by (simp add: parts del: append_assoc) (simp add: entry_value_append entry_value_Cons)
  show "entry_value ''_span_id'' (fields_from_context (Some (rx_log (enrich_ctx (trace_into_log ctx parent) fs))) @ gs) =
      Some (F_String (sc_span_id (rx_span ctx)))"
    by (simp add: parts del: append_assoc) (simp add: entry_value_append entry_value_Cons)
  show "entry_value ''_parent_span_id'' (fields_from_context (Some (rx_log (enrich_ctx (trace_into_log ctx parent) fs))) @ gs) =
      Some (F_String parent)" if "parent \<noteq> []"
    using that by (simp add: parts del: append_assoc) (simp add: entry_value_append entry_value_Cons)
qed

lemma context_keys:
  "traceless (producer_context_fields d)"
  "traceless (consumer_context_fields d')"
  by (auto simp: traceless_def producer_context_fields_def consumer_context_fields_def)

lemma finish_consumer_entry:
  "\<exists>gs. tl_entries (finish_consumer_instrumentation ctx sp err dur t) =
      tl_entries t @ [(if err = None then info_level else error_level, ''KAFKA_CONSUME'', fields_from_context (Some (rx_log ctx)) @ gs)] \<and>
    traceless gs"
  by (cases err) (simp_all add: finish_consumer_instrumentation_def log_ctx_at_def log_at_def end_span_def Let_def traceless_def)

lemma finish_producer_entry:
  "\<exists>gs. tl_entries (finish_producer_instrumentation ctx sp d part off err now t) =
      tl_entries t @ [(if err = None then info_level else error_level, ''KAFKA_PRODUCE'', fields_from_context (Some (rx_log ctx)) @ gs)] \<and>
    traceless gs"
  by (cases err) (simp_all add: finish_producer_instrumentation_def log_ctx_at_def log_at_def end_span_def Let_def traceless_def)

text \<open>What the consumer reads in the headers that the producer wrote.\<close>

lemma injected_headers:
  "fold_distinct (map fst kvs) \<Longrightarrow> (k, v) \<in> set kvs \<Longrightarrow> header_get (inject_with producer_set kvs hs) k = v"
  using producer.get_inject [of kvs k v k hs] by (simp add: producer_get_header_get)

lemma other_headers:
  "list_all (\<lambda>(k', _). \<not> equal_fold k' k) kvs \<Longrightarrow>
   header_get (inject_with producer_set kvs hs) k = header_get hs k"
  using producer.get_inject_other [of k kvs hs] by (simp add: producer_get_header_get)

text \<open>The documented contract of a propagator and of a tracer.\<close>

definition propagates ::
  "(req_ctx \<Rightarrow> (string \<times> string) list) \<Rightarrow> ((string \<Rightarrow> string) \<Rightarrow> string list \<Rightarrow> req_ctx \<Rightarrow> req_ctx) \<Rightarrow> bool" where
  "propagates inject extract \<longleftrightarrow>
     (\<forall>c. fold_distinct (map fst (inject c)) \<and>
       (sc_valid (rx_span c) \<longrightarrow>
         (\<forall>g ks c0. (\<forall>(k, v) \<in> set (inject c). g k = v) \<longrightarrow> rx_span (extract g ks c0) = rx_span c)))"

definition traces :: "(string \<Rightarrow> string \<Rightarrow> req_ctx \<Rightarrow> req_ctx) \<Rightarrow> bool" where
  "traces tracer \<longleftrightarrow>
     (\<forall>name sp c. let child = rx_span (tracer name sp c) in
       sc_valid child \<and> sc_trace_id child \<noteq> [] \<and> sc_span_id child \<noteq> [] \<and>
       (sc_valid (rx_span c) \<and> sc_trace_id (rx_span c) \<noteq> [] \<longrightarrow> sc_trace_id child = sc_trace_id (rx_span c)))"

text \<open>The two ends: the span of a publication is in its entry and in the headers that are sent, and a consumer of these
  headers logs it.\<close>

lemma producer_span_logged:
  assumes "propagates (kl_inject lib) extract" "traces (kl_tracer lib)"
    and "start_producer_instrumentation lib ctx brokers topic key user_headers t = (pctx, sp, d, hs)"
  shows "sc_valid (rx_span pctx) \<and> sc_trace_id (rx_span pctx) \<noteq> [] \<and> sc_span_id (rx_span pctx) \<noteq> [] \<and>
    (sc_valid (rx_span ctx) \<and> sc_trace_id (rx_span ctx) \<noteq> [] \<longrightarrow> sc_trace_id (rx_span pctx) = sc_trace_id (rx_span ctx)) \<and>
    (\<forall>ks c0. rx_span (extract (header_get hs) ks c0) = rx_span pctx) \<and>
    (\<forall>gs. traceless gs \<longrightarrow>
      entry_value ''_trace_id'' (fields_from_context (Some (rx_log pctx)) @ gs) = Some (F_String (sc_trace_id (rx_span pctx))) \<and>
      entry_value ''_span_id'' (fields_from_context (Some (rx_log pctx)) @ gs) = Some (F_String (sc_span_id (rx_span pctx))))"
proof -
  let ?p = "kl_tracer lib (kafka_tracer_name (kl_env lib)) (producer_span_name topic) ctx"
  have p: "sc_valid (rx_span ?p)" "sc_trace_id (rx_span ?p) \<noteq> []" "sc_span_id (rx_span ?p) \<noteq> []"
    "sc_valid (rx_span ctx) \<and> sc_trace_id (rx_span ctx) \<noteq> [] \<longrightarrow> sc_trace_id (rx_span ?p) = sc_trace_id (rx_span ctx)"
    using assms(2) by (simp_all add: traces_def Let_def)
  have pctx: "pctx = enrich_ctx (trace_into_log ?p (parent_span_id (rx_span ctx))) (producer_context_fields d)"
    and hs: "hs = inject_with producer_set (kl_inject lib pctx) user_headers"
    using assms(3) by (auto simp: start_producer_instrumentation_eq Let_def)
  have sp: "rx_span pctx = rx_span ?p" by (simp add: pctx)
  have dist: "fold_distinct (map fst (kl_inject lib pctx))" using assms(1) by (simp add: propagates_def)
  have "\<forall>(k, v) \<in> set (kl_inject lib pctx). header_get hs k = v"
    unfolding hs using injected_headers [OF dist] by auto
  moreover have "sc_valid (rx_span pctx)" using p(1) sp by simp
  ultimately have ext: "rx_span (extract (header_get hs) ks c0) = rx_span pctx" for ks c0
    using assms(1) unfolding propagates_def by blast
  have keys: "traceless (producer_context_fields d @ gs)"
    if "traceless gs" for gs
    using context_keys(1) that by (rule traceless_append)
  have "entry_value ''_trace_id'' (fields_from_context (Some (rx_log pctx)) @ gs) = Some (F_String (sc_trace_id (rx_span pctx))) \<and>
      entry_value ''_span_id'' (fields_from_context (Some (rx_log pctx)) @ gs) = Some (F_String (sc_span_id (rx_span pctx)))"
    if "traceless gs" for gs
    unfolding sp unfolding pctx by (intro conjI entry_trace(1,2) [OF p(1-3) keys] that)
  then show ?thesis using p ext unfolding sp by simp
qed

lemma consumer_span_logged:
  assumes "traces (kl_tracer lib)" "sc_valid sent" "sc_trace_id sent \<noteq> []" "sc_span_id sent \<noteq> []"
    and "rx_span (kl_extract lib (header_get (cm_headers msg)) (header_keys (cm_headers msg)) base) = sent"
    and "start_consumer_instrumentation lib base name grp addr msg t = (cctx, sp, d)"
    and "traceless gs"
  shows "entry_value ''_trace_id'' (fields_from_context (Some (rx_log cctx)) @ gs) = Some (F_String (sc_trace_id sent)) \<and>
    entry_value ''_parent_span_id'' (fields_from_context (Some (rx_log cctx)) @ gs) = Some (F_String (sc_span_id sent))"
proof -
  let ?e = "kl_extract lib (header_get (cm_headers msg)) (header_keys (cm_headers msg)) base"
  let ?c = "kl_tracer lib (kafka_tracer_name (kl_env lib)) (consumer_span_name name (cm_topic msg)) ?e"
  have c: "sc_valid (rx_span ?c)" "sc_trace_id (rx_span ?c) \<noteq> []" "sc_span_id (rx_span ?c) \<noteq> []"
    "sc_trace_id (rx_span ?c) = sc_trace_id sent"
    using assms(1-3,5) by (simp_all add: traces_def Let_def)
  have "parent_span_id (rx_span ?e) = sc_span_id sent" using assms(2,5) by (simp add: parent_span_id_def)
  then have cctx: "cctx = enrich_ctx (trace_into_log ?c (sc_span_id sent)) (consumer_context_fields d)"
    using assms(6) by (auto simp: start_consumer_instrumentation_eq Let_def)
  have keys: "traceless (consumer_context_fields d @ gs)"
    using context_keys(2) assms(7) by (rule traceless_append)
  show ?thesis
    using entry_trace(1) [OF c(1-3) keys] entry_trace(3) [OF c(1-3) keys assms(4)] c(4) by (simp only: cctx simp_thms)
qed

text \<open>C26: a trace crosses the broker. For a propagator and tracers that keep their documented contract, a publication
  logs one entry, with the trace id and the span id of its own span (in the trace of the caller, if
  there is one); and any consumer that receives the message it sent, whatever headers the caller
  had put on it, logs an entry for it with the same trace id and that span as the parent, whether or not its handler fails.\<close>

theorem kafka_trace_crosses:
  assumes laws: "propagates (kl_inject lib) (kl_extract libc)" "traces (kl_tracer lib)" "traces (kl_tracer libc)"
    and sent: "kp_client p = Some client" "publish lib (Some p) ctx m ts s = (res, s1)"
  shows "\<exists>pm lvl fs trace_id span_id. trace_id \<noteq> [] \<and> span_id \<noteq> [] \<and>
    (\<forall>c. ctx = Some c \<and> sc_valid (rx_span c) \<and> sc_trace_id (rx_span c) \<noteq> [] \<longrightarrow> trace_id = sc_trace_id (rx_span c)) \<and>
    ks_world s1 = snd (kl_send lib client pm (ks_world s)) \<and>
    tl_entries (ks_telemetry s1) = tl_entries (ks_telemetry s) @ [(lvl, ''KAFKA_PRODUCE'', fs)] \<and>
    entry_value ''_trace_id'' fs = Some (F_String trace_id) \<and> entry_value ''_span_id'' fs = Some (F_String span_id) \<and>
    (\<forall>consumer base msg ts' u u1. cm_headers msg = pm_headers pm \<and> consume_message libc consumer base msg ts' u = (None, u1) \<longrightarrow>
      (\<exists>lvl' fs'. tl_entries (ks_telemetry u1) = tl_entries (ks_telemetry u) @ [(lvl', ''KAFKA_CONSUME'', fs')] \<and>
        entry_value ''_trace_id'' fs' = Some (F_String trace_id) \<and>
        entry_value ''_parent_span_id'' fs' = Some (F_String span_id)))"
proof -
  obtain t0 t1 t2 where ts: "ts = (t0, t1, t2)" using prod_cases3 by blast
  let ?ctx = "case ctx of None \<Rightarrow> background_ctx | Some c \<Rightarrow> c" and ?m = "build_message (kp_topic p) m"
  obtain pctx sp d hs where st: "start_producer_instrumentation lib ?ctx (kp_brokers p) (kp_topic p) (ms_key m) (pm_headers ?m) t0 =
      (pctx, sp, d, hs)" using prod_cases4 by blast
  obtain part off err w where send: "kl_send lib client (?m\<lparr> pm_headers := hs \<rparr>) (ks_world s) = ((part, off, err), w)"
    by (metis prod_cases3 surj_pair)
  have s1: "ks_world s1 = w" "ks_telemetry s1 = finish_producer_instrumentation pctx sp d part off err t1 (ks_telemetry s)"
    using sent(2) by (auto simp: ts sent(1) st send Let_def)
  note span = producer_span_logged [OF laws(1,2) st, THEN conjunct1] producer_span_logged [OF laws(1,2) st, THEN conjunct2, THEN conjunct1]
    producer_span_logged [OF laws(1,2) st, THEN conjunct2, THEN conjunct2, THEN conjunct1]
    producer_span_logged [OF laws(1,2) st, THEN conjunct2, THEN conjunct2, THEN conjunct2, THEN conjunct1]
    producer_span_logged [OF laws(1,2) st, THEN conjunct2, THEN conjunct2, THEN conjunct2, THEN conjunct2, THEN conjunct1]
    producer_span_logged [OF laws(1,2) st, THEN conjunct2, THEN conjunct2, THEN conjunct2, THEN conjunct2, THEN conjunct2]
  obtain gs where gs: "tl_entries (ks_telemetry s1) = tl_entries (ks_telemetry s) @
      [(if err = None then info_level else error_level, ''KAFKA_PRODUCE'', fields_from_context (Some (rx_log pctx)) @ gs)]"
    "traceless gs"
    unfolding s1(2) using finish_producer_entry by blast
  have received: "\<exists>lvl' fs'. tl_entries (ks_telemetry u1) = tl_entries (ks_telemetry u) @ [(lvl', ''KAFKA_CONSUME'', fs')] \<and>
      entry_value ''_trace_id'' fs' = Some (F_String (sc_trace_id (rx_span pctx))) \<and>
      entry_value ''_parent_span_id'' fs' = Some (F_String (sc_span_id (rx_span pctx)))"
    if h: "cm_headers msg = hs" and c: "consume_message libc consumer base msg ts' u = (None, u1)" for consumer base msg ts' u u1
  proof -
    obtain t0' t1' t2' where ts': "ts' = (t0', t1', t2')" using prod_cases3 by blast
    obtain cctx sp' d' where rt: "start_consumer_instrumentation libc base (cw_name consumer) (cw_consumer_group consumer)
        (cw_broker_addr consumer) msg t0' = (cctx, sp', d')" using prod_cases3 by blast
    obtain err' w' where u1: "ks_telemetry u1 = finish_consumer_instrumentation cctx sp' err' (t1' - cd_started_at d') (ks_telemetry u)"
      using c by (auto simp: ts' rt split: prod.splits handler_end.splits)
    obtain gs' where gs': "tl_entries (ks_telemetry u1) = tl_entries (ks_telemetry u) @
        [(if err' = None then info_level else error_level, ''KAFKA_CONSUME'', fields_from_context (Some (rx_log cctx)) @ gs')]"
      "traceless gs'"
      unfolding u1 using finish_consumer_entry by blast
    have "rx_span (kl_extract libc (header_get (cm_headers msg)) (header_keys (cm_headers msg)) base) = rx_span pctx"
      using span h by simp
    note logged = consumer_span_logged [OF laws(3) span(1-3) this rt gs'(2)]
    show ?thesis by (intro exI conjI) (rule gs'(1), rule conjunct1 [OF logged], rule conjunct2 [OF logged])
  qed
  show ?thesis
  proof (rule exI [of _ "?m\<lparr> pm_headers := hs \<rparr>"], rule exI, rule exI, rule exI [of _ "sc_trace_id (rx_span pctx)"],
      rule exI [of _ "sc_span_id (rx_span pctx)"], intro conjI allI impI)
    show "sc_trace_id (rx_span pctx) = sc_trace_id (rx_span c)"
      if "ctx = Some c \<and> sc_valid (rx_span c) \<and> sc_trace_id (rx_span c) \<noteq> []" for c
      using span(4) that by simp
    show "ks_world s1 = snd (kl_send lib client (?m\<lparr> pm_headers := hs \<rparr>) (ks_world s))" by (simp add: s1(1) send)
    show "tl_entries (ks_telemetry s1) = tl_entries (ks_telemetry s) @
        [(if err = None then info_level else error_level, ''KAFKA_PRODUCE'', fields_from_context (Some (rx_log pctx)) @ gs)]" by (rule gs(1))
    show "entry_value ''_trace_id'' (fields_from_context (Some (rx_log pctx)) @ gs) = Some (F_String (sc_trace_id (rx_span pctx)))"
      "entry_value ''_span_id'' (fields_from_context (Some (rx_log pctx)) @ gs) = Some (F_String (sc_span_id (rx_span pctx)))"
      using span(6) gs(2) by simp_all
  next
    fix consumer base msg ts' u u1
    assume "cm_headers msg = pm_headers (?m\<lparr> pm_headers := hs \<rparr>) \<and> consume_message libc consumer base msg ts' u = (None, u1)"
    then show "\<exists>lvl' fs'. tl_entries (ks_telemetry u1) = tl_entries (ks_telemetry u) @ [(lvl', ''KAFKA_CONSUME'', fs')] \<and>
        entry_value ''_trace_id'' fs' = Some (F_String (sc_trace_id (rx_span pctx))) \<and>
        entry_value ''_parent_span_id'' fs' = Some (F_String (sc_span_id (rx_span pctx)))"
      by (elim conjE) (rule received [rotated], assumption, simp)
  qed (rule span(2,3))+
qed

section \<open>What is reported\<close>

text \<open>The entries that report a message, and the three kinds of failure reports.\<close>

definition message_entries :: "telemetry \<Rightarrow> (level \<times> string \<times> log_field list) list" where
  "message_entries t = filter (\<lambda>(_, msg, _). msg \<in> {''KAFKA_CONSUME'', ''KAFKA_PRODUCE''}) (tl_entries t)"

fun is_gauge :: "metric_call \<Rightarrow> bool" where
  "is_gauge (Gauge_Set _ _ _) = True"
| "is_gauge (Counter_Inc _ _) = False"

definition reports_agree :: "'w kafka_state \<Rightarrow> bool" where
  "reports_agree s \<longleftrightarrow>
     length (message_entries (ks_telemetry s)) = length (tl_spans (ks_telemetry s)) \<and>
     length (filter is_gauge (ks_metrics s)) = length (tl_spans (ks_telemetry s)) \<and>
     length (filter (\<lambda>sp. sp_status_error sp \<noteq> None) (tl_spans (ks_telemetry s))) =
       length (filter (\<lambda>(lvl, _). lvl = error_level) (message_entries (ks_telemetry s))) \<and>
     length (filter (\<lambda>m. \<not> is_gauge m) (ks_metrics s)) =
       length (filter (\<lambda>(lvl, _). lvl = error_level) (message_entries (ks_telemetry s)))"

lemmas report_defs = reports_agree_def message_entries_def log_ctx_at_def log_at_def end_span_def kafka_span_def

fun is_message :: "claim_event \<Rightarrow> bool" where
  "is_message (Claim_Message _ _) = True"
| "is_message _ = False"

text \<open>One report: a span, an entry and a gauge, and the counter if there is an error.\<close>

definition report_level :: "kafka_error option \<Rightarrow> level" where
  "report_level err = (if err = None then info_level else error_level)"

lemma report_agrees:
  assumes "reports_agree s" "msg \<in> {''KAFKA_CONSUME'', ''KAFKA_PRODUCE''}" "sp_status_error sp = map_option ke_text err"
  shows "reports_agree (s\<lparr> ks_world := w, ks_telemetry := log_at (report_level err) msg fs (end_span sp (ks_telemetry s)),
      ks_metrics := ks_metrics s @ Gauge_Set g ls d # (case err of None \<Rightarrow> [] | Some e \<Rightarrow> [Counter_Inc n (ls' e)]) \<rparr>)"
  using assms by (cases err) (auto simp: report_defs report_level_def)

lemma finish_consumer_form:
  "\<exists>sp fs. finish_consumer_instrumentation ctx attrs err duration t =
     log_at (report_level err) ''KAFKA_CONSUME'' fs (end_span sp t) \<and> sp_status_error sp = map_option ke_text err"
  by (cases err) (simp_all add: finish_consumer_instrumentation_def Let_def log_ctx_at_def report_level_def kafka_span_def, fastforce+)

lemma finish_producer_form:
  "\<exists>sp fs. finish_producer_instrumentation ctx attrs d part off err now t =
     log_at (report_level err) ''KAFKA_PRODUCE'' fs (end_span sp t) \<and> sp_status_error sp = map_option ke_text err"
  by (cases err) (simp_all add: finish_producer_instrumentation_def Let_def log_ctx_at_def report_level_def kafka_span_def, fastforce+)

lemma record_consumer_form:
  "\<exists>g ls n ls' dur. record_consumer_metrics d err now ms =
     ms @ Gauge_Set g ls dur # (case err of None \<Rightarrow> [] | Some e \<Rightarrow> [Counter_Inc n (ls' e)])"
  by (cases err) (simp_all add: record_consumer_metrics_def consumer_error_type_def Let_def, fastforce)

lemma record_producer_form:
  "\<exists>g ls n ls' dur. record_producer_metrics d part err now ms =
     ms @ Gauge_Set g ls dur # (case err of None \<Rightarrow> [] | Some e \<Rightarrow> [Counter_Inc n (ls' e)])"
  by (cases err) (simp_all add: record_producer_metrics_def consumer_error_type_def Let_def, fastforce)

lemma spans_log_at [simp]: "tl_spans (log_at lvl msg fs t) = tl_spans t"
  by (simp add: log_at_def)

lemma spans_end_span [simp]: "tl_spans (end_span sp t) = tl_spans t @ [sp]"
  by (simp add: end_span_def)

lemma consume_message_reports:
  assumes "reports_agree s" "consume_message lib c ctx msg ts s = (p, s')"
  shows "reports_agree s' \<and> length (tl_spans (ks_telemetry s')) = length (tl_spans (ks_telemetry s)) + (if p = None then 1 else 0)"
proof -
  obtain start now1 now2 where ts: "ts = (start, now1, now2)" by (cases ts)
  obtain c' attrs d where st: "start_consumer_instrumentation lib ctx (cw_name c) (cw_consumer_group c) (cw_broker_addr c) msg start =
      (c', attrs, d)" by (cases "start_consumer_instrumentation lib ctx (cw_name c) (cw_consumer_group c) (cw_broker_addr c) msg start")
  obtain h w where h: "handle_message c c' msg (ks_world s) = (h, w)" by fastforce
  show ?thesis
  proof (cases h)
    case (Handler_Panicked q)
    with assms h st show ?thesis by (auto simp: ts report_defs)
  next
    case (Handler_Returned err)
    obtain sp fs where f: "finish_consumer_instrumentation c' attrs err (now1 - cd_started_at d) (ks_telemetry s) =
        log_at (report_level err) ''KAFKA_CONSUME'' fs (end_span sp (ks_telemetry s))" "sp_status_error sp = map_option ke_text err"
      using finish_consumer_form by blast
    obtain g ls n ls' dur where r: "record_consumer_metrics d err now2 (ks_metrics s) =
        ks_metrics s @ Gauge_Set g ls dur # (case err of None \<Rightarrow> [] | Some e \<Rightarrow> [Counter_Inc n (ls' e)])"
      using record_consumer_form by blast
    have s': "p = None" "s' = s\<lparr> ks_world := w, ks_telemetry := log_at (report_level err) ''KAFKA_CONSUME'' fs (end_span sp (ks_telemetry s)),
        ks_metrics := ks_metrics s @ Gauge_Set g ls dur # (case err of None \<Rightarrow> [] | Some e \<Rightarrow> [Counter_Inc n (ls' e)]) \<rparr>"
      using assms(2) unfolding ts consume_message.simps st prod.case h Handler_Returned handler_end.case f(1) r by simp_all
    show ?thesis unfolding s' using report_agrees [OF assms(1) _ f(2), of "''KAFKA_CONSUME''"] by simp
  qed
qed

lemma publish_reports:
  assumes "reports_agree s" "kp_client p = Some client"
  shows "reports_agree (snd (publish lib (Some p) ctx msg ts s)) \<and>
    length (tl_spans (ks_telemetry (snd (publish lib (Some p) ctx msg ts s)))) = Suc (length (tl_spans (ks_telemetry s)))"
proof -
  obtain start now1 now2 where ts: "ts = (start, now1, now2)" by (cases ts)
  let ?ctx = "case ctx of None \<Rightarrow> background_ctx | Some c \<Rightarrow> c" and ?m = "build_message (kp_topic p) msg"
  obtain c' attrs d hs where st: "start_producer_instrumentation lib ?ctx (kp_brokers p) (kp_topic p) (ms_key msg) (pm_headers ?m) start =
      (c', attrs, d, hs)"
    by (cases "start_producer_instrumentation lib ?ctx (kp_brokers p) (kp_topic p) (ms_key msg) (pm_headers ?m) start")
  obtain part off err w where h: "kl_send lib client (?m\<lparr> pm_headers := hs \<rparr>) (ks_world s) = ((part, off, err), w)"
    by (cases "kl_send lib client (?m\<lparr> pm_headers := hs \<rparr>) (ks_world s)") auto
  obtain sp fs where f: "finish_producer_instrumentation c' attrs d part off err now1 (ks_telemetry s) =
      log_at (report_level err) ''KAFKA_PRODUCE'' fs (end_span sp (ks_telemetry s))" "sp_status_error sp = map_option ke_text err"
    using finish_producer_form by blast
  obtain g ls n ls' dur where r: "record_producer_metrics d part err now2 (ks_metrics s) =
      ks_metrics s @ Gauge_Set g ls dur # (case err of None \<Rightarrow> [] | Some e \<Rightarrow> [Counter_Inc n (ls' e)])"
    using record_producer_form by blast
  show ?thesis
    unfolding ts publish.simps option.case assms(2) Let_def st prod.case h f(1) r snd_conv
    using report_agrees [OF assms(1) _ f(2), of "''KAFKA_PRODUCE''"] by simp
qed

text \<open>C27: a claim is consumed until the first choice that ends it, and each message before that is reported
  exactly once, whatever its handler returned: one span, one entry and one duration; and a failure
  shows in all three places, the span, the entry's level and the error counter, or in none. A handler that
  panics ends the claim too, and its message is not reported at all.\<close>

theorem consume_claim_reports:
  assumes "reports_agree s" "consume_claim lib c ctx es s = (end, s')"
  shows "reports_agree s' \<and>
    (case end of
       Claim_Waiting \<Rightarrow> list_all is_message es \<and>
         length (tl_spans (ks_telemetry s')) = length (tl_spans (ks_telemetry s)) + length es
     | Claim_Returned \<Rightarrow> \<not> list_all is_message es \<and>
         length (tl_spans (ks_telemetry s')) = length (tl_spans (ks_telemetry s)) + length (takeWhile is_message es)
     | Claim_Panicked p \<Rightarrow> \<exists>n < length (takeWhile is_message es).
         length (tl_spans (ks_telemetry s')) = length (tl_spans (ks_telemetry s)) + n)"
  using assms
proof (induction lib c ctx es s rule: consume_claim.induct)
  case (2 lib c ctx msg ts es s)
  obtain p s1 where m: "consume_message lib c ctx msg ts s = (p, s1)" by fastforce
  note one = consume_message_reports [OF 2(2) m]
  show ?case
  proof (cases p)
    case None
    with 2(1) [OF m [symmetric] None] 2(3) m one show ?thesis by (cases "end") auto
  next
    case (Some q)
    with 2(3) m one show ?thesis by auto
  qed
qed (auto simp: report_defs)

section \<open>Closing\<close>

text \<open>
  The interface \<open>Producer\<close>: what its clients may rely on around \<open>Close\<close>. \<open>ok\<close> is the provider's
  invariant, \<open>closed\<close> the state after \<open>Close\<close>.
\<close>

datatype 'm producer_call = Call_Publish 'm | Call_Close

fun run_calls ::
  "('q \<Rightarrow> 'm \<Rightarrow> 's \<Rightarrow> 'r \<times> 's) \<Rightarrow> ('q \<Rightarrow> 's \<Rightarrow> 'e \<times> 'q \<times> 's) \<Rightarrow> 'm producer_call list \<Rightarrow> 'q \<times> 's \<Rightarrow> 'q \<times> 's" where
  "run_calls pub cls [] (q, s) = (q, s)"
| "run_calls pub cls (Call_Publish m # cs) (q, s) = run_calls pub cls cs (q, snd (pub q m s))"
| "run_calls pub cls (Call_Close # cs) (q, s) = run_calls pub cls cs (snd (cls q s))"

lemma run_calls_append: "run_calls pub cls (cs @ ds) x = run_calls pub cls ds (run_calls pub cls cs x)"
proof (induction cs arbitrary: x)
  case Nil
  then show ?case by (cases x) simp
next
  case (Cons c cs)
  then show ?case by (cases x; cases c) simp_all
qed

locale producer_api =
  fixes pub :: "'q \<Rightarrow> 'm \<Rightarrow> 's \<Rightarrow> 'r \<times> 's"
    and cls :: "'q \<Rightarrow> 's \<Rightarrow> 'e \<times> 'q \<times> 's"
    and rejected :: 'r
    and ok :: "'q \<Rightarrow> bool"
    and closed :: "'q \<Rightarrow> bool"
  assumes close_closes: "ok q \<Longrightarrow> closed (fst (snd (cls q s)))"
    and close_ok: "ok q \<Longrightarrow> ok (fst (snd (cls q s)))"
    and close_again: "closed q \<Longrightarrow> snd (cls q s) = (q, s)"
    and publish_closed: "closed q \<Longrightarrow> pub q m s = (rejected, s)"
begin

lemma run_ok: "ok q \<Longrightarrow> ok (fst (run_calls pub cls cs (q, s)))"
proof (induction cs arbitrary: q s)
  case (Cons c cs)
  then show ?case using close_ok [of q s] by (cases c; cases "snd (cls q s)") auto
qed simp

lemma closed_for_good: "closed q \<Longrightarrow> run_calls pub cls cs (q, s) = (q, s)"
proof (induction cs)
  case (Cons c cs)
  then show ?case by (cases c) (simp_all add: close_again publish_closed)
qed simp

lemma run_close:
  assumes "ok q"
  shows "run_calls pub cls (cs @ Call_Close # ds) (q, s) = run_calls pub cls (cs @ [Call_Close]) (q, s)"
    and "closed (fst (run_calls pub cls (cs @ [Call_Close]) (q, s)))"
proof -
  obtain q1 s1 where r: "run_calls pub cls cs (q, s) = (q1, s1)" by (cases "run_calls pub cls cs (q, s)")
  then have "ok q1" using run_ok [OF assms, of cs s] by simp
  then have c: "closed (fst (snd (cls q1 s1)))" by (rule close_closes)
  obtain q2 s2 where k: "snd (cls q1 s1) = (q2, s2)" by (cases "snd (cls q1 s1)")
  show "run_calls pub cls (cs @ Call_Close # ds) (q, s) = run_calls pub cls (cs @ [Call_Close]) (q, s)"
    using c k by (simp add: run_calls_append r closed_for_good)
  show "closed (fst (run_calls pub cls (cs @ [Call_Close]) (q, s)))"
    using c k by (simp add: run_calls_append r)
qed

end

text \<open>The Kafka producer provides it.\<close>

definition kafka_pub ::
  "('p, 'w) kafka_lib \<Rightarrow> 'p kafka_producer option \<Rightarrow> req_ctx option \<times> message \<times> times \<Rightarrow> 'w kafka_state \<Rightarrow>
   (int \<times> int \<times> (producer_error + kafka_error) option) \<times> 'w kafka_state" where
  "kafka_pub lib p m s = (case m of (ctx, msg, ts) \<Rightarrow> publish lib p ctx msg ts s)"

definition kafka_cls ::
  "('p, 'w) kafka_lib \<Rightarrow> 'p kafka_producer option \<Rightarrow> 'w kafka_state \<Rightarrow>
   string option \<times> 'p kafka_producer option \<times> 'w kafka_state" where
  "kafka_cls lib p s = (case close_producer lib p (ks_world s) of (err, p, w) \<Rightarrow> (err, p, s\<lparr> ks_world := w \<rparr>))"

definition producer_ok :: "'p kafka_producer option \<Rightarrow> bool" where
  "producer_ok q = (case q of None \<Rightarrow> True | Some p \<Rightarrow> if kp_closed p then kp_client p = None else True)"

definition producer_closed :: "'p kafka_producer option \<Rightarrow> bool" where
  "producer_closed q = (case q of None \<Rightarrow> True | Some p \<Rightarrow> kp_closed p \<and> kp_client p = None)"

lemma kafka_cls_closes:
  assumes "producer_ok q"
  shows "producer_closed (fst (snd (kafka_cls lib q s)))"
proof (cases q)
  case (Some p)
  show ?thesis
  proof (cases "kp_closed p")
    case True
    with Some assms show ?thesis by (simp add: producer_ok_def producer_closed_def kafka_cls_def close_producer_def)
  next
    case False
    with Some show ?thesis
      by (cases "kp_client p"; cases "kl_close lib (the (kp_client p)) (ks_world s)")
        (simp_all add: producer_closed_def kafka_cls_def close_producer_def)
  qed
qed (simp add: producer_closed_def kafka_cls_def close_producer_def)

lemma producer_closed_ok: "producer_closed q \<Longrightarrow> producer_ok q"
  by (cases q) (simp_all add: producer_ok_def producer_closed_def)

interpretation kafka: producer_api "kafka_pub lib" "kafka_cls lib"
  "(- 1, - 1, Some (Inl Err_Producer_Closed))" producer_ok producer_closed for lib
proof unfold_locales
  show "producer_closed (fst (snd (kafka_cls lib q s)))" if "producer_ok q" for q and s :: "'b kafka_state"
    using that by (rule kafka_cls_closes)
  then show "producer_ok (fst (snd (kafka_cls lib q s)))" if "producer_ok q" for q and s :: "'b kafka_state"
    using that producer_closed_ok by blast
  show "snd (kafka_cls lib q s) = (q, s)" if "producer_closed q" for q and s :: "'b kafka_state"
    using that by (cases q) (simp_all add: producer_closed_def kafka_cls_def close_producer_def)
  show "kafka_pub lib q m s = ((- 1, - 1, Some (Inl Err_Producer_Closed)), s)" if "producer_closed q"
    for q m and s :: "'b kafka_state"
    using that by (cases m; cases q) (simp_all add: producer_closed_def kafka_pub_def)
qed

text \<open>C28: a producer is closed once and for good. Whatever a new producer published before, after its first
  \<open>Close\<close> no further \<open>Publish\<close> or \<open>Close\<close> reaches the client, reports anything or changes the producer.\<close>

theorem producer_closed_for_good:
  assumes "new_kafka_producer new_sync with_successes new_config brokers cfg topic = Inr p"
  shows "run_calls (kafka_pub lib) (kafka_cls lib) (before_close @ Call_Close # after_close) (Some p, s) =
      run_calls (kafka_pub lib) (kafka_cls lib) (before_close @ [Call_Close]) (Some p, s) \<and>
    (\<exists>p'. fst (run_calls (kafka_pub lib) (kafka_cls lib) (before_close @ [Call_Close]) (Some p, s)) = p' \<and>
      fst (publish lib p' ctx msg ts s') = (- 1, - 1, Some (Inl Err_Producer_Closed)))"
proof -
  have "producer_ok (Some p)"
    using assms by (auto simp: new_kafka_producer_def producer_ok_def Let_def split: if_splits sum.splits)
  note c = kafka.run_close [OF this, of lib before_close]
  have "fst (publish lib (fst (run_calls (kafka_pub lib) (kafka_cls lib) (before_close @ [Call_Close]) (Some p, s))) ctx msg ts s') =
      (- 1, - 1, Some (Inl Err_Producer_Closed))"
    using kafka.publish_closed [OF c(2) [of s], where m = "(ctx, msg, ts)" and s = s' and lib = lib] by (simp only: kafka_pub_def prod.case fst_conv)
  then show ?thesis by (intro conjI exI) (rule c(1), rule refl)
qed

subsection \<open>Examples\<close>

text \<open>A propagator with three headers and a tracer that numbers its spans by their names.\<close>

definition demo_inject :: "req_ctx \<Rightarrow> (string \<times> string) list" where
  "demo_inject c = [(''trace'', sc_trace_id (rx_span c)), (''parent'', sc_span_id (rx_span c)),
     (''sampled'', if sc_sampled (rx_span c) then ''1'' else ''0'')]"

definition demo_extract :: "(string \<Rightarrow> string) \<Rightarrow> string list \<Rightarrow> req_ctx \<Rightarrow> req_ctx" where
  "demo_extract g ks c = c\<lparr> rx_span :=
     \<lparr> sc_valid = True, sc_trace_id = g ''trace'', sc_span_id = g ''parent'', sc_sampled = (g ''sampled'' = ''1'') \<rparr> \<rparr>"

definition demo_tracer :: "string \<Rightarrow> string \<Rightarrow> req_ctx \<Rightarrow> req_ctx" where
  "demo_tracer name sp c = c\<lparr> rx_span :=
     \<lparr> sc_valid = True,
       sc_trace_id = (if sc_valid (rx_span c) \<and> sc_trace_id (rx_span c) \<noteq> [] then sc_trace_id (rx_span c) else ''t1''),
       sc_span_id = CHR ''s'' # sp, sc_sampled = True \<rparr> \<rparr>"

definition demo_lib :: "(unit, producer_message list) kafka_lib" where
  "demo_lib = \<lparr> kl_env = (\<lambda>_. []), kl_app = ''shop'', kl_tracer = demo_tracer, kl_inject = demo_inject,
     kl_extract = demo_extract, kl_send = (\<lambda>_ m w. ((0, int (length w), None), w @ [m])), kl_close = (\<lambda>_ w. (None, w)) \<rparr>"

lemma demo_laws: "propagates demo_inject demo_extract" "traces demo_tracer"
proof -
  have "fold_distinct (map fst (demo_inject c))" for c
    unfolding demo_inject_def list.map fst_conv by code_simp
  then show "propagates demo_inject demo_extract"
    by (auto simp: propagates_def demo_inject_def demo_extract_def intro: span_context.equality)
  show "traces demo_tracer" by (simp add: traces_def demo_tracer_def Let_def)
qed

definition demo_state :: "producer_message list kafka_state" where
  "demo_state = \<lparr> ks_world = [], ks_telemetry = \<lparr> tl_spans = [], tl_entries = [] \<rparr>, ks_metrics = [] \<rparr>"

definition demo_consumer :: "producer_message list consumer_wrapper" where
  "demo_consumer = new_consumer_wrapper ''billing''
     (Some (\<lambda>msg w.
        (if cm_offset msg = 2 then Handler_Panicked ''nil map''
         else Handler_Returned (if cm_offset msg = 1 then Some \<lparr> ke_text = ''boom'', ke_type = ''*errors.errorString'' \<rparr> else None), w)))"

definition demo_msg :: "int \<Rightarrow> consumer_message" where
  "demo_msg n = \<lparr> cm_topic = ''orders'', cm_partition = 0, cm_offset = n, cm_key = [], cm_headers = [] \<rparr>"

text \<open>A caller without a trace forges one of the propagator's headers; the handler of the consumer fails.\<close>

theorem kafka_trace_crosses_witness:
  "\<exists>pm fs fs' trace_id span_id.
     (case publish demo_lib (Some \<lparr> kp_brokers = ''k1:9092'', kp_topic = ''orders'', kp_client = Some (), kp_closed = False, kp_close_err = None \<rparr>)
        None \<lparr> ms_key = ''7'', ms_headers = [(''Trace'', ''forged'')], ms_payload = ''{}'' \<rparr> (0, 1, 1) demo_state of
      (_, s1) \<Rightarrow> ks_world s1 = [pm] \<and> (\<exists>lvl. tl_entries (ks_telemetry s1) = [(lvl, ''KAFKA_PRODUCE'', fs)])) \<and>
     (case consume_message demo_lib demo_consumer background_ctx ((demo_msg 1)\<lparr> cm_headers := pm_headers pm \<rparr>) (2, 3, 3) demo_state of
      (_, u1) \<Rightarrow> (\<exists>lvl. tl_entries (ks_telemetry u1) = [(lvl, ''KAFKA_CONSUME'', fs')])) \<and>
     entry_value ''_trace_id'' fs = Some (F_String trace_id) \<and> entry_value ''_trace_id'' fs' = Some (F_String trace_id) \<and>
     entry_value ''_span_id'' fs = Some (F_String span_id) \<and> entry_value ''_parent_span_id'' fs' = Some (F_String span_id)"
proof -
  let ?p = "\<lparr> kp_brokers = ''k1:9092'', kp_topic = ''orders'', kp_client = Some (), kp_closed = False, kp_close_err = None \<rparr>"
  let ?pub = "publish demo_lib (Some ?p) None \<lparr> ms_key = ''7'', ms_headers = [(''Trace'', ''forged'')], ms_payload = ''{}'' \<rparr> (0, 1, 1) demo_state"
  have laws: "propagates (kl_inject demo_lib) (kl_extract demo_lib)" "traces (kl_tracer demo_lib)"
    using demo_laws by (simp_all add: demo_lib_def)
  obtain r s1 where pub: "?pub = (r, s1)" by (cases ?pub) (rule that)
  have empty: "tl_entries (ks_telemetry demo_state) = []" "ks_world demo_state = []" by (simp_all add: demo_state_def)
  have client: "kp_client ?p = Some ()" by simp
  from kafka_trace_crosses [OF laws laws(2) client pub] obtain pm lvl fs trace_id span_id where
    produced: "ks_world s1 = snd (kl_send demo_lib () pm [])" "tl_entries (ks_telemetry s1) = [(lvl, ''KAFKA_PRODUCE'', fs)]"
      "entry_value ''_trace_id'' fs = Some (F_String trace_id)" "entry_value ''_span_id'' fs = Some (F_String span_id)"
    and consumed: "\<forall>consumer base msg ts' u u1. cm_headers msg = pm_headers pm \<and> consume_message demo_lib consumer base msg ts' u = (None, u1) \<longrightarrow>
      (\<exists>lvl' fs'. tl_entries (ks_telemetry u1) = tl_entries (ks_telemetry (u :: producer_message list kafka_state)) @ [(lvl', ''KAFKA_CONSUME'', fs')] \<and>
        entry_value ''_trace_id'' fs' = Some (F_String trace_id) \<and> entry_value ''_parent_span_id'' fs' = Some (F_String span_id))"
    unfolding empty append_Nil by (elim exE conjE) (rule that; assumption)
  let ?msg = "(demo_msg 1)\<lparr> cm_headers := pm_headers pm \<rparr>"
  let ?con = "consume_message demo_lib demo_consumer background_ctx ?msg (2, 3, 3) demo_state"
  obtain q u1 where con: "?con = (q, u1)" by (cases ?con) (rule that)
  have "fst ?con = None" and h: "cm_headers ?msg = pm_headers pm"
    by (simp_all add: start_consumer_instrumentation_def Let_def split_beta handle_message_def demo_consumer_def new_consumer_wrapper_def
        demo_msg_def)
  then have con: "?con = (None, u1)" unfolding con by simp
  from consumed [rule_format, OF conjI [OF h con]] obtain lvl' fs' where entry: "tl_entries (ks_telemetry u1) = [(lvl', ''KAFKA_CONSUME'', fs')]"
    and ids: "entry_value ''_trace_id'' fs' = Some (F_String trace_id)" "entry_value ''_parent_span_id'' fs' = Some (F_String span_id)"
    unfolding empty append_Nil by (elim exE conjE) (rule that; assumption)
  have w: "ks_world s1 = [pm]" using produced(1) by (simp add: demo_lib_def)
  have P: "case ?pub of (_, s1) \<Rightarrow> ks_world s1 = [pm] \<and> (\<exists>lvl. tl_entries (ks_telemetry s1) = [(lvl, ''KAFKA_PRODUCE'', fs)])"
    unfolding pub prod.case by (intro conjI exI w) (rule produced(2))
  have C: "case ?con of (_, u1) \<Rightarrow> \<exists>lvl. tl_entries (ks_telemetry u1) = [(lvl, ''KAFKA_CONSUME'', fs')]"
    unfolding con prod.case by (rule exI) (rule entry)
  show ?thesis
    by (rule exI [of _ pm], rule exI [of _ fs], rule exI [of _ fs'], rule exI [of _ trace_id], rule exI [of _ span_id])
      (intro conjI P C produced(3,4) ids)
qed

theorem consume_claim_reports_witness:
  "\<exists>n < 3. length (tl_spans (ks_telemetry (snd (consume_claim demo_lib demo_consumer background_ctx
     [Claim_Message (demo_msg 0) (0, 1, 1), Claim_Message (demo_msg 1) (2, 3, 3), Claim_Message (demo_msg 2) (4, 5, 5)] demo_state)))) = n"
proof -
  let ?es = "[Claim_Message (demo_msg 0) (0, 1, 1), Claim_Message (demo_msg 1) (2, 3, 3), Claim_Message (demo_msg 2) (4, 5, 5)]"
  let ?run = "consume_claim demo_lib demo_consumer background_ctx ?es demo_state"
  have c: "?run = (Claim_Panicked ''nil map'', snd ?run)"
    by (simp add: start_consumer_instrumentation_def Let_def split_beta handle_message_def demo_consumer_def new_consumer_wrapper_def
        demo_msg_def)
  have "reports_agree demo_state" by (simp add: reports_agree_def message_entries_def demo_state_def)
  from consume_claim_reports [OF this c] show ?thesis by (auto simp: demo_state_def)
qed

text \<open>A world in which a send and the closing both leave a mark.\<close>

definition mark_lib :: "(unit, nat list) kafka_lib" where
  "mark_lib = \<lparr> kl_env = (\<lambda>_. []), kl_app = ''shop'', kl_tracer = demo_tracer, kl_inject = demo_inject,
     kl_extract = demo_extract, kl_send = (\<lambda>_ m w. ((0, 0, None), w @ [1])), kl_close = (\<lambda>_ w. (None, w @ [2])) \<rparr>"

definition mark_state :: "nat list kafka_state" where
  "mark_state = \<lparr> ks_world = [], ks_telemetry = \<lparr> tl_spans = [], tl_entries = [] \<rparr>, ks_metrics = [] \<rparr>"

definition mark_call :: "(req_ctx option \<times> message \<times> times) producer_call" where
  "mark_call = Call_Publish (None, \<lparr> ms_key = [], ms_headers = [], ms_payload = ''x'' \<rparr>, (0, 1, 1))"

lemma mark_example:
  obtains p where "new_kafka_producer (\<lambda>bs c. Inr ()) (\<lambda>c. c) () ''k1:9092, k2:9092'' None '' orders '' = Inr p"
    "ks_world (snd (run_calls (kafka_pub mark_lib) (kafka_cls mark_lib) ([mark_call] @ [Call_Close]) (Some p, mark_state))) = [1, 2]"
proof
  show "new_kafka_producer (\<lambda>bs c. Inr ()) (\<lambda>c. c) () ''k1:9092, k2:9092'' None '' orders '' =
      Inr \<lparr> kp_brokers = ''k1:9092, k2:9092'', kp_topic = ''orders'', kp_client = Some (), kp_closed = False, kp_close_err = None \<rparr>"
    by code_simp
  show "ks_world (snd (run_calls (kafka_pub mark_lib) (kafka_cls mark_lib) ([mark_call] @ [Call_Close])
      (Some \<lparr> kp_brokers = ''k1:9092, k2:9092'', kp_topic = ''orders'', kp_client = Some (), kp_closed = False, kp_close_err = None \<rparr>,
        mark_state))) = [1, 2]"
    by (simp add: mark_call_def kafka_pub_def kafka_cls_def close_producer_def mark_lib_def mark_state_def
        start_producer_instrumentation_eq Let_def)
qed

theorem producer_closed_for_good_witness:
  "(case new_kafka_producer (\<lambda>bs c. Inr ()) (\<lambda>c. c) () ''k1:9092, k2:9092'' None '' orders '' of
      Inl e \<Rightarrow> False
    | Inr p \<Rightarrow> ks_world (snd (run_calls (kafka_pub mark_lib) (kafka_cls mark_lib)
        [mark_call, Call_Close, mark_call, Call_Close] (Some p, mark_state))) = [1, 2])"
proof -
  obtain p where p: "new_kafka_producer (\<lambda>bs c. Inr ()) (\<lambda>c. c) () ''k1:9092, k2:9092'' None '' orders '' = Inr p"
    and c: "ks_world (snd (run_calls (kafka_pub mark_lib) (kafka_cls mark_lib) ([mark_call] @ [Call_Close]) (Some p, mark_state))) = [1, 2]"
    by (rule mark_example)
  show ?thesis
    using producer_closed_for_good [OF p, of mark_lib "[mark_call]" "[mark_call, Call_Close]" mark_state] c
    unfolding p by simp
qed

end
