(* ===== verification/Kafka_Start.thy ===== *)
theory Kafka_Start
  imports Prelude
begin

text \<open>
  \<open>KafkaConsumer.Start\<close> (\<open>kafka/consumer.go\<close>) as two interleaved threads: the caller of \<open>Start\<close>, which
  creates the client, waits until the consumer is ready and then for the end of its context or a signal, and the
  goroutine that calls \<open>Consume\<close> in a loop. Within one call of \<open>Consume\<close> the library calls \<open>Setup\<close> at
  most once, when a session begins; it may return without ever calling it. The channel \<open>ready\<close> is
  the number of its creation, \<open>st_log\<close> the messages that the caller logs. A panic of the goroutine ends the process, so nothing steps after it.
\<close>

section \<open>Threads\<close>

text \<open>How \<open>Start\<close> returns: the client could not be created, the handler is nil, or the client was closed at the end.\<close>

datatype start_end = Client_Not_Created | No_Handler | Consumer_Down

datatype main_pc = Opening | Read_Ready | Await nat | Selecting | Stopping | Joining | Returned_Start start_end

datatype loop_pc = Not_Started | Consuming bool | Loop_Done | Loop_Panicked

datatype group_client = No_Client | Open_Client | Closed_Client

text \<open>\<open>st_ctx_done\<close> is the derived context: cancelled by the caller's or by \<open>cancel\<close>; \<open>st_handler\<close> says whether the handler
  is there, \<open>st_signal\<close> whether a signal waits in the channel.\<close>

record start_state =
  st_main :: main_pc
  st_loop :: loop_pc
  st_handler :: bool
  st_ready :: nat
  st_closed :: "nat set"
  st_ctx_done :: bool
  st_signal :: bool
  st_client :: group_client
  st_log :: "string list"

definition say :: "string \<Rightarrow> start_state \<Rightarrow> start_state" where
  "say msg s = s\<lparr> st_log := st_log s @ [msg] \<rparr>"

definition start_init :: "bool \<Rightarrow> bool \<Rightarrow> start_state" where
  "start_init handler ctx_done =
     \<lparr> st_main = Opening, st_loop = Not_Started, st_handler = handler, st_ready = 0, st_closed = {},
       st_ctx_done = ctx_done, st_signal = False, st_client = No_Client, st_log = [''initializing kafka consumer''] \<rparr>"

text \<open>The three outcomes of the opening; the last one has a fresh channel and the goroutine in its first \<open>Consume\<close>.\<close>

definition not_created :: "start_state \<Rightarrow> start_state" where
  "not_created s =
     say ''kafka consumer down'' ((say ''Error creating consumer group client'' s)\<lparr> st_main := Returned_Start Client_Not_Created, st_ctx_done := True \<rparr>)"

definition not_bound :: "start_state \<Rightarrow> start_state" where
  "not_bound s = say ''kafka consumer down'' (s\<lparr> st_main := Returned_Start No_Handler, st_client := Open_Client, st_ctx_done := True \<rparr>)"

definition opened_up :: "start_state \<Rightarrow> start_state" where
  "opened_up s = s\<lparr> st_main := Read_Ready, st_loop := Consuming False, st_client := Open_Client, st_ready := 0 \<rparr>"

text \<open>\<open>Setup\<close>, which panics if the channel is closed already, and \<open>Cleanup\<close>.\<close>

definition consumer_setup :: "start_state \<Rightarrow> start_state option" where
  "consumer_setup s =
     (if st_ready s \<in> st_closed s then None else Some (s\<lparr> st_closed := insert (st_ready s) (st_closed s) \<rparr>))"

definition consumer_cleanup :: "start_state \<Rightarrow> start_state" where
  "consumer_cleanup s = s"

text \<open>\<open>Consume\<close> reports a closed group only when the client has been closed; any other error makes the goroutine panic.\<close>

inductive start_step :: "start_state \<Rightarrow> start_state \<Rightarrow> bool" where
  create_fails: "st_main s = Opening \<Longrightarrow> start_step s (not_created s)"
| handler_nil: "st_main s = Opening \<Longrightarrow> \<not> st_handler s \<Longrightarrow> start_step s (not_bound s)"
| client_opened: "st_main s = Opening \<Longrightarrow> st_handler s \<Longrightarrow> start_step s (opened_up s)"
| read_ready: "st_loop s \<noteq> Loop_Panicked \<Longrightarrow> st_main s = Read_Ready \<Longrightarrow>
    start_step s (s\<lparr> st_main := Await (st_ready s) \<rparr>)"
| ready_received: "st_loop s \<noteq> Loop_Panicked \<Longrightarrow> st_main s = Await ch \<Longrightarrow> ch \<in> st_closed s \<Longrightarrow>
    start_step s (say ''Sarama consumer up and running!...'' (s\<lparr> st_main := Selecting \<rparr>))"
| session_setup: "st_loop s = Consuming False \<Longrightarrow> consumer_setup s = Some t \<Longrightarrow>
    start_step s (t\<lparr> st_loop := Consuming True \<rparr>)"
| setup_panics: "st_loop s = Consuming False \<Longrightarrow> consumer_setup s = None \<Longrightarrow>
    start_step s (s\<lparr> st_loop := Loop_Panicked \<rparr>)"
| consume_group_closed: "st_loop s = Consuming b \<Longrightarrow> st_client s = Closed_Client \<Longrightarrow>
    start_step s (consumer_cleanup s\<lparr> st_loop := Loop_Done \<rparr>)"
| consume_fails: "st_loop s = Consuming b \<Longrightarrow> start_step s (consumer_cleanup s\<lparr> st_loop := Loop_Panicked \<rparr>)"
| consume_stops: "st_loop s = Consuming b \<Longrightarrow> st_ctx_done s \<Longrightarrow> start_step s (consumer_cleanup s\<lparr> st_loop := Loop_Done \<rparr>)"
| consume_again: "st_loop s = Consuming b \<Longrightarrow> \<not> st_ctx_done s \<Longrightarrow>
    start_step s (consumer_cleanup s\<lparr> st_loop := Consuming False, st_ready := Suc (st_ready s) \<rparr>)"
| ctx_cancelled: "st_loop s \<noteq> Loop_Panicked \<Longrightarrow> start_step s (s\<lparr> st_ctx_done := True \<rparr>)"
| signal_arrives: "st_loop s \<noteq> Loop_Panicked \<Longrightarrow> st_main s = Selecting \<Longrightarrow> start_step s (s\<lparr> st_signal := True \<rparr>)"
| select_ctx: "st_loop s \<noteq> Loop_Panicked \<Longrightarrow> st_main s = Selecting \<Longrightarrow> st_ctx_done s \<Longrightarrow>
    start_step s (say ''terminating: context cancelled'' (s\<lparr> st_main := Stopping \<rparr>))"
| select_signal: "st_loop s \<noteq> Loop_Panicked \<Longrightarrow> st_main s = Selecting \<Longrightarrow> st_signal s \<Longrightarrow>
    start_step s (say ''terminating: via signal'' (s\<lparr> st_main := Stopping \<rparr>))"
| call_cancel: "st_loop s \<noteq> Loop_Panicked \<Longrightarrow> st_main s = Stopping \<Longrightarrow>
    start_step s (s\<lparr> st_main := Joining, st_ctx_done := True \<rparr>)"
| join_loop: "st_main s = Joining \<Longrightarrow> st_loop s = Loop_Done \<Longrightarrow>
    start_step s (say ''kafka consumer down'' (s\<lparr> st_main := Returned_Start Consumer_Down, st_client := Closed_Client \<rparr>))"

lemmas start_ops = consumer_setup_def consumer_cleanup_def say_def not_created_def not_bound_def opened_up_def

definition start_reachable :: "bool \<Rightarrow> bool \<Rightarrow> start_state \<Rightarrow> bool" where
  "start_reachable handler ctx_done = start_step\<^sup>*\<^sup>* (start_init handler ctx_done)"

section \<open>Invariant\<close>

text \<open>
  The current channel is closed only by the session of the current \<open>Consume\<close>, no later channel is
  closed yet, the caller has passed the channel only after a session began, and it joins the
  goroutine only after the context is done. The goroutine runs exactly between the opening and the join.
\<close>

fun client_at :: "main_pc \<Rightarrow> group_client" where
  "client_at Opening = No_Client"
| "client_at (Returned_Start Client_Not_Created) = No_Client"
| "client_at (Returned_Start Consumer_Down) = Closed_Client"
| "client_at _ = Open_Client"

fun running :: "main_pc \<Rightarrow> bool" where
  "running Opening = False"
| "running (Returned_Start Client_Not_Created) = False"
| "running (Returned_Start No_Handler) = False"
| "running _ = True"

fun came_up :: "main_pc \<Rightarrow> bool" where
  "came_up Selecting = True"
| "came_up Stopping = True"
| "came_up Joining = True"
| "came_up (Returned_Start Consumer_Down) = True"
| "came_up _ = False"

definition start_inv :: "start_state \<Rightarrow> bool" where
  "start_inv s \<longleftrightarrow>
     st_closed s \<subseteq> {..st_ready s} \<and>
     (st_loop s = Consuming False \<longrightarrow> st_ready s \<notin> st_closed s) \<and>
     (\<forall>ch. st_main s = Await ch \<longrightarrow> ch \<le> st_ready s) \<and>
     (came_up (st_main s) \<longrightarrow> st_closed s \<noteq> {}) \<and>
     (st_main s = Joining \<or> st_main s = Returned_Start Consumer_Down \<longrightarrow> st_ctx_done s) \<and>
     (running (st_main s) \<longleftrightarrow> st_loop s \<noteq> Not_Started) \<and>
     (st_main s = Opening \<longrightarrow> st_closed s = {}) \<and>
     (st_main s = Returned_Start No_Handler \<longrightarrow> \<not> st_handler s) \<and>
     (st_main s = Returned_Start Consumer_Down \<longrightarrow> st_loop s = Loop_Done) \<and>
     (\<not> running (st_main s) \<and> st_main s \<noteq> Opening \<longrightarrow> st_ctx_done s) \<and>
     st_client s = client_at (st_main s)"


lemma start_step_inv: "start_step s t \<Longrightarrow> start_inv s \<Longrightarrow> start_inv t"
proof (induction rule: start_step.induct)
  case (session_setup s t)
  then have t: "t = s\<lparr> st_closed := insert (st_ready s) (st_closed s) \<rparr>" by (simp add: consumer_setup_def split: if_splits)
  with session_setup show ?case unfolding t by (auto simp: start_inv_def)
next
  case (consume_again s b)
  then show ?case by (simp add: start_inv_def start_ops subset_iff) (metis le_Suc_eq not_less_eq_eq)
qed (simp_all add: start_inv_def start_ops, auto)



text \<open>Once opened, \<open>Start\<close> returns only by closing its client.\<close>

definition started_inv :: "start_state \<Rightarrow> bool" where
  "started_inv s \<longleftrightarrow> start_inv s \<and> st_loop s \<noteq> Not_Started"

lemma start_step_started: "start_step s t \<Longrightarrow> started_inv s \<Longrightarrow> started_inv t"
proof -
  have "start_step s t \<Longrightarrow> start_inv s \<Longrightarrow> st_loop s \<noteq> Not_Started \<Longrightarrow> st_loop t \<noteq> Not_Started"
    by (induction rule: start_step.induct) (auto simp: start_ops start_inv_def split: if_splits)
  then show "start_step s t \<Longrightarrow> started_inv s \<Longrightarrow> started_inv t" using start_step_inv by (simp add: started_inv_def)
qed

interpretation started: preserved start_step started_inv
  by unfold_locales (rule start_step_started)

lemma opened_returns_closed:
  assumes "start_step\<^sup>*\<^sup>* (opened_up (start_init True b)) s"
  shows "(\<exists>e. st_main s = Returned_Start e) \<longleftrightarrow> st_client s = Closed_Client"
proof -
  have "started_inv (opened_up (start_init True b))"
    by (simp add: started_inv_def start_inv_def opened_up_def start_init_def)
  with assms have "started_inv s" by (rule started.run_preserves)
  then show ?thesis by (cases "st_main s" rule: client_at.cases) (auto simp: started_inv_def start_inv_def)
qed

text \<open>What the caller has logged where it is.\<close>

definition terminating :: "string set" where
  "terminating = {''terminating: context cancelled'', ''terminating: via signal''}"









text \<open>Without a handler no thread is ever started.\<close>

definition handler_inv :: "bool \<Rightarrow> start_state \<Rightarrow> bool" where
  "handler_inv h s \<longleftrightarrow> st_handler s = h \<and> (\<not> h \<longrightarrow> st_main s = Opening \<or> \<not> running (st_main s)) \<and> start_inv s"

lemma start_step_handler: "start_step s t \<Longrightarrow> handler_inv h s \<Longrightarrow> handler_inv h t"
proof -
  have "st_handler t = st_handler s \<and> (\<not> st_handler s \<and> (st_main s = Opening \<or> \<not> running (st_main s)) \<longrightarrow> st_main t = Opening \<or> \<not> running (st_main t))"
    if "start_step s t" "start_inv s"
    using that by (induction rule: start_step.induct) (auto simp: start_ops start_inv_def split: if_splits)
  then show "start_step s t \<Longrightarrow> handler_inv h s \<Longrightarrow> handler_inv h t"
    using start_step_inv by (auto simp: handler_inv_def)
qed

interpretation handler: preserved start_step "handler_inv h" for h
  by unfold_locales (rule start_step_handler)



section \<open>Stopping\<close>

text \<open>When the caller of \<open>Start\<close> can move, and what the scheduler owes it: it does not wait forever while it can. What the
  library owes: \<open>Consume\<close> returns once its context is done.\<close>

definition caller_can :: "start_state \<Rightarrow> bool" where
  "caller_can s \<longleftrightarrow> st_loop s \<noteq> Loop_Panicked \<and>
     (case st_main s of
        Await ch \<Rightarrow> ch \<in> st_closed s
      | Selecting \<Rightarrow> st_signal s \<or> st_ctx_done s
      | Joining \<Rightarrow> st_loop s = Loop_Done
      | Returned_Start e \<Rightarrow> False
      | _ \<Rightarrow> True)"





lemma caller_can_iff: "caller_can s \<longleftrightarrow> st_loop s \<noteq> Loop_Panicked \<and> (\<exists>t. start_step s t \<and> st_main t \<noteq> st_main s)"
  if "start_inv s"
proof
  assume c: "caller_can s"
  show "st_loop s \<noteq> Loop_Panicked \<and> (\<exists>t. start_step s t \<and> st_main t \<noteq> st_main s)"
  proof (cases "st_main s")
    case Opening
    with c create_fails [of s] show ?thesis
      by (intro conjI exI [of _ "not_created s"]) (simp_all add: caller_can_def not_created_def say_def)
  next
    case Read_Ready
    with c read_ready [of s] show ?thesis
      by (intro conjI exI [of _ "s\<lparr> st_main := Await (st_ready s) \<rparr>"]) (simp_all add: caller_can_def)
  next
    case (Await ch)
    with c ready_received [of s ch] show ?thesis
      by (intro conjI exI [of _ "say ''Sarama consumer up and running!...'' (s\<lparr> st_main := Selecting \<rparr>)"]) (simp_all add: caller_can_def say_def)
  next
    case Selecting
    with c show ?thesis
      using select_ctx [of s] select_signal [of s] by (auto simp: caller_can_def say_def)
  next
    case Stopping
    with c call_cancel [of s] show ?thesis
      by (intro conjI exI [of _ "s\<lparr> st_main := Joining, st_ctx_done := True \<rparr>"]) (simp_all add: caller_can_def)
  next
    case Joining
    with c join_loop [of s] show ?thesis
      by (intro conjI exI [of _ "say ''kafka consumer down'' (s\<lparr> st_main := Returned_Start Consumer_Down, st_client := Closed_Client \<rparr>)"])
        (simp_all add: caller_can_def say_def)
  qed (use c in \<open>simp add: caller_can_def\<close>)
next
  assume "st_loop s \<noteq> Loop_Panicked \<and> (\<exists>t. start_step s t \<and> st_main t \<noteq> st_main s)"
  then obtain t where p: "st_loop s \<noteq> Loop_Panicked" and "start_step s t" "st_main t \<noteq> st_main s" by blast
  from this(2,3) p show "caller_can s"
    by (induction rule: start_step.induct) (auto simp: caller_can_def start_ops split: if_splits)
qed












section \<open>Waiting forever\<close>

definition stuck :: "start_state \<Rightarrow> bool" where
  "stuck s \<longleftrightarrow> st_loop s = Loop_Done \<and> (\<exists>ch. st_main s = Await ch \<and> ch \<notin> st_closed s)"

lemma stuck_step: "start_step s t \<Longrightarrow> stuck s \<Longrightarrow> stuck t"
  by (induction rule: start_step.induct) (auto simp: stuck_def start_ops split: if_splits)

interpretation stuck: preserved start_step stuck
  by unfold_locales (rule stuck_step)

lemma stuck_main: "stuck s \<Longrightarrow> st_main s \<noteq> Returned_Start e"
  by (auto simp: stuck_def)

text \<open>\<open>Start\<close> relies on \<open>Setup\<close> being called. If \<open>Consume\<close> returns to a cancelled context before any
  session began, the goroutine ends without closing the channel and \<open>Start\<close> waits on it forever: it
  watches neither its context nor signals before the consumer is ready.\<close>

lemma start_waits_forever:
  "\<exists>s. start_reachable True False s \<and> st_ctx_done s \<and> st_loop s = Loop_Done \<and>
    {t. start_step\<^sup>*\<^sup>* s t \<and> (\<exists>e. st_main t = Returned_Start e)} = {}"
proof -
  let ?i = "opened_up (start_init True False)"
  let ?a = "?i\<lparr> st_main := Await 0 \<rparr>"
  let ?b = "?a\<lparr> st_ctx_done := True \<rparr>"
  let ?c = "?b\<lparr> st_loop := Loop_Done \<rparr>"
  have "start_step (start_init True False) ?i" by (rule client_opened) (simp_all add: start_init_def)
  moreover have "start_step ?i ?a" using read_ready [of ?i] by (simp add: start_init_def opened_up_def)
  moreover have "start_step ?a ?b" by (rule ctx_cancelled) (simp add: start_init_def opened_up_def)
  moreover have "start_step ?b ?c" using consume_stops [of ?b False] by (simp add: start_init_def opened_up_def consumer_cleanup_def)
  ultimately have r: "start_reachable True False ?c"
    unfolding start_reachable_def by (meson rtranclp.rtrancl_into_rtrancl rtranclp.rtrancl_refl)
  have "stuck ?c" by (simp add: stuck_def start_init_def opened_up_def)
  then have "{t. start_step\<^sup>*\<^sup>* ?c t \<and> (\<exists>e. st_main t = Returned_Start e)} = {}"
    using stuck.run_preserves stuck_main by blast
  with r show ?thesis by (intro exI [of _ ?c]) (simp add: opened_up_def)
qed

subsection \<open>Examples\<close>











end
