(* ===== verification/Trace_Config.thy ===== *)
theory Trace_Config
  imports App_Config Client_Hooks
begin

text \<open>
  \<open>infra/trace.go\<close>: the trace configuration read from the environment, the choice of the sampler and
  of the exporter options, and the start and end of tracing. \<open>url.Parse\<close> and \<open>strconv.ParseFloat\<close> are
  parameters (an error text or the parsed parts; a number or nothing), as are the answers of the
  exporter and of the resource detection.
\<close>

section \<open>Configuration\<close>

record trace_config =
  tc_enabled :: bool
  tc_service_name :: string
  tc_endpoint :: string
  tc_protocol :: string
  tc_traces_endpoint :: bool
  tc_legacy :: bool
  tc_sampler_type :: string
  tc_sampler_rate :: f64
  tc_error_log_disabled :: bool

definition no_trace_config :: trace_config where
  "no_trace_config =
     \<lparr> tc_enabled = False, tc_service_name = [], tc_endpoint = [], tc_protocol = [], tc_traces_endpoint = False,
       tc_legacy = False, tc_sampler_type = [], tc_sampler_rate = f64_zero, tc_error_log_disabled = False \<rparr>"

text \<open>\<open>strconv.ParseBool\<close>\<close>

definition parse_bool :: "string \<Rightarrow> bool option" where
  "parse_bool s =
     (if s \<in> {''1'', ''t'', ''T'', ''true'', ''TRUE'', ''True''} then Some True
      else if s \<in> {''0'', ''f'', ''F'', ''false'', ''FALSE'', ''False''} then Some False
      else None)"

text \<open>The result is the value and the error, if any.\<close>

definition parse_bool_env :: "(string \<Rightarrow> string) \<Rightarrow> string \<Rightarrow> bool \<Rightarrow> bool \<times> string option" where
  "parse_bool_env env key default_value =
     (let v = trim_space (env key) in
      if v = [] then (default_value, None)
      else case parse_bool v of None \<Rightarrow> (default_value, Some (key @ '' must be true/false'')) | Some b \<Rightarrow> (b, None))"

definition parse_float_env ::
  "(string \<Rightarrow> f64 option) \<Rightarrow> (string \<Rightarrow> string) \<Rightarrow> string \<Rightarrow> f64 \<Rightarrow> f64 \<times> string option" where
  "parse_float_env parse_float env key default_value =
     (let v = trim_space (env key) in
      if v = [] then (default_value, None)
      else case parse_float v of None \<Rightarrow> (default_value, Some (key @ '' must be a float'')) | Some r \<Rightarrow> (r, None))"

definition is_zero :: "f64 \<Rightarrow> bool" where
  "is_zero x = (case x of Fin m e \<Rightarrow> m = 0 | _ \<Rightarrow> False)"

definition first_error :: "string option \<Rightarrow> string option \<Rightarrow> string option" where
  "first_error a b = (if a = None then b else a)"

section \<open>Sampler\<close>

datatype sampler = Never_Sample | Always_Sample | Parent_Ratio f64

definition clamp_sampler_rate :: "f64 \<Rightarrow> f64" where
  "clamp_sampler_rate rate =
     (if f64_lt rate f64_zero then f64_zero else if f64_lt f64_one rate then f64_one else rate)"

definition build_sampler :: "trace_config \<Rightarrow> sampler" where
  "build_sampler conf =
     (let sampler_type = to_lower (trim_space (tc_sampler_type conf)) in
      if sampler_type = ''const'' then (if is_zero (tc_sampler_rate conf) then Never_Sample else Always_Sample)
      else Parent_Ratio (clamp_sampler_rate (tc_sampler_rate conf)))"

section \<open>Exporter options\<close>

record url =
  url_scheme :: string
  url_host :: string
  url_path :: string

datatype otlp_option = With_Endpoint string | With_URL_Path string | With_Insecure

datatype trace_error =
    Unsupported_Protocol string
  | URL_Error string
  | Invalid_Endpoint string
  | Unsupported_Scheme string
  | Exporter_Error string
  | Resource_Error string

definition otlp_http_options ::
  "(string \<Rightarrow> (string, url) result) \<Rightarrow> trace_config \<Rightarrow> (trace_error, otlp_option list) result" where
  "otlp_http_options url_parse conf =
     (let endpoint = trim_space (tc_endpoint conf) in
      if endpoint = [] then
        Inr [With_Endpoint ''127.0.0.1:4318'', With_URL_Path ''/v1/traces'', With_Insecure]
      else
        let raw = (if contains endpoint ''://'' then endpoint else ''http://'' @ endpoint) in
        case url_parse raw of
          Inl e \<Rightarrow> Inl (URL_Error e)
        | Inr parsed \<Rightarrow>
            if url_host parsed = [] then Inl (Invalid_Endpoint endpoint)
            else
              let path = trim_right_char CHR ''/'' (url_path parsed);
                  path = (if tc_traces_endpoint conf then (if path = [] then ''/v1/traces'' else path)
                          else if path = [] then ''/v1/traces'' else path @ ''/v1/traces'');
                  opts = [With_Endpoint (url_host parsed), With_URL_Path path]
              in if url_scheme parsed = ''http'' then Inr (opts @ [With_Insecure])
                 else if url_scheme parsed \<noteq> ''https'' then Inl (Unsupported_Scheme (url_scheme parsed))
                 else Inr opts)"

section \<open>Starting and closing\<close>

text \<open>The globals: the flag, whether the error handler is set, the provider, and the closer (\<open>None\<close>: the
  initial one that does nothing; \<open>Some\<close>: the shutdown of the provider).\<close>

record tracing =
  tg_error_log_disabled :: bool
  tg_handler_set :: bool
  tg_provider :: "(string \<times> sampler \<times> otlp_option list) option"
  tg_propagator_set :: bool
  tg_closer :: "(string \<times> sampler \<times> otlp_option list) option"

text \<open>The environment; the flag of the package is set on the way.\<close>

definition load_trace_config_from_env ::
  "(string \<Rightarrow> f64 option) \<Rightarrow> (string \<Rightarrow> string) \<Rightarrow> tracing \<Rightarrow> (trace_config \<times> string option) \<times> tracing" where
  "load_trace_config_from_env parse_float env g =
     (let (enabled, parse_err) = parse_bool_env env ''TRACE_ENABLED'' True;
          (error_log_disabled, err) = parse_bool_env env ''TRACE_ERROR_LOG_DISABLED'' False;
          parse_err = first_error parse_err err;
          g = g\<lparr> tg_error_log_disabled := error_log_disabled \<rparr>;
          (rate, err) = parse_float_env parse_float env ''JAEGER_SAMPLER_RATE'' f64_one;
          parse_err = first_error parse_err err;
          sampler_type = trim_space (env ''JAEGER_SAMPLER_TYPE'');
          sampler_type = (if sampler_type = [] then ''const'' else sampler_type);
          rate = (if sampler_type = ''const'' then (if is_zero rate then f64_zero else f64_one) else rate);
          service_name = str_or_default (env ''OTEL_SERVICE_NAME'')
            (str_or_default (env ''JAEGER_SERVICE_NAME'') (str_or_default (env ''SERVICE_ID'') ''lunaship''));
          protocol = trim_space (env ''OTEL_EXPORTER_OTLP_PROTOCOL'');
          protocol = (if protocol = [] then ''http/protobuf'' else protocol);
          traces = trim_space (env ''OTEL_EXPORTER_OTLP_TRACES_ENDPOINT'');
          endpoint = trim_space (env ''OTEL_EXPORTER_OTLP_ENDPOINT'');
          legacy = trim_space (env ''JAEGER_COLLECTOR_ENDPOINT'');
          (otlp_endpoint, is_traces, is_legacy) =
            (if traces \<noteq> [] then (traces, True, False)
             else if endpoint \<noteq> [] then (endpoint, False, False)
             else if legacy \<noteq> [] then (legacy, True, True)
             else ([], False, False))
      in ((\<lparr> tc_enabled = enabled, tc_service_name = service_name, tc_endpoint = otlp_endpoint, tc_protocol = protocol,
            tc_traces_endpoint = is_traces, tc_legacy = is_legacy, tc_sampler_type = sampler_type,
            tc_sampler_rate = rate, tc_error_log_disabled = error_log_disabled \<rparr>, parse_err), g))"

text \<open>What the libraries answer: the errors of the exporter and of the resource.\<close>

record trace_env =
  te_exporter :: "string option"
  te_resource :: "string option"

definition init_tracing ::
  "(string \<Rightarrow> (string, url) result) \<Rightarrow> trace_env \<Rightarrow> trace_config \<Rightarrow> tracing \<Rightarrow>
   (trace_error, (string \<times> sampler \<times> otlp_option list) option) result \<times> tracing" where
  "init_tracing url_parse env conf g =
     (if \<not> tc_enabled conf then (Inr None, g)
      else let g = g\<lparr> tg_error_log_disabled := tc_error_log_disabled conf, tg_handler_set := True \<rparr> in
        if tc_protocol conf \<noteq> [] \<and> tc_protocol conf \<noteq> ''http/protobuf''
        then (Inl (Unsupported_Protocol (tc_protocol conf)), g)
        else case otlp_http_options url_parse conf of
          Inl e \<Rightarrow> (Inl e, g)
        | Inr opts \<Rightarrow>
            (case te_exporter env of Some e \<Rightarrow> (Inl (Exporter_Error e), g)
             | None \<Rightarrow>
                 (case te_resource env of Some e \<Rightarrow> (Inl (Resource_Error e), g)
                  | None \<Rightarrow>
                      let tp = (tc_service_name conf, build_sampler conf, opts)
                      in (Inr (Some tp), g\<lparr> tg_provider := Some tp, tg_propagator_set := True, tg_closer := Some tp \<rparr>))))"

definition trace_error_text :: "(int \<Rightarrow> bool) \<Rightarrow> trace_error \<Rightarrow> string" where
  "trace_error_text is_print e =
     (case e of
        Unsupported_Protocol p \<Rightarrow> ''unsupported OTLP protocol: '' @ p
      | URL_Error err \<Rightarrow> err
      | Invalid_Endpoint endpoint \<Rightarrow> ''invalid OTLP endpoint: '' @ go_quote is_print endpoint
      | Unsupported_Scheme s \<Rightarrow> ''unsupported OTLP endpoint scheme: '' @ s
      | Exporter_Error err \<Rightarrow> err
      | Resource_Error err \<Rightarrow> err)"

definition trace_config_fields :: "(f64 \<Rightarrow> string) \<Rightarrow> trace_config \<Rightarrow> log_field list" where
  "trace_config_fields float_text conf =
     [field ''enabled'' (F_Bool (tc_enabled conf)),
      field ''service_name'' (F_String (tc_service_name conf)),
      field ''sampler_type'' (F_String (tc_sampler_type conf)),
      field ''sampler_rate'' (F_Float (float_text (tc_sampler_rate conf))),
      field ''otlp_endpoint'' (F_String (tc_endpoint conf)),
      field ''otlp_protocol'' (F_String (tc_protocol conf)),
      field ''otlp_traces_endpoint'' (F_Bool (tc_traces_endpoint conf)),
      field ''legacy_collector_endpoint'' (F_Bool (tc_legacy conf)),
      field ''error_log_disabled'' (F_Bool (tc_error_log_disabled conf))]"

definition init_tracing_from_env ::
  "(int \<Rightarrow> bool) \<Rightarrow> (f64 \<Rightarrow> string) \<Rightarrow> (string \<Rightarrow> f64 option) \<Rightarrow> (string \<Rightarrow> (string, url) result) \<Rightarrow>
   (string \<Rightarrow> string) \<Rightarrow> trace_env \<Rightarrow> tracing \<Rightarrow> telemetry \<Rightarrow> trace_error option \<times> tracing \<times> telemetry" where
  "init_tracing_from_env is_print float_text parse_float url_parse env answers g t =
     (let ((conf, err), g) = load_trace_config_from_env parse_float env g;
          quiet = tc_error_log_disabled conf;
          t = (if err \<noteq> None \<and> \<not> quiet
               then log_at error_level ''trace env parse failed'' [field ''error'' (F_Error (the err))] t else t);
          t = log_at info_level ''trace config'' (trace_config_fields float_text conf) t;
          t = (if tc_legacy conf \<and> \<not> quiet
               then log_at warn_level
                 ''legacy JAEGER_COLLECTOR_ENDPOINT detected; use OTEL_EXPORTER_OTLP_ENDPOINT instead'' [] t else t)
      in if \<not> tc_enabled conf then (None, g, t)
         else case init_tracing url_parse answers conf g of
           (Inl e, g) \<Rightarrow>
             (Some e, g,
              if \<not> quiet then log_at error_level ''trace init failed'' [field ''error'' (F_Error (trace_error_text is_print e))] t else t)
         | (Inr None, g) \<Rightarrow> (None, g, t)
         | (Inr (Some tp), g) \<Rightarrow> (None, g\<lparr> tg_closer := Some tp \<rparr>, t))"

definition trace_error_log_disabled :: "tracing \<Rightarrow> bool" where
  "trace_error_log_disabled g = tg_error_log_disabled g"

text \<open>\<open>traceCloserFunc\<close> with its shutdown function, which may be nil, and \<open>CloseTracing\<close>; the initial closer
  does nothing either.\<close>

definition closer_func_close :: "('w \<Rightarrow> 'e option \<times> 'w) option \<Rightarrow> 'w \<Rightarrow> 'e option \<times> 'w" where
  "closer_func_close shutdown w = (case shutdown of None \<Rightarrow> (None, w) | Some f \<Rightarrow> f w)"

definition close_tracing ::
  "((string \<times> sampler \<times> otlp_option list) \<Rightarrow> 'w \<Rightarrow> 'e option \<times> 'w) \<Rightarrow> tracing \<Rightarrow> 'w \<Rightarrow> 'e option \<times> 'w" where
  "close_tracing shutdown g w =
     (case tg_closer g of None \<Rightarrow> (None, w) | Some tp \<Rightarrow> closer_func_close (Some (shutdown tp)) w)"

text \<open>The exporter's error handler: the counter of errors, and the entry. An error is its text.\<close>

definition handle_trace_error :: "tracing \<Rightarrow> string option \<Rightarrow> nat \<Rightarrow> telemetry \<Rightarrow> nat \<times> telemetry" where
  "handle_trace_error g err errors t =
     (if tg_error_log_disabled g then (Suc errors, t)
      else case err of None \<Rightarrow> (Suc errors, t)
      | Some e \<Rightarrow> (Suc errors, log_at error_level ''trace reporter error'' [field ''error'' (F_Error e)] t))"

section \<open>From the application configuration (\<open>service/setup.go\<close>)\<close>

definition f64_le_zero :: "f64 \<Rightarrow> bool" where
  "f64_le_zero x = (f64_lt x f64_zero \<or> is_zero x)"

definition trace_config_from_app_config :: "'v app_config option \<Rightarrow> trace_config" where
  "trace_config_from_app_config cfg0 =
     (case cfg0 of None \<Rightarrow> no_trace_config | Some cfg \<Rightarrow>
        let tr = as_trace (ac_app cfg);
            endpoint = trim_space (at_resource_endpoint tr);
            uses_trace_endpoint = (endpoint \<noteq> []);
            endpoint = (if \<not> uses_trace_endpoint then trim_space (at_endpoint tr) else endpoint);
            protocol = to_lower (trim_space (at_protocol tr));
            protocol = (if protocol = [] \<or> protocol = ''http'' then ''http/protobuf'' else protocol);
            rate = at_sample_rate tr;
            rate = (if f64_le_zero rate then f64_milli else rate)
        in \<lparr> tc_enabled = at_enabled tr, tc_service_name = as_app_name (ac_app cfg), tc_endpoint = endpoint,
             tc_protocol = protocol, tc_traces_endpoint = uses_trace_endpoint, tc_legacy = False,
             tc_sampler_type = ''ratio'', tc_sampler_rate = rate, tc_error_log_disabled = False \<rparr>)"

section \<open>Laws\<close>

text \<open>The path of the options.\<close>

definition option_path :: "otlp_option list \<Rightarrow> string option" where
  "option_path opts = (case opts of [_, With_URL_Path p] \<Rightarrow> Some p | [_, With_URL_Path p, _] \<Rightarrow> Some p | _ \<Rightarrow> None)"

text \<open>The exporter is pointed at a host over plain HTTP exactly when the scheme is http, over TLS when it
  is https, and at nothing else; for a base endpoint the path ends in \<open>/v1/traces\<close>, and it is never empty.\<close>

lemma otlp_options_sound:
  assumes "otlp_http_options url_parse conf = Inr opts" "trim_space (tc_endpoint conf) \<noteq> []"
  shows "\<exists>u path. url_parse (if contains (trim_space (tc_endpoint conf)) ''://'' then trim_space (tc_endpoint conf)
      else ''http://'' @ trim_space (tc_endpoint conf)) = Inr u \<and>
    opts = [With_Endpoint (url_host u), With_URL_Path path] @ (if url_scheme u = ''http'' then [With_Insecure] else []) \<and>
    url_scheme u \<in> {''http'', ''https''} \<and> url_host u \<noteq> [] \<and> path \<noteq> [] \<and>
    (tc_traces_endpoint conf \<or> (\<exists>pre. path = pre @ ''/v1/traces''))"
proof -
  let ?raw = "if contains (trim_space (tc_endpoint conf)) ''://'' then trim_space (tc_endpoint conf)
      else ''http://'' @ trim_space (tc_endpoint conf)"
  obtain u where u: "url_parse ?raw = Inr u"
    using assms by (auto simp: otlp_http_options_def Let_def split: sum.splits)
  let ?p = "trim_right_char CHR ''/'' (url_path u)"
  let ?path = "if tc_traces_endpoint conf then (if ?p = [] then ''/v1/traces'' else ?p)
      else if ?p = [] then ''/v1/traces'' else ?p @ ''/v1/traces''"
  have o: "url_host u \<noteq> []" "url_scheme u \<in> {''http'', ''https''}"
    "opts = [With_Endpoint (url_host u), With_URL_Path ?path] @ (if url_scheme u = ''http'' then [With_Insecure] else [])"
    using assms u by (auto simp: otlp_http_options_def Let_def split: if_splits)
  have "tc_traces_endpoint conf \<or> (\<exists>pre. ?path = pre @ ''/v1/traces'')" by auto
  moreover have "?path \<noteq> []" by simp
  ultimately show ?thesis using u o by blast
qed

lemma otlp_options_sound_witness:
  "\<exists>path. otlp_http_options (\<lambda>s. Inr \<lparr> url_scheme = ''https'', url_host = ''otel:4318'', url_path = ''/base/'' \<rparr>)
      (no_trace_config\<lparr> tc_endpoint := ''https://otel:4318/base/'' \<rparr>) =
    Inr [With_Endpoint ''otel:4318'', With_URL_Path path] \<and> (\<exists>pre. path = pre @ ''/v1/traces'')"
proof -
  let ?parse = "\<lambda>s :: string. Inr \<lparr> url_scheme = ''https'', url_host = ''otel:4318'', url_path = ''/base/'' \<rparr> :: (string, url) result"
  let ?conf = "no_trace_config\<lparr> tc_endpoint := ''https://otel:4318/base/'' \<rparr>"
  have o: "otlp_http_options ?parse ?conf = Inr [With_Endpoint ''otel:4318'', With_URL_Path ''/base/v1/traces'']"
    by code_simp
  have "trim_space (tc_endpoint ?conf) \<noteq> []" by code_simp
  from otlp_options_sound [OF o this] show ?thesis using o by (auto simp: no_trace_config_def)
qed

lemma accepted_rate_positive: "accepted_rate x \<Longrightarrow> \<not> f64_le_zero x"
proof -
  assume a: "accepted_rate x"
  from accepted_rate_range [OF a] have "f64_finite x" "0 < f64_val x" using rate_constants(7) by auto
  then show ?thesis
    by (cases x) (auto simp: f64_le_zero_def is_zero_def f64_lt_iff f64_finite_def f64_zero_def simp del: f64_lt.simps)
qed

lemma accepted_rate_clamp: "accepted_rate x \<Longrightarrow> clamp_sampler_rate x = x"
proof -
  assume a: "accepted_rate x"
  then have "\<not> f64_lt f64_one x" by (simp add: accepted_rate_def)
  with accepted_rate_positive [OF a] show ?thesis by (simp add: clamp_sampler_rate_def f64_le_zero_def)
qed

lemma otlp_no_protocol_error: "otlp_http_options url_parse conf \<noteq> Inl (Unsupported_Protocol p)"
  unfolding otlp_http_options_def Let_def by (simp split: sum.split)

text \<open>A configuration that passed validation starts tracing as written. Its protocol is one that
  \<open>InitTracing\<close> supports, its sample rate reaches the sampler unchanged (the two later clamps do
  nothing), and the only errors left are those of the endpoint and of the libraries.\<close>

lemma valid_config_traces:
  assumes "valid_app (ac_app cfg)" "at_enabled (as_trace (ac_app cfg))"
    "init_tracing url_parse env (trace_config_from_app_config (Some cfg)) g = (res, g')"
  shows "build_sampler (trace_config_from_app_config (Some cfg)) = Parent_Ratio (at_sample_rate (as_trace (ac_app cfg))) \<and>
    (\<forall>p. res \<noteq> Inl (Unsupported_Protocol p)) \<and>
    res \<noteq> Inr None \<and>
    (is_ok res \<longleftrightarrow> is_ok (otlp_http_options url_parse (trace_config_from_app_config (Some cfg))) \<and>
       te_exporter env = None \<and> te_resource env = None)"
proof -
  let ?tc = "trace_config_from_app_config (Some cfg)"
  have acc: "accepted_rate (at_sample_rate (as_trace (ac_app cfg)))" and p: "at_protocol (as_trace (ac_app cfg)) = ''http''"
    using assms(1) by (simp_all add: valid_app_def)
  have h: "to_lower (trim_space ''http'') = ''http''" "to_lower (trim_space ''ratio'') = ''ratio''" by code_simp+
  have tc: "tc_enabled ?tc" "tc_protocol ?tc = ''http/protobuf''" "tc_sampler_type ?tc = ''ratio''"
    "tc_sampler_rate ?tc = at_sample_rate (as_trace (ac_app cfg))"
    using assms(2) p h(1) accepted_rate_positive [OF acc] by (simp_all add: trace_config_from_app_config_def Let_def)
  have "build_sampler ?tc = Parent_Ratio (at_sample_rate (as_trace (ac_app cfg)))"
    by (simp add: build_sampler_def tc h(2) accepted_rate_clamp [OF acc])
  moreover have "\<not> is_ok res \<longrightarrow> (\<forall>p. res \<noteq> Inl (Unsupported_Protocol p))" "res \<noteq> Inr None"
    "is_ok res \<longleftrightarrow> is_ok (otlp_http_options url_parse ?tc) \<and> te_exporter env = None \<and> te_resource env = None"
    using assms(3) otlp_no_protocol_error [of url_parse ?tc]
    unfolding init_tracing_def
    by (auto simp: tc Let_def split: sum.splits option.splits)
  ultimately show ?thesis by (cases res) auto
qed

definition demo_config :: "unit app_config" where
  "demo_config = (initial_app_config [])\<lparr> ac_app := default_app_section
     \<lparr> as_app_name := ''shop'', as_trace := (as_trace default_app_section)\<lparr> at_enabled := True \<rparr> \<rparr> \<rparr>"

lemma valid_config_traces_witness:
  "build_sampler (trace_config_from_app_config (Some demo_config)) = Parent_Ratio f64_milli \<and>
   is_ok (fst (init_tracing Inl \<lparr> te_exporter = None, te_resource = None \<rparr> (trace_config_from_app_config (Some demo_config))
     \<lparr> tg_error_log_disabled = False, tg_handler_set = False, tg_provider = None, tg_propagator_set = False, tg_closer = None \<rparr>))"
    (is "_ \<and> is_ok (fst ?run)")
proof -
  have v: "valid_app (ac_app demo_config)" unfolding valid_app_def by (intro conjI) code_simp+
  have e: "at_enabled (as_trace (ac_app demo_config))" by code_simp
  have o: "is_ok (otlp_http_options Inl (trace_config_from_app_config (Some demo_config)))" by code_simp
  have r: "at_sample_rate (as_trace (ac_app demo_config)) = f64_milli"
    by (simp add: demo_config_def default_app_section_def initial_app_config_def)
  show ?thesis using valid_config_traces [OF v e, of Inl "\<lparr> te_exporter = None, te_resource = None \<rparr>" _ "fst ?run" "snd ?run"] o
    by (simp add: r)
qed

end
