(* ===== verification/Trace_Standalone.thy ===== *)
theory Trace_Standalone
  imports Trace_Config
begin

text \<open>
  \<open>trace/trace.go\<close>, the package that programs without the service bootstrap use. Its text began as a copy
  of \<open>infra/trace.go\<close> and is maintained on its own, so it is translated on its own here and shown to
  agree with the model of that file. The data types are those of \<open>Trace_Config\<close>, as the Go declarations
  are the same. \<open>traceCloser\<close> and \<open>traceErrorLogDisabled\<close> are in the
  state \<open>tracing\<close>, the global logger is the \<open>telemetry\<close>. \<open>url.Parse\<close>, \<open>strconv.ParseFloat\<close>, the rendering of
  a float in a field (\<open>float_text\<close>) and Go's table of printable runes are parameters.
\<close>

section \<open>Environment\<close>

definition sa_parse_bool_env :: "(string \<Rightarrow> string) \<Rightarrow> string \<Rightarrow> bool \<Rightarrow> bool \<times> string option" where
  "sa_parse_bool_env getenv key default_value =
     (let value = trim_space (getenv key) in
      if value = [] then (default_value, None)
      else
          (case parse_bool value of
             Some parsed \<Rightarrow> (parsed, None)
           | None \<Rightarrow> (default_value, Some (key @ '' must be true/false''))))"

definition sa_parse_float_env ::
  "(string \<Rightarrow> f64 option) \<Rightarrow> (string \<Rightarrow> string) \<Rightarrow> string \<Rightarrow> f64 \<Rightarrow> f64 \<times> string option" where
  "sa_parse_float_env parse_float getenv key default_value =
     (let value = trim_space (getenv key) in
      if value = [] then (default_value, None)
      else
          (case parse_float value of
             Some parsed \<Rightarrow> (parsed, None)
           | None \<Rightarrow> (default_value, Some (key @ '' must be a float''))))"

text \<open>The endpoint with the flags \<open>OTLPTracesEndpoint\<close> and \<open>LegacyCollectorEndpoint\<close>.\<close>

definition sa_endpoint :: "(string \<Rightarrow> string) \<Rightarrow> string \<times> bool \<times> bool" where
  "sa_endpoint getenv =
     (let traces_endpoint = trim_space (getenv ''OTEL_EXPORTER_OTLP_TRACES_ENDPOINT'');
          endpoint = trim_space (getenv ''OTEL_EXPORTER_OTLP_ENDPOINT'');
          legacy = trim_space (getenv ''JAEGER_COLLECTOR_ENDPOINT'')
      in if traces_endpoint \<noteq> [] then (traces_endpoint, True, False)
         else if endpoint \<noteq> [] then (endpoint, False, False)
         else if legacy \<noteq> [] then (legacy, True, True)
         else ([], False, False))"

text \<open>The first of the three errors is returned; the flag of the package is set on the way.\<close>

definition sa_load_trace_config_from_env ::
  "(string \<Rightarrow> f64 option) \<Rightarrow> (string \<Rightarrow> string) \<Rightarrow> tracing \<Rightarrow> (trace_config \<times> string option) \<times> tracing" where
  "sa_load_trace_config_from_env parse_float getenv g =
     (let (enabled, enabled_err) = sa_parse_bool_env getenv ''TRACE_ENABLED'' True;
          (error_log_disabled, disabled_err) = sa_parse_bool_env getenv ''TRACE_ERROR_LOG_DISABLED'' False;
          parse_err = (if disabled_err \<noteq> None \<and> enabled_err = None then disabled_err else enabled_err);
          g = g\<lparr> tg_error_log_disabled := error_log_disabled \<rparr>;
          (rate, rate_err) = sa_parse_float_env parse_float getenv ''JAEGER_SAMPLER_RATE'' f64_one;
          parse_err = (if rate_err \<noteq> None \<and> parse_err = None then rate_err else parse_err);
          sampler_type = trim_space (getenv ''JAEGER_SAMPLER_TYPE'');
          sampler_type = (if sampler_type = [] then ''const'' else sampler_type);
          rate = (if sampler_type = ''const'' then if is_zero rate then f64_zero else f64_one else rate);
          service_name = str_or_default (getenv ''OTEL_SERVICE_NAME'')
            (str_or_default (getenv ''JAEGER_SERVICE_NAME'') (str_or_default (getenv ''SERVICE_ID'') ''lunaship''));
          otlp_protocol = trim_space (getenv ''OTEL_EXPORTER_OTLP_PROTOCOL'');
          otlp_protocol = (if otlp_protocol = [] then ''http/protobuf'' else otlp_protocol);
          (otlp_endpoint, otlp_traces_endpoint, legacy_collector_endpoint) = sa_endpoint getenv;
          conf = \<lparr> tc_enabled = enabled, tc_service_name = service_name, tc_endpoint = otlp_endpoint,
            tc_protocol = otlp_protocol, tc_traces_endpoint = otlp_traces_endpoint, tc_legacy = legacy_collector_endpoint,
            tc_sampler_type = sampler_type, tc_sampler_rate = rate, tc_error_log_disabled = error_log_disabled \<rparr>
      in ((conf, parse_err), g))"

section \<open>Sampler and exporter\<close>

definition sa_clamp_sampler_rate :: "f64 \<Rightarrow> f64" where
  "sa_clamp_sampler_rate rate =
     (if f64_lt rate f64_zero then f64_zero
      else if f64_lt f64_one rate then f64_one
      else rate)"

definition sa_build_sampler :: "trace_config \<Rightarrow> sampler" where
  "sa_build_sampler conf =
     (let sampler_type = to_lower (trim_space (tc_sampler_type conf)) in
      if sampler_type = ''const'' then
        if is_zero (tc_sampler_rate conf) then Never_Sample else Always_Sample
      else if sampler_type \<in> {''probabilistic'', ''rate'', ''ratio''} then
        Parent_Ratio (sa_clamp_sampler_rate (tc_sampler_rate conf))
      else Parent_Ratio (sa_clamp_sampler_rate (tc_sampler_rate conf)))"

definition sa_traces_path :: "bool \<Rightarrow> string \<Rightarrow> string" where
  "sa_traces_path traces_endpoint parsed_path =
     (let path = trim_right_char CHR ''/'' parsed_path in
      if traces_endpoint then (if path = [] then ''/v1/traces'' else path)
      else if path = [] then ''/v1/traces''
      else path @ ''/v1/traces'')"

definition sa_otlp_http_options ::
  "(string \<Rightarrow> (string, url) result) \<Rightarrow> trace_config \<Rightarrow> (trace_error, otlp_option list) result" where
  "sa_otlp_http_options url_parse conf =
     (let endpoint = trim_space (tc_endpoint conf) in
      if endpoint = [] then
        Inr [With_Endpoint ''127.0.0.1:4318'', With_URL_Path ''/v1/traces'', With_Insecure]
      else
          (case url_parse (if \<not> contains endpoint ''://'' then ''http://'' @ endpoint else endpoint) of
             Inl err \<Rightarrow> Inl (URL_Error err)
           | Inr parsed \<Rightarrow>
               if url_host parsed = [] then Inl (Invalid_Endpoint endpoint)
               else
                 let path = sa_traces_path (tc_traces_endpoint conf) (url_path parsed);
                     opts = [With_Endpoint (url_host parsed), With_URL_Path path]
                 in if url_scheme parsed = ''http'' then Inr (opts @ [With_Insecure])
                    else if url_scheme parsed \<noteq> ''https'' then Inl (Unsupported_Scheme (url_scheme parsed))
                    else Inr opts))"

section \<open>Starting and closing\<close>

type_synonym trace_provider = "string \<times> sampler \<times> otlp_option list"

definition sa_init_tracing ::
  "(string \<Rightarrow> (string, url) result) \<Rightarrow> trace_env \<Rightarrow> trace_config \<Rightarrow> tracing \<Rightarrow>
   (trace_error, trace_provider option) result \<times> tracing" where
  "sa_init_tracing url_parse libs conf g =
     (if \<not> tc_enabled conf then (Inr None, g)
      else
        let g = g\<lparr> tg_error_log_disabled := tc_error_log_disabled conf \<rparr>;
            g = g\<lparr> tg_handler_set := True \<rparr>
        in if tc_protocol conf \<noteq> [] \<and> tc_protocol conf \<noteq> ''http/protobuf''
           then (Inl (Unsupported_Protocol (tc_protocol conf)), g)
           else
             (case sa_otlp_http_options url_parse conf of
                Inl err \<Rightarrow> (Inl err, g)
              | Inr opts \<Rightarrow>
                  (case (te_exporter libs, te_resource libs) of
                     (Some err, _) \<Rightarrow> (Inl (Exporter_Error err), g)
                   | (None, Some err) \<Rightarrow> (Inl (Resource_Error err), g)
                   | (None, None) \<Rightarrow>
                       let tp = (tc_service_name conf, sa_build_sampler conf, opts);
                           g = g\<lparr> tg_provider := Some tp \<rparr>;
                           g = g\<lparr> tg_propagator_set := True \<rparr>
                       in (Inr (Some tp), g\<lparr> tg_closer := Some tp \<rparr>))))"

definition sa_init_tracing_from_env ::
  "(int \<Rightarrow> bool) \<Rightarrow> (f64 \<Rightarrow> string) \<Rightarrow> (string \<Rightarrow> f64 option) \<Rightarrow> (string \<Rightarrow> (string, url) result) \<Rightarrow>
   (string \<Rightarrow> string) \<Rightarrow> trace_env \<Rightarrow> tracing \<Rightarrow> telemetry \<Rightarrow> trace_error option \<times> tracing \<times> telemetry" where
  "sa_init_tracing_from_env is_print float_text parse_float url_parse getenv libs g t =
     (let ((conf, err), g) = sa_load_trace_config_from_env parse_float getenv g;
          t = (case err of
                 Some e \<Rightarrow> if \<not> tc_error_log_disabled conf
                           then log_at error_level ''trace env parse failed'' [field ''error'' (F_Error e)] t else t
               | None \<Rightarrow> t);
          t = log_at info_level ''trace config'' (trace_config_fields float_text conf) t;
          t = (if tc_legacy conf \<and> \<not> tc_error_log_disabled conf
               then log_at warn_level
                 ''legacy JAEGER_COLLECTOR_ENDPOINT detected; use OTEL_EXPORTER_OTLP_ENDPOINT instead'' [] t
               else t)
      in if \<not> tc_enabled conf then (None, g, t)
         else
           (case sa_init_tracing url_parse libs conf g of
              (Inl init_err, g) \<Rightarrow>
                (Some init_err, g,
                 if \<not> tc_error_log_disabled conf
                 then log_at error_level ''trace init failed'' [field ''error'' (F_Error (trace_error_text is_print init_err))] t
                 else t)
            | (Inr closer, g) \<Rightarrow>
                (None, (case closer of Some tp \<Rightarrow> g\<lparr> tg_closer := Some tp \<rparr> | None \<Rightarrow> g), t)))"

text \<open>\<open>traceCloserFunc\<close> with its shutdown function, which may be nil, and \<open>CloseTracing\<close>. The initial
  \<open>traceCloser\<close> does nothing, as does the nil function.\<close>

definition trace_closer_close :: "('w \<Rightarrow> 'e option \<times> 'w) option \<Rightarrow> 'w \<Rightarrow> 'e option \<times> 'w" where
  "trace_closer_close shutdown w = (case shutdown of None \<Rightarrow> (None, w) | Some f \<Rightarrow> f w)"

definition sa_close_tracing :: "(trace_provider \<Rightarrow> 'w \<Rightarrow> 'e option \<times> 'w) \<Rightarrow> tracing \<Rightarrow> 'w \<Rightarrow> 'e option \<times> 'w" where
  "sa_close_tracing shutdown g w = trace_closer_close (map_option shutdown (tg_closer g)) w"

text \<open>\<open>traceErrorHandler.Handle\<close>: the counter, and the entry unless there is nothing to log or logging is off.\<close>

definition sa_handle :: "tracing \<Rightarrow> string option \<Rightarrow> nat \<Rightarrow> telemetry \<Rightarrow> nat \<times> telemetry" where
  "sa_handle g err errors t =
     (let errors = Suc errors in
      if tg_error_log_disabled g then (errors, t)
      else case err of
        None \<Rightarrow> (errors, t)
      | Some e \<Rightarrow> (errors, log_at error_level ''trace reporter error'' [field ''error'' (F_Error e)] t))"

definition sa_trace_error_log_disabled :: "tracing \<Rightarrow> bool" where
  "sa_trace_error_log_disabled g = tg_error_log_disabled g"

definition tracing_begin :: tracing where
  "tracing_begin = \<lparr> tg_error_log_disabled = False, tg_handler_set = False, tg_provider = None,
     tg_propagator_set = False, tg_closer = None \<rparr>"

section \<open>Agreement with \<open>infra/trace.go\<close>\<close>

lemma sa_parse_envs:
  "sa_parse_bool_env = parse_bool_env" "sa_parse_float_env = parse_float_env"
  by (intro ext; simp add: sa_parse_bool_env_def parse_bool_env_def sa_parse_float_env_def parse_float_env_def Let_def
      split: option.split)+

lemma sa_sampler: "sa_clamp_sampler_rate = clamp_sampler_rate" "sa_build_sampler = build_sampler"
  by (intro ext; simp add: sa_clamp_sampler_rate_def clamp_sampler_rate_def sa_build_sampler_def build_sampler_def Let_def)+

lemma if_negated: "(if \<not> p then x else y) = (if p then y else x)"
  by simp

lemma sa_options: "sa_otlp_http_options url_parse conf = otlp_http_options url_parse conf"
  unfolding sa_otlp_http_options_def otlp_http_options_def sa_traces_path_def Let_def
    if_negated [of "contains _ _"] ..

lemma first_error_guarded: "(if b \<noteq> None \<and> a = None then b else a) = first_error a b"
  by (cases a; cases b) (simp_all add: first_error_def)

lemma sa_load: "sa_load_trace_config_from_env parse_float getenv g = load_trace_config_from_env parse_float getenv g"
  unfolding sa_load_trace_config_from_env_def load_trace_config_from_env_def sa_parse_envs sa_endpoint_def
      first_error_guarded Let_def split_beta
  by (simp only: fst_conv snd_conv trace_config.select_convs)

lemma load_sets_flag:
  "load_trace_config_from_env parse_float getenv g = ((conf, parse_err), g') \<Longrightarrow> g' = g\<lparr> tg_error_log_disabled := tc_error_log_disabled conf \<rparr>"
  unfolding load_trace_config_from_env_def Let_def split_beta by (auto simp only: prod.inject trace_config.select_convs)

lemma load_conf: "fst (load_trace_config_from_env parse_float getenv g) = fst (load_trace_config_from_env parse_float getenv h)"
  unfolding load_trace_config_from_env_def Let_def split_beta by (simp only: fst_conv)

lemma sa_init: "sa_init_tracing url_parse libs conf g = init_tracing url_parse libs conf g"
  unfolding sa_init_tracing_def init_tracing_def sa_options sa_sampler Let_def
  by (simp split: sum.split option.split)

lemma sa_start:
  "sa_init_tracing_from_env is_print float_text parse_float url_parse getenv libs g t =
   init_tracing_from_env is_print float_text parse_float url_parse getenv libs g t"
proof -
  obtain conf err g1 where l: "load_trace_config_from_env parse_float getenv g = ((conf, err), g1)" by (metis prod.exhaust)
  obtain r g2 where i: "init_tracing url_parse libs conf g1 = (r, g2)" by fastforce
  consider e where "r = Inl e" | "r = Inr None" | tp where "r = Inr (Some tp)" by (metis sum.exhaust option.exhaust)
  then show ?thesis
    unfolding sa_init_tracing_from_env_def init_tracing_from_env_def sa_load sa_init l Let_def split i
    by cases (cases err; simp)+
qed

lemma sa_end:
  "sa_handle g err n t = handle_trace_error g err n t" "sa_close_tracing shutdown g w = close_tracing shutdown g w"
  "sa_trace_error_log_disabled g = trace_error_log_disabled g"
  by (simp_all add: sa_handle_def handle_trace_error_def Let_def sa_close_tracing_def trace_closer_close_def close_tracing_def
      closer_func_close_def sa_trace_error_log_disabled_def trace_error_log_disabled_def split: option.split)

section \<open>What the start reports\<close>

text \<open>The entries of one start, for the configuration and the two possible errors.\<close>

definition start_entries ::
  "(int \<Rightarrow> bool) \<Rightarrow> (f64 \<Rightarrow> string) \<Rightarrow> trace_config \<Rightarrow> string option \<Rightarrow> trace_error option \<Rightarrow>
   (level \<times> string \<times> log_field list) list" where
  "start_entries is_print float_text conf parse_err init_err =
     (let loud = \<not> tc_error_log_disabled conf in
      (case parse_err of Some e \<Rightarrow> if loud then [(error_level, ''trace env parse failed'', [field ''error'' (F_Error e)])] else []
         | None \<Rightarrow> []) @
      [(info_level, ''trace config'', trace_config_fields float_text conf)] @
      (if tc_legacy conf \<and> loud
       then [(warn_level, ''legacy JAEGER_COLLECTOR_ENDPOINT detected; use OTEL_EXPORTER_OTLP_ENDPOINT instead'', [])] else []) @
      (case init_err of
         Some e \<Rightarrow> if loud then [(error_level, ''trace init failed'', [field ''error'' (F_Error (trace_error_text is_print e))])] else []
       | None \<Rightarrow> []))"

text \<open>What a start does to the state.\<close>

definition start_run ::
  "(string \<Rightarrow> (string, url) result) \<Rightarrow> trace_env \<Rightarrow> trace_config \<Rightarrow> tracing \<Rightarrow> trace_error option \<times> tracing" where
  "start_run url_parse libs conf g =
     (case init_tracing url_parse libs conf (g\<lparr> tg_error_log_disabled := tc_error_log_disabled conf \<rparr>) of
        (Inl e, g) \<Rightarrow> (Some e, g) | (Inr None, g) \<Rightarrow> (None, g)
      | (Inr (Some tp), g) \<Rightarrow> (None, g\<lparr> tg_closer := Some tp \<rparr>))"

lemma init_from_env_run:
  assumes "fst (load_trace_config_from_env parse_float getenv g) = (conf, parse_err)" "start_run url_parse libs conf g = (res, g')"
  shows "init_tracing_from_env is_print float_text parse_float url_parse getenv libs g t =
    (res, g', t\<lparr> tl_entries := tl_entries t @ start_entries is_print float_text conf parse_err res \<rparr>)"
proof -
  have l: "load_trace_config_from_env parse_float getenv g = ((conf, parse_err), g\<lparr> tg_error_log_disabled := tc_error_log_disabled conf \<rparr>)"
    using assms(1) load_sets_flag [of parse_float getenv g conf parse_err] by (cases "load_trace_config_from_env parse_float getenv g") simp
  have off: "start_run url_parse libs conf g = (None, g\<lparr> tg_error_log_disabled := tc_error_log_disabled conf \<rparr>)" if "\<not> tc_enabled conf"
    using that by (simp add: start_run_def init_tracing_def)
  show ?thesis
    using assms(2) off unfolding init_tracing_from_env_def l start_entries_def Let_def start_run_def
    by (cases "tc_error_log_disabled conf"; cases "tc_legacy conf"; cases parse_err; cases "tc_enabled conf")
      (auto simp: log_at_def split: prod.splits sum.splits option.splits if_splits)
qed

text \<open>C32: package \<open>trace\<close> is package \<open>infra\<close>. Starting tracing from the environment gives the same error, state and log
  entries in both, the handlers of later errors do the same, and so does closing. The start logs the
  configuration once. Unless error logs are disabled, an error entry is written for each of the two possible
  failures, the last entry naming the returned error; if they are disabled nothing else is written, and the
  reporter's later errors are only counted.\<close>

theorem standalone_tracing_agrees:
  assumes "fst (load_trace_config_from_env parse_float getenv g) = (conf, parse_err)"
    and "sa_init_tracing_from_env is_print float_text parse_float url_parse getenv libs g t = (res, g', t')"
  shows "init_tracing_from_env is_print float_text parse_float url_parse getenv libs g t = (res, g', t') \<and>
    (\<forall>err n t. sa_handle g' err n t = handle_trace_error g' err n t) \<and>
    (\<forall>shutdown w. sa_close_tracing shutdown g' w = close_tracing shutdown g' w) \<and>
    (\<exists>es. tl_entries t' = tl_entries t @ es \<and>
       filter (\<lambda>e. fst e = info_level) es = [(info_level, ''trace config'', trace_config_fields float_text conf)] \<and>
       (if tc_error_log_disabled conf
        then length es = 1 \<and> (\<forall>err n t. sa_handle g' err n t = (Suc n, t))
        else length (filter (\<lambda>e. fst e = error_level) es) =
               (if parse_err = None then 0 else 1) + (if res = None then 0 else 1) \<and>
             (\<forall>e. res = Some e \<longrightarrow>
                last es = (error_level, ''trace init failed'', [field ''error'' (F_Error (trace_error_text is_print e))]))))"
proof -
  obtain r g1 where i: "start_run url_parse libs conf g = (r, g1)" by fastforce
  from init_from_env_run [OF assms(1) i] assms(2) sa_start
  have eq: "r = res" "g1 = g'"
    and es: "tl_entries t' = tl_entries t @ start_entries is_print float_text conf parse_err res" by (simp_all, force)
  have "tg_error_log_disabled g' = tc_error_log_disabled conf"
    using i eq unfolding start_run_def init_tracing_def
    by (auto simp: Let_def split: if_splits sum.splits option.splits)
  then have quiet: "tc_error_log_disabled conf \<Longrightarrow> handle_trace_error g' err n u = (Suc n, u)" for err n u
    by (simp add: handle_trace_error_def)
  have run: "init_tracing_from_env is_print float_text parse_float url_parse getenv libs g t = (res, g', t')"
    using assms(2) unfolding sa_start .
  show ?thesis unfolding sa_end
    using run es quiet
    by (intro conjI allI refl exI [of _ "start_entries is_print float_text conf parse_err res"])
      (cases parse_err; cases res; simp add: start_entries_def Let_def)+
qed

text \<open>An environment with a sampling rate that is no number and a protocol that is not supported.\<close>

definition demo_trace_env :: "string \<Rightarrow> string" where
  "demo_trace_env key =
     (if key = ''JAEGER_SAMPLER_RATE'' then ''often'' else if key = ''OTEL_EXPORTER_OTLP_PROTOCOL'' then ''grpc'' else [])"

theorem standalone_tracing_agrees_witness:
  "\<exists>res g' t'. init_tracing_from_env (\<lambda>_. True) (\<lambda>_. []) (\<lambda>_. None) Inl demo_trace_env \<lparr> te_exporter = None, te_resource = None \<rparr> tracing_begin
       \<lparr> tl_spans = [], tl_entries = [] \<rparr> = (res, g', t') \<and>
     length (filter (\<lambda>e. fst e = error_level) (tl_entries t')) = 2 \<and>
     last (tl_entries t') = (error_level, ''trace init failed'', [field ''error'' (F_Error ''unsupported OTLP protocol: grpc'')])"
proof -
  let ?libs = "\<lparr> te_exporter = None, te_resource = None \<rparr>"
  let ?no = "\<lambda>_ :: string. None :: f64 option"
  let ?run = "sa_init_tracing_from_env (\<lambda>_. True) (\<lambda>_. []) ?no Inl demo_trace_env ?libs tracing_begin \<lparr> tl_spans = [], tl_entries = [] \<rparr>"
  let ?load = "fst (load_trace_config_from_env ?no demo_trace_env tracing_begin)"
  have facts: "snd ?load = Some ''JAEGER_SAMPLER_RATE must be a float''" "\<not> tc_error_log_disabled (fst ?load)"
    "fst ?run = Some (Unsupported_Protocol ''grpc'')"
    by code_simp+
  have "?load = (fst ?load, snd ?load)" "?run = (fst ?run, fst (snd ?run), snd (snd ?run))" by simp_all
  from standalone_tracing_agrees [OF this] facts show ?thesis
    by (intro exI [of _ "fst ?run"] exI [of _ "fst (snd ?run)"] exI [of _ "snd (snd ?run)"]) (auto simp: trace_error_text_def numeral_2_eq_2)
qed

section \<open>Closing\<close>

text \<open>The calls of a program on the package, which change the package's state: the two ways to start tracing.\<close>

inductive tracing_call :: "tracing \<Rightarrow> tracing \<Rightarrow> bool" where
  init: "sa_init_tracing url_parse libs conf g = (res, g') \<Longrightarrow> tracing_call g g'"
| load: "sa_load_trace_config_from_env parse_float getenv g = (res, g') \<Longrightarrow> tracing_call g g'"
| init_from_env:
    "sa_init_tracing_from_env is_print float_text parse_float url_parse getenv libs g t = (res, g', t') \<Longrightarrow> tracing_call g g'"

definition closer_current :: "tracing \<Rightarrow> bool" where
  "closer_current g \<longleftrightarrow> tg_closer g = tg_provider g \<and> (tg_provider g \<noteq> None \<longrightarrow> tg_handler_set g \<and> tg_propagator_set g)"

lemma init_tracing_closer:
  "init_tracing url_parse libs conf g = (res, g') \<Longrightarrow> closer_current g \<Longrightarrow>
   closer_current g' \<and> (\<forall>tp. res = Inr (Some tp) \<longrightarrow> tg_closer g' = Some tp)"
  by (auto simp: init_tracing_def closer_current_def Let_def split: if_splits sum.splits option.splits)

interpretation tracing_run: preserved tracing_call closer_current
proof unfold_locales
  fix g g' :: tracing
  assume "tracing_call g g'" "closer_current g"
  then show "closer_current g'"
  proof cases
    case (init url_parse libs conf res)
    then show ?thesis using \<open>closer_current g\<close> by (auto simp: sa_init dest: init_tracing_closer)
  next
    case (load parse_float getenv res)
    then show ?thesis using \<open>closer_current g\<close> load_sets_flag [of parse_float getenv g "fst res" "snd res" g']
      by (simp add: sa_load closer_current_def)
  next
    case (init_from_env is_print float_text parse_float url_parse getenv libs t res t')
    obtain conf err where l: "fst (load_trace_config_from_env parse_float getenv g) = (conf, err)" by fastforce
    let ?g = "g\<lparr> tg_error_log_disabled := tc_error_log_disabled conf \<rparr>"
    have c: "closer_current ?g" using \<open>closer_current g\<close> by (simp add: closer_current_def)
    obtain r h where i: "init_tracing url_parse libs conf ?g = (r, h)" by fastforce
    obtain r' h' where s: "start_run url_parse libs conf g = (r', h')" by fastforce
    from init_from_env_run [OF l s] init_from_env have "h' = g'" unfolding sa_start by simp
    with s i have "g' = h \<or> (\<exists>tp. r = Inr (Some tp) \<and> g' = h\<lparr> tg_closer := Some tp \<rparr>)"
      by (auto simp: start_run_def split: sum.splits option.splits)
    with init_tracing_closer [OF i c] show ?thesis by (auto simp: closer_current_def)
  qed
qed

text \<open>However often and however a program starts tracing, \<open>CloseTracing\<close> shuts down exactly the provider that is
  installed, and does nothing when there is none; an installed provider comes with the error handler and
  the propagator.\<close>

lemma close_shuts_installed_provider:
  assumes "tracing_call\<^sup>*\<^sup>* tracing_begin g"
  shows "sa_close_tracing shutdown g w = (case tg_provider g of None \<Rightarrow> (None, w) | Some tp \<Rightarrow> shutdown tp w) \<and>
    (tg_provider g \<noteq> None \<longrightarrow> tg_handler_set g \<and> tg_propagator_set g)"
proof -
  have "closer_current tracing_begin" by (simp add: closer_current_def tracing_begin_def)
  with tracing_run.run_preserves [OF assms] have "closer_current g" .
  then show ?thesis
    by (auto simp: closer_current_def sa_close_tracing_def trace_closer_close_def split: option.split)
qed

lemma close_shuts_installed_provider_witness:
  "\<exists>g tp. tg_provider g = Some tp \<and> fst tp = ''lunaship'' \<and> sa_close_tracing (\<lambda>tp w. (None :: string option, w @ [fst tp])) g [] = (None, [''lunaship''])"
proof -
  let ?libs = "\<lparr> te_exporter = None, te_resource = None \<rparr>"
  let ?run = "sa_init_tracing_from_env (\<lambda>_. True) (\<lambda>_. []) (\<lambda>_. None) Inl (\<lambda>_. []) ?libs tracing_begin \<lparr> tl_spans = [], tl_entries = [] \<rparr>"
  have "tracing_call tracing_begin (fst (snd ?run))" by (rule tracing_call.init_from_env [of _ _ _ _ _ _ _ _ "fst ?run" _ "snd (snd ?run)"]) simp
  then have r: "tracing_call\<^sup>*\<^sup>* tracing_begin (fst (snd ?run))" ..
  have p: "map_option fst (tg_provider (fst (snd ?run))) = Some ''lunaship''" by code_simp
  with close_shuts_installed_provider [OF r, of "\<lambda>tp w. (None :: string option, w @ [fst tp])" "[]"] show ?thesis
    by (intro exI [of _ "fst (snd ?run)"]) auto
qed

end
