(* ===== verification/Service.thy ===== *)
theory Service
  imports Module_Sort Trace_Config Redis_Lua Pprof Log_Core
begin

text \<open>
  \<open>service/setup.go\<close>: the start-up modules of a service, the choice of the instance each client connects
  to, and \<open>Run\<close> with its deferred clean-up. What the libraries and the other packages answer is a record
  of operations; what is done to them is a list of events in the state. The nine default modules are
  ordered and run by the model of \<open>module.Execute\<close>, together with the modules the caller adds.
\<close>

section \<open>Instances\<close>

text \<open>The result: an error (the sorted names), nothing configured, or the chosen name and instance.\<close>

definition select_bootstrap_instance :: "(string \<times> 't) list \<Rightarrow> (string list, (string \<times> 't) option) result" where
  "select_bootstrap_instance instances =
     (if instances = [] then Inr None
      else case map_of instances ''default'' of
        Some inst \<Rightarrow> Inr (Some (''default'', inst))
      | None \<Rightarrow>
          if length instances = 1 then Inr (Some (hd instances))
          else Inl (sort (map fst instances)))"

section \<open>Server configuration\<close>

record server_config =
  sv_service_id :: string
  sv_service_version :: string
  sv_openapi_doc :: string
  sv_deploy_env :: string

definition load_server_config :: "(string \<Rightarrow> string) \<Rightarrow> server_config \<Rightarrow> server_config" where
  "load_server_config env sc =
     sc\<lparr> sv_service_id := env ''SERVICE_ID'', sv_service_version := env ''SERVICE_VERSION'',
        sv_openapi_doc := env ''SERVICE_DOC'' \<rparr>"

section \<open>State and operations\<close>

record mysql_dsn =
  dsn_user :: string
  dsn_password :: string
  dsn_net :: string
  dsn_addr :: string
  dsn_db :: string
  dsn_params :: "(string \<times> string) list"
  dsn_parse_time :: bool
  dsn_local :: bool
  dsn_native_passwords :: bool

datatype boot_event =
    Ev_Setenv string string
  | Ev_Init_Log string string level
  | Ev_Log string
  | Ev_Log_Sync
  | Ev_Init_Tracing trace_config
  | Ev_Init_Redis redis_options int nat
  | Ev_Init_MySQL mysql_dsn
  | Ev_MySQL_Pool int int int
  | Ev_Init_Metrics string
  | Ev_Static_Pprof string
  | Ev_Dynamic_Pprof string
  | Ev_Serve bool
  | Ev_Shutdown
  | Ev_Stop_Pprof
  | Ev_Close_Tracing

record 'v boot =
  b_cfg_path :: string
  b_prom_addr :: string
  b_cfg :: "'v app_config option"
  b_env :: "string \<Rightarrow> string"
  b_global :: "'v app_config option"
  b_log_ready :: bool
  b_tracing_ready :: bool
  b_routes :: bool
  b_stop_pprof :: bool
  b_events :: "boot_event list"

datatype boot_error =
    Config_Failed load_error
  | Multiple_Instances string "string list"
  | Client_Failed string
  | MySQL_Nil

text \<open>What the packages answer. \<open>bo_trace\<close> is the error of \<open>InitTracing\<close>, which is nil both when tracing is started and
  when it is disabled; \<open>Trace_Config\<close> tells the two apart, \<open>Run\<close> does not. For MySQL: \<open>InitMySQL\<close>, whether the global handle is set, \<open>db.DB()\<close>, \<open>Ping\<close>.\<close>

record 'v boot_ops =
  bo_load :: "string \<Rightarrow> (load_error, 'v app_config) result"
  bo_trace :: "trace_config \<Rightarrow> string option"
  bo_redis :: "redis_options \<Rightarrow> int \<Rightarrow> nat \<Rightarrow> string option"
  bo_mysql :: "mysql_dsn \<Rightarrow> string option"
  bo_mysql_db :: bool
  bo_sql_db :: "string option"
  bo_ping :: "string option"

definition event :: "boot_event \<Rightarrow> 'v boot \<Rightarrow> 'v boot" where
  "event e b = b\<lparr> b_events := b_events b @ [e] \<rparr>"

definition set_env :: "string \<Rightarrow> string \<Rightarrow> 'v boot \<Rightarrow> 'v boot" where
  "set_env k v b = event (Ev_Setenv k v) (b\<lparr> b_env := (b_env b)(k := v) \<rparr>)"

section \<open>The steps\<close>

definition resolve_app_config_path :: "(string \<Rightarrow> string) \<Rightarrow> string" where
  "resolve_app_config_path env = str_or_default (trim_space (env ''APP_CONFIG_PATH'')) ''config/app.toml''"

text \<open>\<open>infra.PROMETHEUS_LISTEN_ADDR\<close>, read when the process starts.\<close>

definition prometheus_listen_addr :: "(string \<Rightarrow> string) \<Rightarrow> string" where
  "prometheus_listen_addr env = str_or_default (env ''PROMETHEUS_LISTEN_ADDR'') '':9090''"

definition log_file :: "(string \<Rightarrow> string) \<Rightarrow> string" where
  "log_file env = str_or_default (env ''LOG_FILE'') ''./tmp/log.log''"

definition err_file :: "(string \<Rightarrow> string) \<Rightarrow> string" where
  "err_file env = str_or_default (env ''ERR_FILE'') ''./tmp/err.log''"

definition load_app_config ::
  "'v boot_ops \<Rightarrow> string \<Rightarrow> 'v boot \<Rightarrow> (load_error, 'v app_config) result \<times> 'v boot" where
  "load_app_config ops path b =
     (case bo_load ops path of
        Inl err \<Rightarrow>
          let b = event (Ev_Init_Log (log_file (b_env b)) (err_file (b_env b)) info_level) b;
              b = event (Ev_Log ''failed to load app config'') b
          in (Inl err, event Ev_Log_Sync b)
      | Inr cfg \<Rightarrow> (Inr cfg, b\<lparr> b_global := set_global (Some cfg) (b_global b) \<rparr>))"

definition apply_runtime_metadata :: "'v app_config option \<Rightarrow> 'v boot \<Rightarrow> 'v boot" where
  "apply_runtime_metadata cfg0 b =
     (case cfg0 of None \<Rightarrow> b | Some cfg \<Rightarrow>
        let name = as_app_name (ac_app cfg);
            b = set_env ''APP_NAME'' name b;
            b = (if trim_space (b_env b ''SERVICE_ID'') = [] then set_env ''SERVICE_ID'' name b else b)
        in if trim_space (b_env b ''OTEL_SERVICE_NAME'') = [] then set_env ''OTEL_SERVICE_NAME'' name b else b)"

definition log_level_from_config :: "string \<Rightarrow> level" where
  "log_level_from_config lvl0 =
     (let lvl = to_lower (trim_space lvl0) in
      if lvl = ''debug'' then debug_level
      else if lvl = ''warn'' then warn_level
      else if lvl = ''error'' then error_level
      else info_level)"

definition init_pprof :: "'v app_config \<Rightarrow> 'v boot \<Rightarrow> 'v boot" where
  "init_pprof cfg b =
     (let addr = str_or_default (trim_space (b_env b ''PPROF_LISTEN_ADDR'')) '':6060'';
          mode = to_lower (trim_space (ap_mode (as_pprof (ac_app cfg))))
      in if mode = ''server'' then (event (Ev_Static_Pprof addr) b)\<lparr> b_routes := False, b_stop_pprof := False \<rparr>
         else (event (Ev_Dynamic_Pprof addr) b)\<lparr> b_routes := True, b_stop_pprof := True \<rparr>)"

text \<open>In nanoseconds.\<close>

definition default_redis_timeout :: int where "default_redis_timeout = 1000000000"

definition default_redis_retry :: nat where "default_redis_retry = 2"

definition init_redis_client :: "'v boot_ops \<Rightarrow> 'v app_config option \<Rightarrow> 'v boot \<Rightarrow> boot_error option \<times> 'v boot" where
  "init_redis_client ops cfg0 b =
     (case cfg0 of None \<Rightarrow> (None, b) | Some cfg \<Rightarrow>
        case select_bootstrap_instance (ac_redis cfg) of
          Inl names \<Rightarrow> (Some (Multiple_Instances ''redis'' names), b)
        | Inr None \<Rightarrow> (None, b)
        | Inr (Some (name, inst)) \<Rightarrow>
            let b = event (Ev_Log ''init redis from app config'') b;
                opts = \<lparr> ro_addrs = [ri_addr inst @ '':'' @ itoa (ri_port inst)],
                  ro_password = ri_password inst, ro_db = ri_db inst \<rparr>
            in (map_option Client_Failed (bo_redis ops opts default_redis_timeout default_redis_retry),
                event (Ev_Init_Redis opts default_redis_timeout default_redis_retry) b))"

definition init_mysql_client :: "'v boot_ops \<Rightarrow> 'v app_config option \<Rightarrow> 'v boot \<Rightarrow> boot_error option \<times> 'v boot" where
  "init_mysql_client ops cfg0 b =
     (case cfg0 of None \<Rightarrow> (None, b) | Some cfg \<Rightarrow>
        case select_bootstrap_instance (my_instances (ac_mysql cfg)) of
          Inl names \<Rightarrow> (Some (Multiple_Instances ''mysql'' names), b)
        | Inr None \<Rightarrow> (None, b)
        | Inr (Some (name, inst)) \<Rightarrow>
            let dsn = \<lparr> dsn_user = mi_username inst, dsn_password = mi_password inst, dsn_net = ''tcp'',
                  dsn_addr = mi_host inst @ '':'' @ itoa (mi_port inst), dsn_db = mi_database inst,
                  dsn_params = [(''charset'', ''utf8mb4'')], dsn_parse_time = True, dsn_local = True, dsn_native_passwords = True \<rparr>;
                b = event (Ev_Init_MySQL dsn) (event (Ev_Log ''init mysql from app config'') b)
            in case bo_mysql ops dsn of Some e \<Rightarrow> (Some (Client_Failed e), b) | None \<Rightarrow>
               if \<not> bo_mysql_db ops then (Some MySQL_Nil, b)
               else case bo_sql_db ops of Some e \<Rightarrow> (Some (Client_Failed e), b) | None \<Rightarrow>
                 let b = event (Ev_MySQL_Pool (my_max_open_conns (ac_mysql cfg)) (my_max_idle_conns (ac_mysql cfg))
                           (my_max_idle_time (ac_mysql cfg))) b
                 in if mi_ping_enabled inst then (map_option Client_Failed (bo_ping ops), b) else (None, b))"

definition init_kafka_client :: "'v app_config option \<Rightarrow> 'v boot \<Rightarrow> boot_error option \<times> 'v boot" where
  "init_kafka_client cfg0 b =
     (case cfg0 of None \<Rightarrow> (None, b) | Some cfg \<Rightarrow>
        if entries (kc_producer (ac_kafka cfg)) = [] \<and> entries (kc_consumer (ac_kafka cfg)) = [] then (None, b)
        else (None, event (Ev_Log ''kafka app config detected but bootstrap is not implemented in svc.Run yet'') b))"

section \<open>The default modules\<close>

type_synonym 'v boot_module = "('v boot, boot_error) module"

definition config_module :: "'v boot_ops \<Rightarrow> 'v boot_module" where
  "config_module ops = new_module_wrapper ''config'' ''Load app config''
     (\<lambda>b. case load_app_config ops (b_cfg_path b) b of
            (Inl err, b) \<Rightarrow> (Some (Config_Failed err), b)
          | (Inr cfg, b) \<Rightarrow> (None, b\<lparr> b_cfg := Some cfg \<rparr>)) []"

definition metadata_module :: "'v boot_module" where
  "metadata_module = new_module_wrapper ''runtime-metadata'' ''Apply runtime metadata''
     (\<lambda>b. (None, apply_runtime_metadata (b_cfg b) b)) [''config'']"

text \<open>\<open>state.cfg.App\<close> on a nil configuration panics; the dependency on \<open>config\<close> rules it out.\<close>

text \<open>The configuration is there: the modules that \<open>log\<close> depends on are run before it, and \<open>config\<close> has set it.\<close>

definition log_module :: "'v boot_module" where
  "log_module = new_module_wrapper ''log'' ''Init logging''
     (\<lambda>b. let lvl = log_level_from_config (case b_cfg b of None \<Rightarrow> [] | Some cfg \<Rightarrow> al_level (as_log (ac_app cfg)));
              b = event (Ev_Init_Log (log_file (b_env b)) (err_file (b_env b)) lvl) b
          in (None, b\<lparr> b_log_ready := True \<rparr>)) [''config'', ''runtime-metadata'']"

definition tracing_module :: "'v boot_ops \<Rightarrow> 'v boot_module" where
  "tracing_module ops = new_module_wrapper ''tracing'' ''Init tracing''
     (\<lambda>b. let conf = trace_config_from_app_config (b_cfg b);
              b = event (Ev_Init_Tracing conf) b
          in case bo_trace ops conf of
               Some err \<Rightarrow> (None, event (Ev_Log ''failed to init tracing'') b)
             | None \<Rightarrow> (None, b\<lparr> b_tracing_ready := True \<rparr>)) [''config'', ''log'']"

definition redis_module :: "'v boot_ops \<Rightarrow> 'v boot_module" where
  "redis_module ops = new_module_wrapper ''redis'' ''Init redis''
     (\<lambda>b. init_redis_client ops (b_cfg b) b) [''config'', ''log'']"

definition mysql_module :: "'v boot_ops \<Rightarrow> 'v boot_module" where
  "mysql_module ops = new_module_wrapper ''mysql'' ''Init mysql''
     (\<lambda>b. init_mysql_client ops (b_cfg b) b) [''config'', ''log'']"

definition kafka_module :: "'v boot_module" where
  "kafka_module = new_module_wrapper ''kafka'' ''Init kafka''
     (\<lambda>b. init_kafka_client (b_cfg b) b) [''config'', ''log'']"

definition metrics_module :: "'v boot_module" where
  "metrics_module = new_module_wrapper ''metrics'' ''Init metrics''
     (\<lambda>b. (None, event (Ev_Init_Metrics (b_prom_addr b)) b)) [''log'']"

definition pprof_module :: "'v boot_module" where
  "pprof_module = new_module_wrapper ''pprof'' ''Init pprof''
     (\<lambda>b. case b_cfg b of None \<Rightarrow> (None, b)
          | Some cfg \<Rightarrow> if \<not> ap_enabled (as_pprof (ac_app cfg)) then (None, b) else (None, init_pprof cfg b))
     [''config'', ''log'']"

definition build_default_init_modules :: "'v boot_ops \<Rightarrow> 'v boot_module option list" where
  "build_default_init_modules ops =
     [Some (config_module ops), Some metadata_module, Some log_module, Some (tracing_module ops),
      Some (redis_module ops), Some (mysql_module ops), Some kafka_module, Some metrics_module, Some pprof_module]"

section \<open>Run\<close>

definition new_boot :: "(string \<Rightarrow> string) \<Rightarrow> 'v boot" where
  "new_boot env =
     \<lparr> b_cfg_path = resolve_app_config_path env, b_prom_addr = prometheus_listen_addr env, b_cfg = None, b_env = env, b_global = None, b_log_ready = False,
       b_tracing_ready = False, b_routes = False, b_stop_pprof = False, b_events = [] \<rparr>"

text \<open>\<open>serve\<close> returns after the context is done and the server has been shut down.\<close>

definition serve :: "'v boot \<Rightarrow> 'v boot" where
  "serve b =
     (let b = event (Ev_Log ''server up'') b;
          b = event (Ev_Serve (b_routes b)) b;
          b = event (Ev_Log ''shutting down server'') b;
          b = event Ev_Shutdown b
      in if b_stop_pprof b then event Ev_Stop_Pprof b else b)"

text \<open>The deferred functions, in the order they run.\<close>

definition run_defers :: "'v boot \<Rightarrow> 'v boot" where
  "run_defers b =
     (let b = (if b_log_ready b then event Ev_Log_Sync (event (Ev_Log ''server done'') b) else b)
      in if b_tracing_ready b then event Ev_Close_Tracing b else b)"

text \<open>The result is the panic, if any.\<close>

definition run_service ::
  "'v boot_ops \<Rightarrow> 'v boot_module option list \<Rightarrow> (string \<Rightarrow> string) \<Rightarrow> boot_error exec_error option \<times> 'v boot" where
  "run_service ops extra env =
     (case execute (build_default_init_modules ops @ extra) (new_boot env) of
        (Some err, b) \<Rightarrow> (Some err, run_defers b)
      | (None, b) \<Rightarrow> (None, run_defers (serve b)))"

section \<open>Choice of the instance\<close>

text \<open>Which instance a client connects to does not depend on the order in which Go iterates over the
  map: a section named \<open>default\<close> wins, else the only one, else start-up fails with the sorted names.\<close>

lemma select_instance_order_independent:
  assumes "mset xs = mset ys" "distinct (map fst xs)"
  shows "select_bootstrap_instance xs = select_bootstrap_instance ys \<and>
    select_bootstrap_instance xs =
      (if xs = [] then Inr None
       else if ''default'' \<in> fst ` set xs then Inr (Some (''default'', the (map_of xs ''default'')))
       else if length xs = 1 then Inr (Some (hd xs))
       else Inl (sorted_list_of_set (fst ` set xs)))"
proof -
  have len: "length xs = length ys" using assms(1) by (metis size_mset)
  have sub: "sort (map fst xs) = sort (map fst ys)"
    by (rule properties_for_sort) (simp_all add: assms(1))
  have d2: "distinct (map fst ys)"
    using assms by (metis mset_eq_imp_distinct_iff mset_map)
  have m: "map_of xs k = map_of ys k" for k
    using assms d2 by (metis map_of_eqI map_of_eq_Some_iff map_of_inject_set mset_eq_setD)
  have hd: "hd xs = hd ys" if "length xs = 1"
    using that len assms(1) by (cases xs; cases ys) auto
  have "xs = [] \<longleftrightarrow> ys = []" using len by auto
  then have "select_bootstrap_instance xs = select_bootstrap_instance ys"
    using len sub m hd by (auto simp: select_bootstrap_instance_def split: option.split)
  moreover have sl: "sort (map fst xs) = sorted_list_of_set (fst ` set xs)"
    using assms(2) by (simp add: sorted_list_of_set_sort_remdups distinct_remdups_id flip: set_map)
  have dm: "''default'' \<in> fst ` set xs \<longleftrightarrow> map_of xs ''default'' \<noteq> None" by (simp add: map_of_eq_None_iff)
  have "select_bootstrap_instance xs =
      (if xs = [] then Inr None
       else if ''default'' \<in> fst ` set xs then Inr (Some (''default'', the (map_of xs ''default'')))
       else if length xs = 1 then Inr (Some (hd xs))
       else Inl (sorted_list_of_set (fst ` set xs)))"
    unfolding dm sl [symmetric] by (cases "map_of xs ''default''") (simp_all add: select_bootstrap_instance_def)
  ultimately show ?thesis by blast
qed

lemma select_instance_order_independent_witness:
  "select_bootstrap_instance [(''b'', 1::int), (''a'', 2)] = select_bootstrap_instance [(''a'', 2), (''b'', 1)] \<and>
   select_bootstrap_instance [(''b'', 1::int), (''a'', 2)] = Inl [''a'', ''b'']"
proof -
  have "select_bootstrap_instance [(''b'', 1::int), (''a'', 2)] = Inl [''a'', ''b'']" by code_simp
  with select_instance_order_independent [of "[(''b'', 1::int), (''a'', 2)]" "[(''a'', 2), (''b'', 1)]"]
  show ?thesis by simp
qed

section \<open>Order of the start-up\<close>

lemma module_names:
  "trim_space ''config'' = ''config''" "trim_space ''runtime-metadata'' = ''runtime-metadata''"
  "trim_space ''log'' = ''log''" "trim_space ''tracing'' = ''tracing''" "trim_space ''redis'' = ''redis''"
  "trim_space ''mysql'' = ''mysql''" "trim_space ''kafka'' = ''kafka''" "trim_space ''metrics'' = ''metrics''"
  "trim_space ''pprof'' = ''pprof''"
  by code_simp+

lemma module_deps:
  "normalize_dependencies [] = []" "normalize_dependencies [''config''] = [''config'']"
  "normalize_dependencies [''log''] = [''log'']"
  "normalize_dependencies [''config'', ''log''] = [''config'', ''log'']"
  "normalize_dependencies [''config'', ''runtime-metadata''] = [''config'', ''runtime-metadata'']"
  by code_simp+

lemmas default_module_defs = config_module_def metadata_module_def log_module_def tracing_module_def redis_module_def
  mysql_module_def kafka_module_def metrics_module_def pprof_module_def

lemma default_modules_enabled:
  "enabled_modules (build_default_init_modules ops) =
     [config_module ops, metadata_module, log_module, tracing_module ops, redis_module ops, mysql_module ops,
      kafka_module, metrics_module, pprof_module]"
  by (simp add: enabled_modules_def build_default_init_modules_def default_module_defs new_module_wrapper_def)

definition default_table :: dep_table where
  "default_table =
     [(''config'', []), (''runtime-metadata'', [''config'']), (''log'', [''config'', ''runtime-metadata'']),
      (''tracing'', [''config'', ''log'']), (''redis'', [''config'', ''log'']), (''mysql'', [''config'', ''log'']),
      (''kafka'', [''config'', ''log'']), (''metrics'', [''log'']), (''pprof'', [''config'', ''log''])]"

lemma default_keys:
  "map (\<lambda>m. (module_key m, normalize_dependencies (m_dependencies m))) (enabled_modules (build_default_init_modules ops)) =
   default_table"
  unfolding default_modules_enabled default_table_def
  by (simp add: default_module_defs new_module_wrapper_def module_key_def module_names module_deps)

lemma default_table_of: "table_of (build_default_init_modules ops) = default_table"
  using default_keys [of ops] by (simp add: table_of_def)

lemma default_order: "module_order default_table = map fst default_table"
  by code_simp

text \<open>Without extra modules the start-up order is the order in which the modules are listed.\<close>

lemma default_modules_in_order:
  "sort_modules (build_default_init_modules ops) = Inr (enabled_modules (build_default_init_modules ops))"
proof -
  let ?ms = "build_default_init_modules ops"
  have k: "map module_key (enabled_modules ?ms) = map fst default_table"
    unfolding default_keys [of ops, symmetric] by simp
  have "names_ok ?ms" by (simp add: names_ok_def k) (simp add: default_table_def)
  moreover have "deps_known ?ms" by (simp add: deps_known_def default_table_of names_of_def) (simp add: default_table_def)
  moreover have "length (module_order (table_of ?ms)) = length (enabled_modules ?ms)"
    unfolding default_table_of default_order by (metis k length_map)
  moreover have "map module_key (enabled_modules ?ms) = module_order (table_of ?ms)"
    unfolding default_table_of default_order k ..
  ultimately show ?thesis by (simp add: sort_modules_reference)
qed

text \<open>Whatever modules are added, a successful order starts each default module after those it needs.\<close>

lemma key_unique:
  assumes "names_ok ms" "m \<in> set (enabled_modules ms)" "n \<in> set (enabled_modules ms)" "module_key m = module_key n"
  shows "m = n"
  using assms by (auto simp: names_ok_def distinct_map inj_on_def)












section \<open>Failures\<close>

definition demo_ops :: "unit boot_ops" where
  "demo_ops = \<lparr> bo_load = (\<lambda>_. Inr demo_config), bo_trace = (\<lambda>_. None), bo_redis = (\<lambda>_ _ _. None), bo_mysql = (\<lambda>_. None),
     bo_mysql_db = True, bo_sql_db = None, bo_ping = None \<rparr>"




lemma execute_default:
  "execute (build_default_init_modules ops) b =
     run_inits [config_module ops, metadata_module, log_module, tracing_module ops, redis_module ops, mysql_module ops,
       kafka_module, metrics_module, pprof_module] b"
  using default_modules_in_order [of ops] by (simp add: execute_def default_modules_enabled)

text \<open>If the configuration cannot be loaded, start-up stops there: the error is logged through the
  fallback logger, nothing is connected or served, no deferred clean-up runs, and \<open>Run\<close> panics with
  the load error under the module's name.\<close>

lemma config_failure_stops_startup:
  assumes "bo_load ops (resolve_app_config_path env) = Inl err"
  shows "run_service ops [] env =
    (Some (Init_Failed ''config'' (Config_Failed err)),
     (new_boot env)\<lparr> b_events := [Ev_Init_Log (log_file env) (err_file env) info_level,
        Ev_Log ''failed to load app config'', Ev_Log_Sync] \<rparr>)"
proof -
  have "m_name (config_module ops) = ''config''"
    by (simp add: config_module_def new_module_wrapper_def module_names)
  then show ?thesis
    using assms by (simp add: run_service_def execute_default new_boot_def config_module_def new_module_wrapper_def
        load_app_config_def event_def run_defers_def module_names)
qed

lemma config_failure_stops_startup_witness:
  "fst (run_service (demo_ops\<lparr> bo_load := (\<lambda>_. Inl \<lparr> le_kind = Kind_Parse, le_source = [], le_err = Some ''bad'', le_details = [] \<rparr>) \<rparr>) [] (\<lambda>_. [])) =
   Some (Init_Failed ''config'' (Config_Failed \<lparr> le_kind = Kind_Parse, le_source = [], le_err = Some ''bad'', le_details = [] \<rparr>))"
  using config_failure_stops_startup [of "demo_ops\<lparr> bo_load := (\<lambda>_. Inl \<lparr> le_kind = Kind_Parse, le_source = [], le_err = Some ''bad'', le_details = [] \<rparr>) \<rparr>"]
  by simp

section \<open>Clean-up\<close>

text \<open>What a start-up has connected to.\<close>

fun connects :: "boot_event \<Rightarrow> bool" where
  "connects (Ev_Init_Redis opts timeout n) = True"
| "connects (Ev_Init_MySQL dsn) = True"
| "connects _ = False"

definition connections :: "'v boot \<Rightarrow> boot_event list" where
  "connections b = filter connects (b_events b)"

text \<open>The states after logging and tracing have been started for a configuration.\<close>

definition up :: "'v app_config \<Rightarrow> bool \<Rightarrow> 'v boot \<Rightarrow> bool" where
  "up cfg tracing b \<longleftrightarrow>
     b_cfg b = Some cfg \<and> b_log_ready b \<and> b_tracing_ready b = tracing \<and> Ev_Shutdown \<notin> set (b_events b)"

lemma up_event: "e \<noteq> Ev_Shutdown \<Longrightarrow> up cfg tr (event e b) = up cfg tr b"
  by (auto simp: up_def event_def)

lemma up_routes: "up cfg tr (b\<lparr> b_routes := r, b_stop_pprof := t \<rparr>) = up cfg tr b"
  by (simp add: up_def)

lemma rest_keeps_up:
  assumes "m \<in> set [redis_module ops, mysql_module ops, kafka_module, metrics_module, pprof_module]" "up cfg tr b"
  shows "up cfg tr (snd (m_init m b))"
proof -
  have "up cfg tr (snd (init_redis_client ops (b_cfg b) b))"
    using assms(2) by (auto simp: init_redis_client_def up_event Let_def split: option.split sum.split prod.split)
  moreover have "up cfg tr (snd (init_mysql_client ops (b_cfg b) b))"
    using assms(2) by (auto simp: init_mysql_client_def up_event Let_def split: option.split sum.split prod.split)
  moreover have "up cfg tr (snd (init_kafka_client (b_cfg b) b))"
    using assms(2) by (auto simp: init_kafka_client_def up_event split: option.split)
  moreover have "up cfg tr (init_pprof cfg b)"
    using assms(2) by (simp add: init_pprof_def up_event up_routes Let_def)
  moreover have "b_cfg b = Some cfg" using assms(2) by (simp add: up_def)
  ultimately show ?thesis
    using assms by (auto simp: default_module_defs new_module_wrapper_def up_event split: option.split)
qed

text \<open>The first four modules of a start-up whose configuration loads.\<close>

lemma first_modules_up:
  assumes "bo_load ops (resolve_app_config_path env) = Inr cfg"
  shows "\<exists>b. up cfg (bo_trace ops (trace_config_from_app_config (Some cfg)) = None) b \<and> connections b = [] \<and>
    execute (build_default_init_modules ops) (new_boot env) =
      run_inits [redis_module ops, mysql_module ops, kafka_module, metrics_module, pprof_module] b"
proof -
  have e: "b_events (set_env k v b) = b_events b @ [Ev_Setenv k v]" "b_cfg (set_env k v b) = b_cfg b"
    "b_tracing_ready (set_env k v b) = b_tracing_ready b" for k v and b :: "'a boot"
    by (simp_all add: set_env_def event_def)
  let ?b1 = "(new_boot env)\<lparr> b_global := set_global (Some cfg) None, b_cfg := Some cfg \<rparr>"
  have m1: "m_init (config_module ops) (new_boot env) = (None, ?b1)"
    using assms by (simp add: config_module_def new_module_wrapper_def load_app_config_def new_boot_def)
  let ?b2 = "apply_runtime_metadata (Some cfg) ?b1"
  have m2: "m_init metadata_module ?b1 = (None, ?b2)"
    by (simp add: metadata_module_def new_module_wrapper_def)
  have b2: "b_cfg ?b2 = Some cfg" "\<not> b_tracing_ready ?b2" "Ev_Shutdown \<notin> set (b_events ?b2)" "connections ?b2 = []"
    by (auto simp: apply_runtime_metadata_def Let_def e new_boot_def connections_def)
  obtain b3 where m3: "m_init log_module ?b2 = (None, b3)" and b3: "b_cfg b3 = Some cfg" "b_log_ready b3" "\<not> b_tracing_ready b3" "Ev_Shutdown \<notin> set (b_events b3)"
      "connections b3 = []"
    using b2 by (simp add: log_module_def new_module_wrapper_def Let_def event_def connections_def)
  obtain b4 where m4: "m_init (tracing_module ops) b3 = (None, b4)"
    and b4: "b_cfg b4 = Some cfg" "b_log_ready b4" "Ev_Shutdown \<notin> set (b_events b4)" "connections b4 = []"
      "b_tracing_ready b4 = (bo_trace ops (trace_config_from_app_config (Some cfg)) = None)"
    using b3 by (cases "bo_trace ops (trace_config_from_app_config (Some cfg))")
      (simp_all add: tracing_module_def new_module_wrapper_def Let_def event_def connections_def)
  show ?thesis
    by (intro exI [of _ b4]) (simp add: execute_default m1 m2 m3 m4 up_def b4)
qed

text \<open>C17: once the configuration is loaded, \<open>Run\<close> without modules of the caller always cleans up, whichever of its modules
  fails: the last it does is to log the end and flush the log, then to close tracing if and only if
  \<open>InitTracing\<close> returned no error, which includes tracing that is disabled; and the server is shut down
  exactly when \<open>Run\<close> does not panic.\<close>

theorem run_cleans_up:
  assumes "bo_load ops (resolve_app_config_path env) = Inr cfg"
  shows "\<exists>before_defers. b_events (snd (run_service ops [] env)) = before_defers @ [Ev_Log ''server done'', Ev_Log_Sync] @
      (if bo_trace ops (trace_config_from_app_config (Some cfg)) = None then [Ev_Close_Tracing] else []) \<and>
    (Ev_Shutdown \<in> set before_defers) = (fst (run_service ops [] env) = None)"
proof -
  let ?tr = "bo_trace ops (trace_config_from_app_config (Some cfg)) = None"
  obtain b where b: "up cfg ?tr b" "execute (build_default_init_modules ops) (new_boot env) =
      run_inits [redis_module ops, mysql_module ops, kafka_module, metrics_module, pprof_module] b"
    using first_modules_up [OF assms] by blast
  obtain res c where r: "execute (build_default_init_modules ops) (new_boot env) = (res, c)" by fastforce
  have "up cfg ?tr (snd (run_inits [redis_module ops, mysql_module ops, kafka_module, metrics_module, pprof_module] b))"
    by (rule run_inits_keeps) (use rest_keeps_up b(1) in blast)+
  then have c: "up cfg ?tr c" unfolding b(2) [symmetric] r by simp
  show ?thesis
  proof (cases res)
    case None
    with r c show ?thesis
      by (intro exI [of _ "b_events (serve c)"])
        (auto simp: run_service_def run_defers_def serve_def event_def up_def Let_def)
  next
    case (Some err)
    with r c show ?thesis
      by (intro exI [of _ "b_events c"]) (auto simp: run_service_def run_defers_def event_def up_def Let_def)
  qed
qed

text \<open>A start-up in which tracing fails.\<close>

theorem run_cleans_up_witness:
  "\<exists>before_defers. b_events (snd (run_service (demo_ops\<lparr> bo_trace := (\<lambda>_. Some ''down'') \<rparr>) [] (\<lambda>_. []))) =
     before_defers @ [Ev_Log ''server done'', Ev_Log_Sync]"
  using run_cleans_up [of "demo_ops\<lparr> bo_trace := (\<lambda>_. Some ''down'') \<rparr>" "\<lambda>_. []" demo_config]
  by (auto simp: demo_ops_def)

end
