(* ===== verification/Connect_Routes.thy ===== *)
theory Connect_Routes
  imports Pprof
begin

text \<open>
  The generated client and handler of the example's service (\<open>logsv1connect/service.connect.go\<close>) and the mux of
  \<open>Service.serve\<close> that mounts the handler. The RPC library is a parameter: a client is the arguments it is made
  with, \<open>call_unary\<close> calls with it; \<open>unary\<close> makes a handler of a procedure, a method, its schema and the options
  (\<open>NewUnaryHandler\<close>, once for each type of message).
\<close>

section \<open>Names\<close>

definition dummy_service_name :: string where
  "dummy_service_name = ''logs.v1.DummyService''"

definition ping_procedure :: string where
  "ping_procedure = ''/logs.v1.DummyService/Ping''"

definition transfer_procedure :: string where
  "transfer_procedure = ''/logs.v1.DummyService/Transfer''"

definition get_spot_procedure :: string where
  "get_spot_procedure = ''/logs.v1.DummyService/GetSpot''"

section \<open>The client\<close>

record ('h, 'o) connect_client =
  cc_http :: 'h
  cc_url :: string
  cc_schema :: string
  cc_options :: "'o list"

record ('h, 'o) dummy_service_client =
  dc_ping :: "('h, 'o) connect_client"
  dc_transfer :: "('h, 'o) connect_client"
  dc_get_spot :: "('h, 'o) connect_client"

definition new_dummy_service_client :: "'h \<Rightarrow> string \<Rightarrow> 'o list \<Rightarrow> ('h, 'o) dummy_service_client" where
  "new_dummy_service_client http_client base_url opts =
     (let base_url = trim_right_char CHR ''/'' base_url
      in \<lparr> dc_ping = \<lparr> cc_http = http_client, cc_url = base_url @ ping_procedure, cc_schema = ''Ping'', cc_options = opts \<rparr>,
           dc_transfer = \<lparr> cc_http = http_client, cc_url = base_url @ transfer_procedure, cc_schema = ''Transfer'', cc_options = opts \<rparr>,
           dc_get_spot = \<lparr> cc_http = http_client, cc_url = base_url @ get_spot_procedure, cc_schema = ''GetSpot'', cc_options = opts \<rparr> \<rparr>)"

definition client_ping :: "(('h, 'o) connect_client \<Rightarrow> 'c \<Rightarrow> 'q \<Rightarrow> 'r) \<Rightarrow> ('h, 'o) dummy_service_client \<Rightarrow> 'c \<Rightarrow> 'q \<Rightarrow> 'r" where
  "client_ping call_unary c ctx req = call_unary (dc_ping c) ctx req"

definition client_transfer :: "(('h, 'o) connect_client \<Rightarrow> 'c \<Rightarrow> 'q \<Rightarrow> 'r) \<Rightarrow> ('h, 'o) dummy_service_client \<Rightarrow> 'c \<Rightarrow> 'q \<Rightarrow> 'r" where
  "client_transfer call_unary c ctx req = call_unary (dc_transfer c) ctx req"

definition client_get_spot :: "(('h, 'o) connect_client \<Rightarrow> 'c \<Rightarrow> 'q \<Rightarrow> 'r) \<Rightarrow> ('h, 'o) dummy_service_client \<Rightarrow> 'c \<Rightarrow> 'q \<Rightarrow> 'r" where
  "client_get_spot call_unary c ctx req = call_unary (dc_get_spot c) ctx req"

section \<open>The handler\<close>

record ('p, 't, 'g) dummy_service_handler =
  dh_ping :: 'p
  dh_transfer :: 't
  dh_get_spot :: 'g

text \<open>The path to mount the handler on, and the handler: \<open>None\<close> is \<open>http.NotFound\<close>.\<close>

definition new_dummy_service_handler ::
  "(string \<Rightarrow> 'p \<Rightarrow> string \<Rightarrow> 'o list \<Rightarrow> 'u) \<Rightarrow> (string \<Rightarrow> 't \<Rightarrow> string \<Rightarrow> 'o list \<Rightarrow> 'u) \<Rightarrow> (string \<Rightarrow> 'g \<Rightarrow> string \<Rightarrow> 'o list \<Rightarrow> 'u) \<Rightarrow>
   ('p, 't, 'g) dummy_service_handler \<Rightarrow> 'o list \<Rightarrow> string \<times> (string \<Rightarrow> 'u option)" where
  "new_dummy_service_handler unary_ping unary_transfer unary_get_spot svc opts =
     (let ping_handler = unary_ping ping_procedure (dh_ping svc) ''Ping'' opts;
          transfer_handler = unary_transfer transfer_procedure (dh_transfer svc) ''Transfer'' opts;
          get_spot_handler = unary_get_spot get_spot_procedure (dh_get_spot svc) ''GetSpot'' opts
      in (''/logs.v1.DummyService/'',
          \<lambda>path. if path = ping_procedure then Some ping_handler
                 else if path = transfer_procedure then Some transfer_handler
                 else if path = get_spot_procedure then Some get_spot_handler
                 else None))"

datatype connect_code = Invalid_Argument_Code | Unavailable_Code | Internal_Code | Unimplemented_Code

definition unimplemented :: "string \<Rightarrow> (connect_code \<times> string, 'r) result" where
  "unimplemented name = Inl (Unimplemented_Code, name @ '' is not implemented'')"

definition unimplemented_handler ::
  "('c \<Rightarrow> 'p \<Rightarrow> (connect_code \<times> string, 'rp) result, 'c \<Rightarrow> 't \<Rightarrow> (connect_code \<times> string, 'rt) result,
    'c \<Rightarrow> 'g \<Rightarrow> (connect_code \<times> string, 'rg) result) dummy_service_handler" where
  "unimplemented_handler =
     \<lparr> dh_ping = \<lambda>ctx req. unimplemented ''logs.v1.DummyService.Ping'',
       dh_transfer = \<lambda>ctx req. unimplemented ''logs.v1.DummyService.Transfer'',
       dh_get_spot = \<lambda>ctx req. unimplemented ''logs.v1.DummyService.GetSpot'' \<rparr>"

section \<open>The mux of the service\<close>

text \<open>\<open>register_routes\<close> is \<open>RegisterHandlers\<close> of the profiling manager, if it runs; \<open>Inl\<close> is a panic.\<close>

record 'h mounted_service =
  sv_handler :: 'h
  sv_path :: string
  sv_binding_address :: string

definition service_mux :: "string \<Rightarrow> 'h \<Rightarrow> ('h mux option \<Rightarrow> (string, 'h mux option) result) option \<Rightarrow> (string, 'h mux) result" where
  "service_mux path handler register_routes =
     (case mux_handle path handler [] of Inl p \<Rightarrow> Inl p
      | Inr mux \<Rightarrow>
          (case register_routes of None \<Rightarrow> Inr mux
           | Some register \<Rightarrow> (case register (Some mux) of Inl p \<Rightarrow> Inl p | Inr m \<Rightarrow> Inr (case m of None \<Rightarrow> [] | Some m \<Rightarrow> m))))"

text \<open>The mux of a service that mounts the generated handler, with the two routes of the profiling manager if
  \<open>pprof\<close> is there.\<close>

abbreviation (input) pprof_registration :: "('u \<times> 'u) option \<Rightarrow> ((string \<Rightarrow> 'u option) mux option \<Rightarrow> (string, (string \<Rightarrow> 'u option) mux option) result) option" where
  "pprof_registration pprof \<equiv> map_option (\<lambda>(on_start, on_stop). register_handlers (\<lambda>_. Some on_start) (\<lambda>_. Some on_stop)) pprof"

section \<open>Routing\<close>

lemma procedures_clean:
  "clean_url_path ping_procedure = ping_procedure" "clean_url_path transfer_procedure = transfer_procedure"
  "clean_url_path get_spot_procedure = get_spot_procedure"
  by code_simp+

lemma pprof_paths_clean: "clean_url_path ''/pprof/start'' = ''/pprof/start''" "clean_url_path ''/pprof/stop'' = ''/pprof/stop''"
  by code_simp+

text \<open>The mux that \<open>serve\<close> builds has the mounted subtree and, with the profiling manager, its two routes.\<close>

lemma service_mux_built:
  "service_mux ''/logs.v1.DummyService/'' h (pprof_registration pprof) = Inr ((''/logs.v1.DummyService/'', h) #
    (case pprof of None \<Rightarrow> [] | Some (on_start, on_stop) \<Rightarrow> [(''/pprof/start'', \<lambda>_. Some on_start), (''/pprof/stop'', \<lambda>_. Some on_stop)]))"
  by (cases pprof) (auto simp: service_mux_def register_handlers_def mux_handle_def)

lemma handler_paths:
  "fst (new_dummy_service_handler up ut ug svc opts) = ''/logs.v1.DummyService/''"
  "snd (new_dummy_service_handler up ut ug svc opts) path = map_of
     [(ping_procedure, up ping_procedure (dh_ping svc) ''Ping'' opts),
      (transfer_procedure, ut transfer_procedure (dh_transfer svc) ''Transfer'' opts),
      (get_spot_procedure, ug get_spot_procedure (dh_get_spot svc) ''GetSpot'' opts)] path"
  by (simp_all add: new_dummy_service_handler_def Let_def)

lemma procedures_distinct [simp]:
  "ping_procedure \<noteq> transfer_procedure" "ping_procedure \<noteq> get_spot_procedure" "transfer_procedure \<noteq> get_spot_procedure"
  by code_simp+

lemma procedures_mounted:
  assumes "path \<in> {ping_procedure, transfer_procedure, get_spot_procedure}"
  shows "clean_url_path path = path" "has_prefix path ''/logs.v1.DummyService/''" "path \<noteq> ''/logs.v1.DummyService/''"
    "path \<noteq> ''/pprof/start''" "path \<noteq> ''/pprof/stop''" "path @ ''/'' \<noteq> ''/logs.v1.DummyService/''"
    "path @ ''/'' \<noteq> ''/pprof/start''" "path @ ''/'' \<noteq> ''/pprof/stop''"
  using assms procedures_clean by (auto simp: ping_procedure_def transfer_procedure_def get_spot_procedure_def)

lemma mounted_mux_serves:
  fixes pprof :: "('u \<times> 'u) option"
  assumes h: "\<And>path u. h path = Some u \<Longrightarrow> path \<in> {ping_procedure, transfer_procedure, get_spot_procedure}"
    and mux: "service_mux ''/logs.v1.DummyService/'' h (pprof_registration pprof) = Inr mux"
  shows "serve_http mux path = Served u \<longleftrightarrow> h path = Some u \<or>
    (\<exists>on_start on_stop. pprof = Some (on_start, on_stop) \<and> (path, u) \<in> {(''/pprof/start'', on_start), (''/pprof/stop'', on_stop)})"
    (is "?served \<longleftrightarrow> ?listed")
proof
  assume ?served
  from serve_http_served [OF this] mux [unfolded service_mux_built] show ?listed
    by (cases pprof) (auto simp: mux_match_def longer_def split: if_splits)
next
  assume l: ?listed
  show ?served
  proof (cases "h path = Some u")
    case True
    note m = procedures_mounted [OF h [OF True]]
    have "serve_http mux path = (case Option.bind (mux_match mux path) (\<lambda>h. h path) of None \<Rightarrow> Not_Found | Some u \<Rightarrow> Served u)"
      using mux [unfolded service_mux_built] m by (intro serve_http_handler) (auto split: option.splits)
    moreover have "mux_match mux path = Some h"
      using mux [unfolded service_mux_built] m by (auto simp: mux_match_def longer_def split: option.splits)
    ultimately show ?thesis using True by simp
  next
    case False
    with l obtain on_start on_stop where p: "pprof = Some (on_start, on_stop)"
      and pu: "(path, u) \<in> {(''/pprof/start'', on_start), (''/pprof/stop'', on_stop)}" by blast
    from pu have c: "clean_url_path path = path" using pprof_paths_clean by auto
    from mux pu show ?thesis unfolding service_mux_built p
      by (subst serve_http_handler [OF c]) (auto simp: mux_match_def)
  qed
qed

section \<open>Clients reach the methods\<close>

definition plain_host :: "string \<Rightarrow> bool" where
  "plain_host host \<longleftrightarrow> host \<noteq> [] \<and> CHR ''/'' \<notin> set host \<and> last host \<noteq> CHR '':'' \<and> list_all (\<lambda>c. c \<notin> url_special) host"

lemma trim_right_slashes: "plain_host host \<Longrightarrow> trim_right_char CHR ''/'' (s @ host @ replicate n CHR ''/'') = s @ host"
proof -
  assume p: "plain_host host"
  then have "last host \<in> set host" "CHR ''/'' \<notin> set host" by (simp_all add: plain_host_def)
  then have "last host \<noteq> CHR ''/''" by metis
  then have "dropWhile (\<lambda>c. c = CHR ''/'') (rev host @ rev s) = rev host @ rev s"
    using p by (cases host rule: rev_cases) (auto simp: plain_host_def)
  then show ?thesis unfolding trim_right_char_def rev_append append_assoc rev_replicate by (subst dropWhile_append2) auto
qed

lemma procedure_url:
  assumes "plain_host host" "scheme \<in> {''http://'', ''https://''}" "path \<in> {ping_procedure, transfer_procedure, get_spot_procedure}"
  shows "url_parts (scheme @ host @ path) = Some (scheme = ''https://'', host, path)"
proof -
  have "hd path = CHR ''/''" "path \<noteq> []" "list_all (\<lambda>c. c \<notin> url_special) (tl path)"
    using assms(3) by (auto simp: ping_procedure_def transfer_procedure_def get_spot_procedure_def url_special_def)
  then show ?thesis using url_parts_plain [of host "tl path" scheme] assms by (cases path) (auto simp: plain_host_def)
qed

text \<open>The URLs a client calls and, for each, the handler of the method of its name.\<close>

definition method_routes ::
  "('h, 'co) dummy_service_client \<Rightarrow> (string \<Rightarrow> 'p \<Rightarrow> string \<Rightarrow> 'o list \<Rightarrow> 'u) \<Rightarrow> (string \<Rightarrow> 't \<Rightarrow> string \<Rightarrow> 'o list \<Rightarrow> 'u) \<Rightarrow>
   (string \<Rightarrow> 'g \<Rightarrow> string \<Rightarrow> 'o list \<Rightarrow> 'u) \<Rightarrow> ('p, 't, 'g) dummy_service_handler \<Rightarrow> 'o list \<Rightarrow> (string \<times> 'u) list" where
  "method_routes client unary_ping unary_transfer unary_get_spot svc opts =
     [(cc_url (dc_ping client), unary_ping ping_procedure (dh_ping svc) ''Ping'' opts),
      (cc_url (dc_transfer client), unary_transfer transfer_procedure (dh_transfer svc) ''Transfer'' opts),
      (cc_url (dc_get_spot client), unary_get_spot get_spot_procedure (dh_get_spot svc) ''GetSpot'' opts)]"

lemma generated_mux_built:
  "\<exists>mux. (case new_dummy_service_handler up ut ug svc opts of
     (path, handler) \<Rightarrow> service_mux path handler (pprof_registration pprof)) = Inr mux"
  unfolding case_prod_beta handler_paths(1) service_mux_built [unfolded case_prod_beta] by blast

lemma generated_mux_serves:
  fixes pprof :: "('u \<times> 'u) option"
  assumes "(case new_dummy_service_handler up ut ug svc opts of
      (path, handler) \<Rightarrow> service_mux path handler (pprof_registration pprof)) = Inr mux"
  shows "serve_http mux path = Served u \<longleftrightarrow> snd (new_dummy_service_handler up ut ug svc opts) path = Some u \<or>
    (\<exists>on_start on_stop. pprof = Some (on_start, on_stop) \<and> (path, u) \<in> {(''/pprof/start'', on_start), (''/pprof/stop'', on_stop)})"
proof (rule mounted_mux_serves)
  show "path \<in> {ping_procedure, transfer_procedure, get_spot_procedure}"
    if "snd (new_dummy_service_handler up ut ug svc opts) path = Some u" for path u
    using that unfolding handler_paths by (auto split: if_splits)
  show "service_mux ''/logs.v1.DummyService/'' (snd (new_dummy_service_handler up ut ug svc opts)) (pprof_registration pprof) = Inr mux"
    using assms unfolding case_prod_beta handler_paths(1) .
qed

lemma method_routes_paths:
  assumes "plain_host host" "scheme \<in> {''http://'', ''https://''}"
  shows "(\<exists>url. (url, u) \<in> set (method_routes (new_dummy_service_client http_client (scheme @ host @ replicate n CHR ''/'') client_opts)
      up ut ug svc opts) \<and> url_parts url = Some (scheme = ''https://'', host, path)) \<longleftrightarrow> snd (new_dummy_service_handler up ut ug svc opts) path = Some u"
proof -
  have urls: "url_parts (scheme @ host @ ping_procedure) = Some (scheme = ''https://'', host, ping_procedure)"
    "url_parts (scheme @ host @ transfer_procedure) = Some (scheme = ''https://'', host, transfer_procedure)"
    "url_parts (scheme @ host @ get_spot_procedure) = Some (scheme = ''https://'', host, get_spot_procedure)"
    by (rule procedure_url [OF assms]; simp)+
  have routes: "(\<exists>url. (url, u) \<in> set [(a, x), (b, y), (c, z)] \<and> url_parts url = Some (tls, host, path)) \<longleftrightarrow>
      map_of [(p, x), (q, y), (r, z)] path = Some u"
    if "url_parts a = Some (tls, host, p)" "url_parts b = Some (tls, host, q)" "url_parts c = Some (tls, host, r)" "p \<noteq> q" "p \<noteq> r" "q \<noteq> r"
    for a b c x y z tls and p q r :: string
    using that by auto
  show ?thesis
    unfolding handler_paths method_routes_def new_dummy_service_client_def Let_def trim_right_slashes [OF assms(1)]
      dummy_service_client.simps connect_client.simps append_assoc
    by (rule routes [OF urls procedures_distinct])
qed

text \<open>C24: every client reaches its method, and nothing else is served. The service mounts the generated handler without a
  panic, with or without the routes of the profiling manager; then the mux serves exactly the three
  procedures, each with the handler of its method, and those routes; and each call of a client, made for the
  service's address with any number of slashes behind it, goes to the host under the path of its own method, over TLS
  only for an \<open>https\<close> address.\<close>

theorem clients_reach_methods:
  fixes pprof :: "('u \<times> 'u) option"
  assumes "plain_host host" "scheme \<in> {''http://'', ''https://''}"
  shows "\<exists>mux. (case new_dummy_service_handler unary_ping unary_transfer unary_get_spot svc opts of
       (path, handler) \<Rightarrow> service_mux path handler (pprof_registration pprof)) = Inr mux \<and>
    (\<forall>path u. serve_http mux path = Served u \<longleftrightarrow>
       (\<exists>url. (url, u) \<in> set (method_routes (new_dummy_service_client http_client (scheme @ host @ replicate n CHR ''/'') client_opts)
                               unary_ping unary_transfer unary_get_spot svc opts) \<and> url_parts url = Some (scheme = ''https://'', host, path)) \<or>
       (\<exists>on_start on_stop. pprof = Some (on_start, on_stop) \<and> (path, u) \<in> {(''/pprof/start'', on_start), (''/pprof/stop'', on_stop)}))"
proof -
  obtain mux where mux: "(case new_dummy_service_handler unary_ping unary_transfer unary_get_spot svc opts of
      (path, handler) \<Rightarrow> service_mux path handler (pprof_registration pprof)) = Inr mux"
    using generated_mux_built by blast
  show ?thesis
    unfolding method_routes_paths [OF assms] by (intro exI [of _ mux] conjI allI mux generated_mux_serves [OF mux])
qed

text \<open>A host on its standard port, whose address ends in a slash.\<close>

theorem clients_reach_methods_witness:
  "\<exists>mux. (case new_dummy_service_handler (\<lambda>proc f schema opts. proc) (\<lambda>proc f schema opts. proc) (\<lambda>proc f schema opts. proc)
         \<lparr> dh_ping = (), dh_transfer = (), dh_get_spot = () \<rparr> ([] :: unit list) of
       (path, handler) \<Rightarrow> service_mux path handler (pprof_registration (Some (''start'', ''stop'')))) = Inr mux \<and>
     serve_http mux ''/logs.v1.DummyService/GetSpot'' = Served get_spot_procedure \<and> serve_http mux ''/pprof/stop'' = Served ''stop'' \<and>
     (\<forall>u. serve_http mux ''/logs.v1.DummyService/Pong'' \<noteq> Served u)"
proof -
  have h: "plain_host ''b:8080''" "''http://'' \<in> {''http://'', ''https://''}" by code_simp+
  have b: "''http://'' @ ''b:8080'' @ replicate 1 CHR ''/'' = ''http://b:8080/''" "(''http://'' = ''https://'') = False" by simp_all
  let ?unary = "\<lambda>(proc :: string) (f :: unit) (schema :: string) (opts :: unit list). proc"
  let ?svc = "\<lparr> dh_ping = (), dh_transfer = (), dh_get_spot = () \<rparr>"
  have c: "(\<exists>url. (url, u) \<in> set (method_routes (new_dummy_service_client () ''http://b:8080/'' ([] :: unit list)) ?unary ?unary ?unary ?svc []) \<and>
      url_parts url = Some (False, ''b:8080'', path)) \<longleftrightarrow>
      map_of [(ping_procedure, ping_procedure), (transfer_procedure, transfer_procedure), (get_spot_procedure, get_spot_procedure)] path = Some u"
    for u path by (rule method_routes_paths [OF h, of u "()" 1 "[] :: unit list" ?unary ?unary ?unary ?svc "[]" path, unfolded b handler_paths])
  obtain mux where m: "(case new_dummy_service_handler ?unary ?unary ?unary ?svc [] of
       (path, handler) \<Rightarrow> service_mux path handler (pprof_registration (Some (''start'', ''stop'')))) = Inr mux"
    and s: "\<And>path u. serve_http mux path = Served u \<longleftrightarrow>
       map_of [(ping_procedure, ping_procedure), (transfer_procedure, transfer_procedure), (get_spot_procedure, get_spot_procedure)] path = Some u \<or>
       (path, u) \<in> {(''/pprof/start'', ''start''), (''/pprof/stop'', ''stop'')}"
    using clients_reach_methods [OF h, where http_client = "()" and n = 1 and client_opts = "[] :: unit list" and
      svc = ?svc and opts = "[]" and pprof = "Some (''start'', ''stop'')" and
      unary_ping = ?unary and unary_transfer = ?unary and unary_get_spot = ?unary] unfolding b c by auto
  show ?thesis
    using m by (intro exI [of _ mux]) (simp add: s ping_procedure_def transfer_procedure_def get_spot_procedure_def)
qed

end
