(* ===== verification/Rpc_Server.thy ===== *)
theory Rpc_Server
  imports Interceptors
begin

text \<open>
  A unary call on a server, through the interceptors in the order of \<open>example/logs/main.go\<close>: recovery
  (\<open>infra/recover.go\<close>) outside, then metrics, tracing and the request log around the handler. That the
  recovery is outside, that it hands its own context to \<open>RecoverFn\<close> and that it passes on
  \<open>http.ErrAbortHandler\<close> is what the RPC library documents of \<open>WithRecover\<close>.
\<close>

section \<open>The chain\<close>

text \<open>\<open>sv_abort\<close> recognises \<open>http.ErrAbortHandler\<close>, \<open>sv_panic_events\<close> is what the tracing library's \<open>End\<close> records of a
  panic, \<open>sv_stack\<close> the captured stack.\<close>

record ('e, 'r, 'p) rpc_server =
  sv_extract :: "headers \<Rightarrow> req_ctx \<Rightarrow> req_ctx"
  sv_tracer :: "string \<Rightarrow> req_ctx \<Rightarrow> req_ctx"
  sv_service :: string
  sv_code_of :: "'e option \<Rightarrow> string"
  sv_text :: "'e \<Rightarrow> string"
  sv_render :: "'r \<Rightarrow> string"
  sv_panic_events :: "'p \<Rightarrow> string list"
  sv_abort :: "'p \<Rightarrow> bool"
  sv_panic_text :: "'p \<Rightarrow> string"
  sv_stack :: string

datatype 'e rpc_failure = Failed 'e | Recovered recover_error

text \<open>Tracing and the request log around the handler: the context that the tracing interceptor makes is the one
  of the request log and of the handler.\<close>

definition traced_call ::
  "('e, 'r, 'p) rpc_server \<Rightarrow> rpc_request \<Rightarrow> headers \<Rightarrow> int \<Rightarrow> int \<Rightarrow> (req_ctx \<Rightarrow> 's \<Rightarrow> ('e, 'r, 'p) handled \<times> 's) \<Rightarrow>
   req_ctx \<Rightarrow> 's \<Rightarrow> telemetry \<Rightarrow> ('e, 'r, 'p) handled \<times> 's \<times> telemetry" where
  "traced_call sv req hs now1 now2 handler ctx s t =
     (case start_server_span (sv_extract sv) (sv_tracer sv) (rq_procedure req) (rq_http_method req) hs ctx of
        (attrs, ctx) \<Rightarrow>
          trace_server_interceptor (sv_text sv) (sv_panic_events sv) (rq_procedure req) attrs ctx
            (\<lambda>ctx. logger_interceptor (Some (rx_log ctx)) (\<lambda>e. sv_code_of sv (Some e)) (sv_text sv) (sv_render sv)
                     req now1 now2 (handler ctx)) s t)"

text \<open>Metrics around that, and the recovery around all.\<close>

definition serve_rpc ::
  "('e, 'r, 'p) rpc_server \<Rightarrow> rpc_request \<Rightarrow> headers \<Rightarrow> int \<Rightarrow> int \<Rightarrow> (req_ctx \<Rightarrow> 's \<Rightarrow> ('e, 'r, 'p) handled \<times> 's) \<Rightarrow>
   req_ctx \<Rightarrow> 's \<Rightarrow> telemetry \<Rightarrow> metrics_state \<Rightarrow>
   ('e rpc_failure, 'r, 'p) handled \<times> 's \<times> telemetry \<times> metrics_state" where
  "serve_rpc sv req hs now1 now2 handler ctx s t m =
     (case metrics_interceptor (sv_code_of sv) (sv_service sv) (rq_procedure req)
             (\<lambda>(s, t). traced_call sv req hs now1 now2 handler ctx s t) (s, t) m of
        (Returned (Inr r), (s, t), m) \<Rightarrow> (Returned (Inr r), s, t, m)
      | (Returned (Inl e), (s, t), m) \<Rightarrow> (Returned (Inl (Failed e)), s, t, m)
      | (Panicked p, (s, t), m) \<Rightarrow>
          if sv_abort sv p then (Panicked p, s, t, m)
          else case recover_fn (Some (rx_log ctx)) (rq_procedure req) (sv_panic_text sv p) (sv_stack sv) t of
            (code, t) \<Rightarrow> (Returned (Inl (Recovered code)), s, t, m))"

section \<open>What a call reports\<close>

text \<open>The context under which the handler runs, and the entries and the span of a call that ends with \<open>h\<close>.\<close>

definition call_ctx :: "('e, 'r, 'p) rpc_server \<Rightarrow> rpc_request \<Rightarrow> headers \<Rightarrow> req_ctx \<Rightarrow> req_ctx" where
  "call_ctx sv req hs ctx =
     snd (start_server_span (sv_extract sv) (sv_tracer sv) (rq_procedure req) (rq_http_method req) hs ctx)"

definition call_span :: "('e, 'r, 'p) rpc_server \<Rightarrow> rpc_request \<Rightarrow> ('e, 'r, 'p) handled \<Rightarrow> span" where
  "call_span sv req h =
     \<lparr> sp_name = rq_procedure req, sp_attrs = server_span_attrs (rq_http_method req),
       sp_errors = (case h of Returned (Inl e) \<Rightarrow> [sv_text sv e] | Returned (Inr _) \<Rightarrow> [] | Panicked p \<Rightarrow> sv_panic_events sv p),
       sp_status_error = (case h of Returned (Inl e) \<Rightarrow> Some (sv_text sv e) | _ \<Rightarrow> None) \<rparr>"

definition call_entries ::
  "('e, 'r, 'p) rpc_server \<Rightarrow> rpc_request \<Rightarrow> int \<Rightarrow> int \<Rightarrow> log_ctx option \<Rightarrow> ('e, 'r, 'p) handled \<Rightarrow>
   (level \<times> string \<times> log_field list) list" where
  "call_entries sv req now1 now2 lctx h =
     (let base = fields_from_context lctx @ base_fields req (now_in_ms now1);
          dur = field ''_dur_ms'' (F_Uint (now_in_ms now2 - now_in_ms now1))
      in (if is_sampled lctx then [(info_level, ''request'', base @ [field ''_parameters'' (F_Any (rq_parameters req))])] else []) @
         (case h of
            Returned (Inl e) \<Rightarrow> [(error_level, ''response'', base @ [field ''_resp'' (F_Any ''nil''), dur,
               field ''_err_code'' (F_String (sv_code_of sv (Some e))), field ''_error'' (F_Error (sv_text sv e))])]
          | Returned (Inr r) \<Rightarrow>
              if is_sampled lctx then [(info_level, ''response'', base @ [field ''_resp'' (F_Any (sv_render sv r)), dur])] else []
          | Panicked p \<Rightarrow>
              if is_sampled lctx then [(info_level, ''response'', base @ [field ''_resp'' (F_Any ''nil''), dur])] else []))"

lemma traced_call_reports:
  assumes "handler (call_ctx sv req hs ctx) s = (h, s')"
  shows "traced_call sv req hs now1 now2 handler ctx s t =
    (h, s', \<lparr> tl_spans = tl_spans t @ [call_span sv req h],
             tl_entries = tl_entries t @ call_entries sv req now1 now2 (Some (rx_log (call_ctx sv req hs ctx))) h \<rparr>)"
proof -
  obtain attrs c where st: "start_server_span (sv_extract sv) (sv_tracer sv) (rq_procedure req) (rq_http_method req) hs ctx = (attrs, c)"
    by fastforce
  then have c: "c = call_ctx sv req hs ctx" "attrs = server_span_attrs (rq_http_method req)"
    by (auto simp: call_ctx_def start_server_span_def Let_def)
  show ?thesis
    using assms unfolding c(1) [symmetric]
    by (cases h; cases "is_sampled (Some (rx_log c))")
      (auto simp: traced_call_def st c(2) trace_server_interceptor_def logger_interceptor_def log_response_def log_at_def end_span_def
        call_span_def call_entries_def Let_def split: sum.split)
qed

section \<open>Traces\<close>

text \<open>The documented contract of a propagator on RPC headers and of a tracer.\<close>

definition rpc_propagates ::
  "(req_ctx \<Rightarrow> headers \<Rightarrow> headers) \<Rightarrow> (headers \<Rightarrow> req_ctx \<Rightarrow> req_ctx) \<Rightarrow> bool" where
  "rpc_propagates inject extract \<longleftrightarrow>
     (\<forall>c hs c0. sc_valid (rx_span c) \<longrightarrow> rx_span (extract (inject c hs) c0) = rx_span c)"

definition rpc_traces :: "(string \<Rightarrow> req_ctx \<Rightarrow> req_ctx) \<Rightarrow> bool" where
  "rpc_traces tracer \<longleftrightarrow>
     (\<forall>name c. let child = rx_span (tracer name c) in
       sc_valid child \<and> sc_trace_id child \<noteq> [] \<and> sc_span_id child \<noteq> [] \<and>
       (sc_valid (rx_span c) \<and> sc_trace_id (rx_span c) \<noteq> [] \<longrightarrow> sc_trace_id child = sc_trace_id (rx_span c)))"

lemma rpc_tracesD:
  assumes "rpc_traces tracer"
  shows "sc_valid (rx_span (tracer name c))" "sc_trace_id (rx_span (tracer name c)) \<noteq> []"
    "sc_span_id (rx_span (tracer name c)) \<noteq> []"
    "sc_valid (rx_span c) \<Longrightarrow> sc_trace_id (rx_span c) \<noteq> [] \<Longrightarrow>
     sc_trace_id (rx_span (tracer name c)) = sc_trace_id (rx_span c)"
  using assms by (simp_all add: rpc_traces_def Let_def)

lemma trace_into_log_span [simp]: "rx_span (trace_into_log c p) = rx_span c"
  by (simp add: trace_into_log_def split: prod.split)

lemma call_ctx_trace:
  assumes "rpc_traces (sv_tracer sv)"
  shows "trace_from_context (Some (rx_log (call_ctx sv req hs ctx))) =
      Some (sc_trace_id (rx_span (call_ctx sv req hs ctx)), sc_span_id (rx_span (call_ctx sv req hs ctx)))"
    and "field ''_trace_id'' (F_String (sc_trace_id (rx_span (call_ctx sv req hs ctx)))) \<in>
      set (fields_from_context (Some (rx_log (call_ctx sv req hs ctx))))"
    and "rx_span (call_ctx sv req hs ctx) = rx_span (sv_tracer sv (rq_procedure req) (sv_extract sv hs ctx))"
proof -
  let ?c = "sv_tracer sv (rq_procedure req) (sv_extract sv hs ctx)"
  show span: "rx_span (call_ctx sv req hs ctx) = rx_span ?c"
    by (simp add: call_ctx_def start_server_span_def Let_def)
  show "trace_from_context (Some (rx_log (call_ctx sv req hs ctx))) =
      Some (sc_trace_id (rx_span (call_ctx sv req hs ctx)), sc_span_id (rx_span (call_ctx sv req hs ctx)))"
    unfolding span unfolding call_ctx_def
    by (rule server_span_trace_logged) (simp_all add: rpc_tracesD [OF assms])
  show "field ''_trace_id'' (F_String (sc_trace_id (rx_span (call_ctx sv req hs ctx)))) \<in>
      set (fields_from_context (Some (rx_log (call_ctx sv req hs ctx))))"
    unfolding span unfolding call_ctx_def
    using rpc_tracesD [OF assms] with_trace_fields
    by (simp add: start_server_span_def trace_into_log_def trace_identifiers_def Let_def)
qed

section \<open>Calls that return\<close>

definition is_error :: "('e, 'r) result \<Rightarrow> bool" where
  "is_error res = (case res of Inl e \<Rightarrow> True | Inr r \<Rightarrow> False)"

lemma call_entries_levels:
  "error_level \<in> (\<lambda>(lvl, msg, fs). lvl) ` set (call_entries sv req now1 now2 lctx (Returned res)) \<longleftrightarrow> is_error res"
  by (auto simp: call_entries_def is_error_def Let_def split: sum.split if_splits)

lemma call_entries_ctx:
  "f \<in> set (fields_from_context lctx) \<Longrightarrow> list_all (\<lambda>(lvl, msg, fs). f \<in> set fs) (call_entries sv req now1 now2 lctx h)"
  by (auto simp: call_entries_def Let_def split: handled.split sum.split)

lemma call_returns:
  assumes "handler (call_ctx sv req hs ctx) s = (Returned res, s')"
  shows "serve_rpc sv req hs now1 now2 handler ctx s t m =
      (Returned (case res of Inl e \<Rightarrow> Inl (Failed e) | Inr r \<Rightarrow> Inr r), s',
       \<lparr> tl_spans = tl_spans t @ [call_span sv req (Returned res)],
         tl_entries = tl_entries t @ call_entries sv req now1 now2 (Some (rx_log (call_ctx sv req hs ctx))) (Returned res) \<rparr>,
       m\<lparr> ms_requests := ms_requests m @
            [(sv_service sv, rq_procedure req, sv_code_of sv (case res of Inl e \<Rightarrow> Some e | Inr r \<Rightarrow> None))],
          ms_durations := ms_durations m @
            [(sv_service sv, rq_procedure req, sv_code_of sv (case res of Inl e \<Rightarrow> Some e | Inr r \<Rightarrow> None))] \<rparr>)"
  by (simp add: serve_rpc_def metrics_interceptor_def traced_call_reports [of handler sv req hs ctx s, OF assms] Let_def split: sum.split)

text \<open>C11: the reports of a call agree. When the handler returns, the client gets its result; the call is one span, one
  count, and the entries of the request log; the count has the code of the result, the span an error status
  exactly if an entry has the level of an error and exactly if the call failed; and every entry carries the
  trace id of the span.\<close>

theorem rpc_reports_agree:
  assumes "handler (call_ctx sv req hs ctx) s = (Returned res, s')" and traces: "rpc_traces (sv_tracer sv)"
  shows "\<exists>sp es. serve_rpc sv req hs now1 now2 handler ctx s t m =
      (Returned (case res of Inl e \<Rightarrow> Inl (Failed e) | Inr r \<Rightarrow> Inr r), s',
       \<lparr> tl_spans = tl_spans t @ [sp], tl_entries = tl_entries t @ es \<rparr>,
       m\<lparr> ms_requests := ms_requests m @
            [(sv_service sv, rq_procedure req, sv_code_of sv (case res of Inl e \<Rightarrow> Some e | Inr r \<Rightarrow> None))],
          ms_durations := ms_durations m @
            [(sv_service sv, rq_procedure req, sv_code_of sv (case res of Inl e \<Rightarrow> Some e | Inr r \<Rightarrow> None))] \<rparr>) \<and>
    (sp_status_error sp \<noteq> None) = is_error res \<and>
    (error_level \<in> (\<lambda>(lvl, msg, fs). lvl) ` set es) = is_error res \<and>
    list_all (\<lambda>(lvl, msg, fs). field ''_trace_id'' (F_String (sc_trace_id (rx_span (call_ctx sv req hs ctx)))) \<in> set fs) es"
proof -
  let ?lctx = "Some (rx_log (call_ctx sv req hs ctx))"
  let ?es = "call_entries sv req now1 now2 ?lctx (Returned res)"
  note call_returns [of handler sv req hs ctx s, OF assms(1), of now1 now2 t m]
  moreover have "(sp_status_error (call_span sv req (Returned res)) \<noteq> None) = is_error res"
    by (simp add: call_span_def is_error_def split: sum.split)
  ultimately show ?thesis
    using call_entries_levels call_entries_ctx [OF call_ctx_trace(2) [OF traces]] by blast
qed

section \<open>Calls that panic\<close>

text \<open>C39: a panic goes unreported. When the handler panics, the client gets the code \<open>Internal\<close>, but the call is not
  counted, its span has no error status, the request log shows a response without an error at info level
  (or, unsampled, nothing), and the one entry at error level has only the fields of the outer context, so it
  does not carry the trace id of the call.\<close>

theorem rpc_panic_unreported:
  assumes "handler (call_ctx sv req hs ctx) s = (Panicked p, s')" "\<not> sv_abort sv p"
  shows "\<exists>sp es. serve_rpc sv req hs now1 now2 handler ctx s t m =
      (Returned (Inl (Recovered Code_Internal)), s',
       \<lparr> tl_spans = tl_spans t @ [sp],
         tl_entries = tl_entries t @ es @ [(error_level, ''request panic'', fields_from_context (Some (rx_log ctx)) @
           [field ''target'' (F_String (rq_procedure req)), field ''recover'' (F_Any (sv_panic_text sv p)),
            field ''stack'' (F_String (sv_stack sv))])] \<rparr>, m) \<and>
    sp_status_error sp = None \<and>
    list_all (\<lambda>(lvl, msg, fs). lvl = info_level) es"
proof -
  let ?lctx = "Some (rx_log (call_ctx sv req hs ctx))"
  let ?es = "call_entries sv req now1 now2 ?lctx (Panicked p)"
  have "serve_rpc sv req hs now1 now2 handler ctx s t m =
      (Returned (Inl (Recovered Code_Internal)), s',
       \<lparr> tl_spans = tl_spans t @ [call_span sv req (Panicked p)],
         tl_entries = tl_entries t @ ?es @ [(error_level, ''request panic'', fields_from_context (Some (rx_log ctx)) @
           [field ''target'' (F_String (rq_procedure req)), field ''recover'' (F_Any (sv_panic_text sv p)),
            field ''stack'' (F_String (sv_stack sv))])] \<rparr>, m)"
    using assms(2) by (simp add: serve_rpc_def metrics_interceptor_def traced_call_reports [of handler sv req hs ctx s, OF assms(1)] recover_fn_def log_at_def)
  moreover have "sp_status_error (call_span sv req (Panicked p)) = None" by (simp add: call_span_def)
  moreover have "list_all (\<lambda>(lvl, msg, fs). lvl = info_level) ?es"
    by (simp add: call_entries_def Let_def)
  ultimately show ?thesis by blast
qed

section \<open>A server for the witnesses\<close>

definition server_tracer :: "string \<Rightarrow> req_ctx \<Rightarrow> req_ctx" where
  "server_tracer name c = c\<lparr> rx_span := \<lparr> sc_valid = True,
     sc_trace_id = str_or_default (sc_trace_id (rx_span c)) ''t1'', sc_span_id = ''s'' @ name, sc_sampled = True \<rparr> \<rparr>"

definition demo_server :: "(string, string, string) rpc_server" where
  "demo_server = \<lparr> sv_extract = (\<lambda>hs c. c), sv_tracer = server_tracer, sv_service = ''shop'',
     sv_code_of = (\<lambda>e. case e of None \<Rightarrow> ''unknown'' | Some _ \<Rightarrow> ''internal''), sv_text = (\<lambda>e. e), sv_render = (\<lambda>r. r),
     sv_panic_events = (\<lambda>p. [p]), sv_abort = (\<lambda>p. p = ''abort''), sv_panic_text = (\<lambda>p. p), sv_stack = ''main.go'' \<rparr>"

definition demo_rpc :: rpc_request where
  "demo_rpc = \<lparr> rq_remote_service = ''cart'', rq_procedure = ''/Buy'', rq_peer_addr = ''10.0.0.1:77'', rq_peer_protocol = ''grpc'',
     rq_http_method = ''POST'', rq_parameters = ''{}'' \<rparr>"

definition demo_ctx :: req_ctx where
  "demo_ctx = \<lparr> rx_log = \<lparr> cx_fields = None, cx_trace_id = None, cx_span_id = None, cx_parent_span_id = None, cx_sampled = None \<rparr>,
     rx_span = \<lparr> sc_valid = False, sc_trace_id = [], sc_span_id = [], sc_sampled = False \<rparr> \<rparr>"

lemma server_tracer_ok: "rpc_traces server_tracer"
  by (auto simp: rpc_traces_def server_tracer_def Let_def str_or_default_def)

abbreviation (input) no_reports :: telemetry where "no_reports \<equiv> \<lparr> tl_spans = [], tl_entries = [] \<rparr>"
abbreviation (input) no_metrics :: metrics_state where "no_metrics \<equiv> \<lparr> ms_requests = [], ms_durations = [] \<rparr>"

theorem rpc_reports_agree_witness:
  "\<exists>sp es m. serve_rpc demo_server demo_rpc [] 0 5 (\<lambda>c s. (Returned (Inl ''sold out''), s)) demo_ctx () no_reports no_metrics =
     (Returned (Inl (Failed ''sold out'')), (), \<lparr> tl_spans = [sp], tl_entries = es \<rparr>, m) \<and>
   ms_requests m = [(''shop'', ''/Buy'', ''internal'')] \<and> sp_status_error sp \<noteq> None"
proof -
  have "rpc_traces (sv_tracer demo_server)" by (simp add: demo_server_def server_tracer_ok)
  from rpc_reports_agree [of "\<lambda>c s. (Returned (Inl ''sold out''), s)" demo_server demo_rpc "[]" demo_ctx "()" "Inl ''sold out''" "()", OF refl this,
      of 0 5 no_reports no_metrics]
  show ?thesis by (auto simp: is_error_def demo_server_def demo_rpc_def)
qed

theorem rpc_panic_unreported_witness:
  "\<exists>sp es. serve_rpc demo_server demo_rpc [] 0 5 (\<lambda>c s. (Panicked ''nil map'', s)) demo_ctx () no_reports no_metrics =
     (Returned (Inl (Recovered Code_Internal)), (), \<lparr> tl_spans = [sp], tl_entries = es \<rparr>, no_metrics) \<and> sp_status_error sp = None"
  using rpc_panic_unreported [of "\<lambda>c s. (Panicked ''nil map'', s)" demo_server demo_rpc "[]" demo_ctx "()" "''nil map''" "()", OF refl,
      of 0 5 no_reports no_metrics]
  by (auto simp: demo_server_def)

end
