(* ===== verification/Example_Service.thy ===== *)
theory Example_Service
  imports Redis_Lua Rpc_Server Connect_Routes
begin

text \<open>
  The service of \<open>example/logs/\<close>, the repository's use of its own library: \<open>Ping\<close>, \<open>Transfer\<close>, which pings
  another instance through the tracing client interceptor, and \<open>GetSpot\<close>, which exercises Redis through
  a Lua executor that is prepared once and then reads a page of a table. Parameters: the Redis and SQL
  clients, protobuf's JSON, the network. Concurrent requests are the subject of \<open>Spot_Counter\<close>. \<open>Ping\<close> is also modelled as
  it is served, behind the interceptors of \<open>main.go\<close>.
\<close>

section \<open>Errors\<close>

datatype 'e exercise_error = Redis_Nil | Redis_Failed 'e | Lua_Failed "'e lua_error" | Executor_Nil

datatype 'e svc_cause = Message string | Cause 'e | Exercise "'e exercise_error"

datatype 'e svc_error = Coded connect_code "'e svc_cause" | Passed 'e

section \<open>Ping\<close>

record ping_response =
  pr_message :: string
  pr_trace_id :: string
  pr_span_id :: string

definition svc_ping :: "log_ctx option \<Rightarrow> string \<Rightarrow> ping_response" where
  "svc_ping ctx msg =
     (let message = (if msg = [] then ''pong'' else msg);
          (trace_id, span_id) = (case trace_from_context ctx of None \<Rightarrow> ([], []) | Some ids \<Rightarrow> ids)
      in \<lparr> pr_message = message, pr_trace_id = trace_id, pr_span_id = span_id \<rparr>)"

text \<open>A unary handler as \<open>main.go\<close> serves it, for a method that cannot fail.\<close>

definition serve_method ::
  "('e, 'r, 'p) rpc_server \<Rightarrow> rpc_request \<Rightarrow> int \<Rightarrow> int \<Rightarrow> req_ctx \<Rightarrow> string \<Rightarrow> (log_ctx option \<Rightarrow> 'q \<Rightarrow> 'r) \<Rightarrow> headers \<Rightarrow> 'q \<Rightarrow>
   telemetry \<times> metrics_state \<Rightarrow> ('e rpc_failure, 'r, 'p) handled \<times> (telemetry \<times> metrics_state)" where
  "serve_method sv req now1 now2 ctx procedure meth hs msg = (\<lambda>(t, m).
     case serve_rpc sv (req\<lparr> rq_procedure := procedure \<rparr>) hs now1 now2
            (\<lambda>ctx s. (Returned (Inr (meth (Some (rx_log ctx)) msg)), s)) ctx () t m of
       (h, _, t, m) \<Rightarrow> (h, (t, m)))"

text \<open>What the client sees of an answer: \<open>wire\<close> is the error that a failure becomes on the way, \<open>broken\<close> that of a
  call whose server panicked.\<close>

definition over_wire :: "('f \<Rightarrow> 'e) \<Rightarrow> 'e \<Rightarrow> ('f, 'r, 'p) handled \<Rightarrow> ('e, 'r) result" where
  "over_wire wire broken h = (case h of Returned (Inr r) \<Rightarrow> Inr r | Returned (Inl f) \<Rightarrow> Inl (wire f) | Panicked _ \<Rightarrow> Inl broken)"

text \<open>The unary handlers of a process, and the network of those that serve HTTP: a URL leads to the mux of its host. The
  servers listen in plaintext (\<open>service/setup.go\<close>), so a client that asks for TLS gets no answer.\<close>

definition unary_handler ::
  "('e, 'r, 'p) rpc_server \<Rightarrow> rpc_request \<Rightarrow> int \<Rightarrow> int \<Rightarrow> req_ctx \<Rightarrow> ('e rpc_failure \<Rightarrow> 'e) \<Rightarrow> 'e \<Rightarrow>
   string \<Rightarrow> (log_ctx option \<Rightarrow> 'q \<Rightarrow> 'r) \<Rightarrow> string \<Rightarrow> 'o list \<Rightarrow> headers \<Rightarrow> 'q \<Rightarrow> (telemetry \<times> metrics_state, 'e, 'r) call" where
  "unary_handler sv req now1 now2 ctx wire broken procedure meth schema opts hs msg u =
     (case serve_method sv req now1 now2 ctx procedure meth hs msg u of (h, u) \<Rightarrow> (over_wire wire broken h, u))"

definition http_network ::
  "'e \<Rightarrow> (string \<Rightarrow> (string \<Rightarrow> (headers \<Rightarrow> 'q \<Rightarrow> ('w, 'e, 'r) call) option) mux option) \<Rightarrow> string \<Rightarrow> headers \<Rightarrow> 'q \<Rightarrow> ('w, 'e, 'r) call" where
  "http_network unreachable hosts url hs msg w =
     (case url_parts url of None \<Rightarrow> (Inl unreachable, w)
      | Some (tls, host, path) \<Rightarrow>
          if tls then (Inl unreachable, w)
          else (case hosts host of None \<Rightarrow> (Inl unreachable, w)
           | Some mux \<Rightarrow>
               (case serve_http mux path of Served h \<Rightarrow> h hs msg w | Moved _ \<Rightarrow> (Inl unreachable, w) | Not_Found \<Rightarrow> (Inl unreachable, w))))"

section \<open>Transfer\<close>

definition base_url :: "string \<Rightarrow> string" where
  "base_url target_addr =
     (let target_addr = trim_space target_addr
      in if has_prefix target_addr ''http://'' \<or> has_prefix target_addr ''https://''
         then trim_right_char (CHR ''/'') target_addr
         else ''http://'' @ trim_right_char (CHR ''/'') target_addr)"

record transfer_request =
  tr_target_addr :: string
  tr_endpoint :: string
  tr_request_json :: string

text \<open>\<open>unmarshal\<close> yields the message of a ping request, \<open>ping\<close> is the call of the generated client at a base
  URL, which acts on the world.\<close>

definition transfer ::
  "(string \<Rightarrow> ('e, string) result) \<Rightarrow> (ping_response \<Rightarrow> ('e, string) result) \<Rightarrow>
   (string \<Rightarrow> string \<Rightarrow> ('w, 'e, ping_response) call) \<Rightarrow> transfer_request \<Rightarrow> ('w, 'e svc_error, string) call" where
  "transfer unmarshal marshal ping req w =
     (let target_addr = trim_space (tr_target_addr req)
      in if target_addr = [] then (Inl (Coded Invalid_Argument_Code (Message ''target_addr is required'')), w)
      else let endpoint = trim_space (tr_endpoint req)
      in if endpoint = [] then (Inl (Coded Invalid_Argument_Code (Message ''endpoint is required'')), w)
      else let endpoint = (if \<not> has_prefix endpoint ''/'' then ''/'' @ endpoint else endpoint)
      in if endpoint \<noteq> ping_procedure then (Inl (Coded Invalid_Argument_Code (Message ''unsupported endpoint'')), w)
      else let request_json = trim_space (tr_request_json req);
               request_json = (if request_json = [] then ''{}'' else request_json)
      in case unmarshal request_json of
           Inl e \<Rightarrow> (Inl (Coded Invalid_Argument_Code (Cause e)), w)
         | Inr msg \<Rightarrow>
             (case ping (base_url target_addr) msg w of
                (Inl e, w) \<Rightarrow> (Inl (Passed e), w)
              | (Inr resp, w) \<Rightarrow>
                  (case marshal resp of
                     Inl e \<Rightarrow> (Inl (Coded Internal_Code (Cause e)), w)
                   | Inr json \<Rightarrow> (Inr json, w))))"

text \<open>The generated client for a base URL, whose one option is the tracing interceptor; \<open>network\<close> sends a message with
  its headers to a URL.\<close>

definition traced_ping ::
  "('e \<Rightarrow> string) \<Rightarrow> (req_ctx \<Rightarrow> headers \<Rightarrow> headers) \<Rightarrow> (string \<Rightarrow> req_ctx \<Rightarrow> req_ctx) \<Rightarrow> string \<Rightarrow> string \<Rightarrow> req_ctx \<Rightarrow>
   (string \<Rightarrow> headers \<Rightarrow> string \<Rightarrow> ('w, 'e, ping_response) call) \<Rightarrow>
   string \<Rightarrow> string \<Rightarrow> ('w \<times> telemetry, 'e, ping_response) call" where
  "traced_ping text inject tracer caller_app meth ctx network base =
     client_ping
       (\<lambda>client ctx msg (w, t).
          case start_client_span inject tracer caller_app ping_procedure meth [] ctx of
            (attrs, ctx, hs) \<Rightarrow>
              case trace_interceptor text ping_procedure attrs ctx (\<lambda>_. network (cc_url client) hs msg) w t of
                (res, w, t) \<Rightarrow> (res, (w, t)))
       (new_dummy_service_client () base [()]) ctx"

section \<open>GetSpot\<close>

text \<open>A row of the table, and its message.\<close>

record spot_model =
  sm_id :: "64 word"
  sm_account_id :: "64 word"
  sm_currency :: string
  sm_deposit :: string
  sm_frozen :: string
  sm_version :: "64 word"
  sm_create_time :: "64 word"
  sm_update_time :: "64 word"

record spot_message =
  ps_id :: "64 word"
  ps_account_id :: "64 word"
  ps_currency :: string
  ps_deposit :: string
  ps_frozen :: string
  ps_version :: "64 word"
  ps_create_time :: "64 word"
  ps_update_time :: "64 word"

definition to_proto_spot :: "spot_model \<Rightarrow> spot_message" where
  "to_proto_spot row =
     \<lparr> ps_id = sm_id row, ps_account_id = sm_account_id row, ps_currency = sm_currency row,
       ps_deposit = sm_deposit row, ps_frozen = sm_frozen row, ps_version = sm_version row,
       ps_create_time = sm_create_time row, ps_update_time = sm_update_time row \<rparr>"

text \<open>The Redis client: its two plain commands and its script calls.\<close>

record ('w, 'e, 'v) redis_handle =
  rh_set :: "string \<Rightarrow> string \<Rightarrow> int \<Rightarrow> ('w, 'e) action"
  rh_get :: "string \<Rightarrow> ('w, 'e, string) call"
  rh_scripts :: "('w, 'e, 'v) script_client"

text \<open>The service, with the number of its pending reload goroutines.\<close>

record ('w, 'e, 'v) dummy_service =
  ds_lua_once :: bool
  ds_lua_err :: "'e lua_error option"
  ds_lua_exec :: "('w, 'e, 'v) lua_executor option"
  ds_pending :: nat

definition new_dummy_service :: "('w, 'e, 'v) dummy_service" where
  "new_dummy_service = \<lparr> ds_lua_once = False, ds_lua_err = None, ds_lua_exec = None, ds_pending = 0 \<rparr>"

definition redis_demo_lua_script :: string where
  "redis_demo_lua_script = ''return redis.call(\"INCR\", KEYS[1])''"

definition redis_demo_counter_key :: string where
  "redis_demo_counter_key = ''logs_demo:get_spot:counter''"

definition redis_demo_last_req_key :: string where
  "redis_demo_last_req_key = ''logs_demo:get_spot:last_request''"

definition prepare_redis_lua ::
  "('w, 'e, 'v) script_client \<Rightarrow> ('w, 'e, 'v) dummy_service \<Rightarrow> 'w \<Rightarrow>
   'e lua_error option \<times> ('w, 'e, 'v) dummy_service \<times> 'w" where
  "prepare_redis_lua client s w =
     (if ds_lua_once s then (ds_lua_err s, s, w)
      else case prepare_lua_script (new_lua_executor ''logs_demo_get_spot'' (Some client) redis_demo_lua_script None) w of
        (err, l, w) \<Rightarrow> (err, s\<lparr> ds_lua_once := True, ds_lua_exec := Some l, ds_lua_err := err \<rparr>, w))"

text \<open>\<open>Executor_Nil\<close> is the panic of a call on a nil executor.\<close>

definition update_counter ::
  "('e \<Rightarrow> bool) \<Rightarrow> ('w, 'e, 'v) dummy_service \<Rightarrow> 'w \<Rightarrow>
   'e exercise_error option \<times> ('w, 'e, 'v) dummy_service \<times> 'w" where
  "update_counter no_script s w =
     (case ds_lua_exec s of None \<Rightarrow> (Some Executor_Nil, s, w)
      | Some l \<Rightarrow> (case lx_client l of None \<Rightarrow> (Some Executor_Nil, s, w)
      | Some client \<Rightarrow>
          case update_one_event no_script client l [redis_demo_counter_key] [] w of
            (err, reload, l, w) \<Rightarrow>
              (map_option Lua_Failed err,
               s\<lparr> ds_lua_exec := Some l, ds_pending := (if reload then Suc (ds_pending s) else ds_pending s) \<rparr>, w)))"

definition exercise_redis ::
  "('e \<Rightarrow> bool) \<Rightarrow> ('w, 'e, 'v) redis_handle option \<Rightarrow> ('w, 'e, 'v) dummy_service \<Rightarrow> 'w \<Rightarrow>
   'e exercise_error option \<times> ('w, 'e, 'v) dummy_service \<times> 'w" where
  "exercise_redis no_script global s w =
     (case global of None \<Rightarrow> (Some Redis_Nil, s, w)
      | Some client \<Rightarrow>
          case rh_set client redis_demo_last_req_key ''GetSpot'' 30000000000 w of
            (Some e, w) \<Rightarrow> (Some (Redis_Failed e), s, w)
          | (None, w) \<Rightarrow>
              case rh_get client redis_demo_last_req_key w of
                (Inl e, w) \<Rightarrow> (Some (Redis_Failed e), s, w)
              | (Inr _, w) \<Rightarrow>
                  case prepare_redis_lua (rh_scripts client) s w of
                    (Some e, s, w) \<Rightarrow> (Some (Lua_Failed e), s, w)
                  | (None, s, w) \<Rightarrow> update_counter no_script s w)"

definition page_limit :: "64 word \<Rightarrow> 64 word" where
  "page_limit limit =
     (let limit = (if limit = 0 then 10 else limit)
      in if 200 < limit then 200 else limit)"

text \<open>The query for rows, with its order clause and its \<open>int\<close> limit and offset.\<close>

type_synonym ('w, 'e) spot_query = "string \<Rightarrow> int \<Rightarrow> int \<Rightarrow> ('w, 'e, spot_model list) call"

definition get_spot ::
  "('e \<Rightarrow> bool) \<Rightarrow> ('w, 'e, 'v) redis_handle option \<Rightarrow> ('w, 'e) spot_query option \<Rightarrow>
   64 word \<Rightarrow> 64 word \<Rightarrow> ('w, 'e, 'v) dummy_service \<Rightarrow> 'w \<Rightarrow>
   ('e svc_error, spot_message list) result \<times> ('w, 'e, 'v) dummy_service \<times> 'w" where
  "get_spot no_script redis db limit offset s w =
     (case exercise_redis no_script redis s w of
        (Some err, s, w) \<Rightarrow> (Inl (Coded Unavailable_Code (Exercise err)), s, w)
      | (None, s, w) \<Rightarrow>
          case db of None \<Rightarrow> (Inl (Coded Unavailable_Code (Message ''mysql is not initialized'')), s, w)
          | Some query \<Rightarrow>
              case query ''id ASC'' (sint (page_limit limit)) (sint offset) w of
                (Inl e, w) \<Rightarrow> (Inl (Coded Internal_Code (Cause e)), s, w)
              | (Inr rows, w) \<Rightarrow> (Inr (map to_proto_spot rows), s, w))"

section \<open>The configuration path (\<open>main.go\<close>)\<close>

text \<open>\<open>stat\<close> says whether a file can be examined.\<close>

definition ensure_app_config_path :: "(string \<Rightarrow> bool) \<Rightarrow> (string \<Rightarrow> string) \<Rightarrow> string \<Rightarrow> string" where
  "ensure_app_config_path stat env =
     (if trim_space (env ''APP_CONFIG_PATH'') \<noteq> [] then env
      else case filter stat [''config/app.toml'', ''example/logs/config/app.toml''] of
        [] \<Rightarrow> env
      | candidate # _ \<Rightarrow> env(''APP_CONFIG_PATH'' := candidate))"

text \<open>\<open>main\<close> up to \<open>Run\<close>: the environment and the service that runs in it.\<close>

definition example_main ::
  "(string \<Rightarrow> bool) \<Rightarrow> (string \<Rightarrow> string) \<Rightarrow>
   (string \<Rightarrow> 'p \<Rightarrow> string \<Rightarrow> 'o list \<Rightarrow> 'u) \<Rightarrow> (string \<Rightarrow> 't \<Rightarrow> string \<Rightarrow> 'o list \<Rightarrow> 'u) \<Rightarrow> (string \<Rightarrow> 'g \<Rightarrow> string \<Rightarrow> 'o list \<Rightarrow> 'u) \<Rightarrow>
   ('p, 't, 'g) dummy_service_handler \<Rightarrow> 'o list \<Rightarrow> (string \<Rightarrow> string) \<times> (string \<Rightarrow> 'u option) mounted_service" where
  "example_main stat env unary_ping unary_transfer unary_get_spot svc opts =
     (let env = ensure_app_config_path stat env;
          bind_addr = str_or_default (env ''BIND_ADDR'') '':8080'';
          (path, handler) = new_dummy_service_handler unary_ping unary_transfer unary_get_spot svc opts
      in (env, \<lparr> sv_handler = handler, sv_path = path, sv_binding_address = bind_addr \<rparr>))"

section \<open>A transfer stays in its trace\<close>

text \<open>What a pinged instance answers.\<close>

lemma unary_ping_trace:
  assumes "rpc_traces (sv_tracer sv)" "rx_span (sv_extract sv hs ctx) = parent" "sc_valid parent" "sc_trace_id parent \<noteq> []"
  shows "\<exists>span_id w'. span_id \<noteq> [] \<and> unary_handler sv req now1 now2 ctx wire broken procedure svc_ping schema opts hs msg w =
    (Inr \<lparr> pr_message = (if msg = [] then ''pong'' else msg), pr_trace_id = sc_trace_id parent, pr_span_id = span_id \<rparr>, w')"
proof -
  obtain t m where w: "w = (t, m)" by fastforce
  let ?req = "req\<lparr> rq_procedure := procedure \<rparr>"
  let ?handler = "\<lambda>ctx s. (Returned (Inr (svc_ping (Some (rx_log ctx)) msg)), s)"
  let ?c = "call_ctx sv ?req hs ctx"
  have t: "sc_trace_id (rx_span ?c) = sc_trace_id parent" "sc_span_id (rx_span ?c) \<noteq> []"
    using rpc_tracesD(3,4) [OF assms(1)] assms(2-) unfolding call_ctx_trace(3) [OF assms(1)] by auto
  have ids: "trace_from_context (Some (rx_log ?c)) = Some (sc_trace_id parent, sc_span_id (rx_span ?c))"
    using call_ctx_trace(1) [OF assms(1), of ?req hs ctx] t(1) by simp
  obtain t' m' where "serve_rpc sv ?req hs now1 now2 ?handler ctx () t m =
      (Returned (Inr (svc_ping (Some (rx_log ?c)) msg)), (), t', m')"
    using call_returns [of ?handler sv ?req hs ctx "()" "Inr (svc_ping (Some (rx_log ?c)) msg)" "()" now1 now2 t m, OF refl] by auto
  with t(2) show ?thesis unfolding w
    by (intro exI [of _ "sc_span_id (rx_span ?c)"] exI [of _ "(t', m')"])
      (simp add: unary_handler_def serve_method_def svc_ping_def over_wire_def Let_def ids)
qed

lemma transfer_rejected:
  assumes "trim_space (tr_endpoint req) \<notin> {ping_procedure, tl ping_procedure}"
  shows "\<exists>cause. transfer unmarshal marshal ping req w = (Inl (Coded Invalid_Argument_Code cause), w)"
proof -
  have "(if \<not> has_prefix (trim_space (tr_endpoint req)) ''/'' then ''/'' @ trim_space (tr_endpoint req)
      else trim_space (tr_endpoint req)) \<noteq> ping_procedure"
    using assms by (auto simp: ping_procedure_def)
  then show ?thesis by (auto simp: transfer_def Let_def)
qed

lemma transfer_endpoint:
  assumes "trim_space (tr_endpoint req) \<in> {ping_procedure, tl ping_procedure}"
  shows "(trim_space (tr_endpoint req) = []) = False"
    "((if \<not> has_prefix (trim_space (tr_endpoint req)) ''/'' then ''/'' @ trim_space (tr_endpoint req)
       else trim_space (tr_endpoint req)) \<noteq> ping_procedure) = False"
proof -
  have proc: "has_prefix ping_procedure ''/''" "ping_procedure \<noteq> []" "tl ping_procedure \<noteq> []"
    "\<not> has_prefix (tl ping_procedure) ''/''" "''/'' @ tl ping_procedure = ping_procedure"
    by (simp_all add: ping_procedure_def)
  from assms consider "trim_space (tr_endpoint req) = ping_procedure" | "trim_space (tr_endpoint req) = tl ping_procedure" by blast
  then show "(trim_space (tr_endpoint req) = []) = False"
    "((if \<not> has_prefix (trim_space (tr_endpoint req)) ''/'' then ''/'' @ trim_space (tr_endpoint req)
       else trim_space (tr_endpoint req)) \<noteq> ping_procedure) = False"
    by (cases; use proc in simp)+
qed

lemma transfer_accepted:
  assumes "trim_space (tr_target_addr req) \<noteq> []" "trim_space (tr_endpoint req) \<in> {ping_procedure, tl ping_procedure}"
    and json: "unmarshal (str_or_default (trim_space (tr_request_json req)) ''{}'') = Inr msg"
    and "ping (base_url (trim_space (tr_target_addr req))) msg w = (Inr resp, w')"
  shows "transfer unmarshal marshal ping req w =
    (case marshal resp of Inl e \<Rightarrow> (Inl (Coded Internal_Code (Cause e)), w') | Inr json \<Rightarrow> (Inr json, w'))"
proof -
  let ?j = "trim_space (tr_request_json req)"
  have j: "unmarshal (if ?j = [] then ''{}'' else ?j) = Inr msg"
    using json by (cases "?j = []") (simp_all add: str_or_default_def)
  show ?thesis unfolding transfer_def Let_def transfer_endpoint [OF assms(2)] using assms(1) j assms(4)
    by (simp split: sum.split)
qed

lemma transfer_failed:
  assumes "trim_space (tr_target_addr req) \<noteq> []" "trim_space (tr_endpoint req) \<in> {ping_procedure, tl ping_procedure}"
    and json: "unmarshal (str_or_default (trim_space (tr_request_json req)) ''{}'') = Inr msg"
    and "fst (ping (base_url (trim_space (tr_target_addr req))) msg w) = Inl e"
  shows "fst (transfer unmarshal marshal ping req w) = Inl (Passed e)"
proof -
  let ?j = "trim_space (tr_request_json req)"
  have j: "unmarshal (if ?j = [] then ''{}'' else ?j) = Inr msg"
    using json by (cases "?j = []") (simp_all add: str_or_default_def)
  show ?thesis unfolding transfer_def Let_def transfer_endpoint [OF assms(2)] using assms(1) j assms(4)
    by (auto split: prod.split sum.split)
qed

text \<open>The address of a transfer is the URL of a plain host, with or without a scheme and with any slashes behind it.\<close>

lemma no_scheme:
  assumes "plain_host host" "CHR ''/'' \<notin> set s"
  shows "\<not> has_prefix (host @ replicate n CHR ''/'') (s @ ''://'')"
proof
  assume "has_prefix (host @ replicate n CHR ''/'') (s @ ''://'')"
  then obtain t where t: "host @ replicate n CHR ''/'' = (s @ '':'') @ CHR ''/'' # (''/'' @ t)" by (auto simp: has_prefix_iff)
  have "takeWhile (\<lambda>c. c \<noteq> CHR ''/'') (host @ replicate n CHR ''/'') = host"
    using assms(1) by (subst takeWhile_append2) (auto simp: plain_host_def takeWhile_replicate)
  moreover have "takeWhile (\<lambda>c. c \<noteq> CHR ''/'') ((s @ '':'') @ CHR ''/'' # (''/'' @ t)) = s @ '':''"
    using assms(2) by (subst takeWhile_append2) auto
  ultimately have "host = s @ '':''" unfolding t by simp
  with assms(1) show False by (simp add: plain_host_def)
qed

lemma ping_url:
  assumes "trim_space addr = scheme @ host @ replicate n CHR ''/''" "scheme \<in> {[], ''http://'', ''https://''}" "plain_host host"
  shows "url_parts (cc_url (dc_ping (new_dummy_service_client h (base_url addr) opts))) = Some (scheme = ''https://'', host, ping_procedure)"
proof -
  let ?s = "if scheme = [] then ''http://'' else scheme"
  have slashes: "trim_right_char CHR ''/'' (host @ replicate n CHR ''/'') = host" "trim_right_char CHR ''/'' (s @ host) = s @ host" for s
    using trim_right_slashes [OF assms(3), of "[]" n] trim_right_slashes [OF assms(3), of s 0] by simp_all
  have "base_url addr = ?s @ host"
  proof (cases "scheme = []")
    case True
    then show ?thesis
      using no_scheme [OF assms(3), of "''http''" n] no_scheme [OF assms(3), of "''https''" n] assms(1)
      by (simp add: base_url_def slashes)
  next
    case False
    with assms(2) have "has_prefix (scheme @ t) ''http://'' \<or> has_prefix (scheme @ t) ''https://''" for t by auto
    with False show ?thesis unfolding base_url_def assms(1) Let_def by (simp add: trim_right_slashes [OF assms(3)])
  qed
  moreover have "?s \<in> {''http://'', ''https://''}" "?s = ''https://'' \<longleftrightarrow> scheme = ''https://''" using assms(2) by auto
  ultimately show ?thesis
    using procedure_url [OF assms(3), of ?s ping_procedure] by (simp add: new_dummy_service_client_def Let_def slashes)
qed

lemma main_mux:
  assumes "example_main stat env up ut ug svc opts = (env', service)" "service_mux (sv_path service) (sv_handler service) reg = Inr mux"
  shows "(case new_dummy_service_handler up ut ug svc opts of (path, handler) \<Rightarrow> service_mux path handler reg) = Inr mux"
  using assms by (auto simp: example_main_def Let_def split: prod.splits)

text \<open>C23: a transfer stays in its trace. If the host of the target address runs this service as \<open>main\<close> sets it up, and the
  propagator and the tracers keep their contracts, an accepted \<open>Transfer\<close> in a valid trace, whose address has no scheme or
  \<open>http\<close>, goes through the generated client, the mux and the generated handler to the \<open>Ping\<close> of that host, and returns its
  answer: the message it sent, or \<open>pong\<close>, with the trace id of the caller's own span. An \<open>https\<close> address is accepted as well,
  but the call fails, because the host serves plaintext.\<close>

theorem transfer_stays_in_trace:
  assumes laws: "rpc_propagates inject (sv_extract sv)" "rpc_traces tracer" "rpc_traces (sv_tracer sv)"
    and caller: "sc_valid (rx_span ctx)" "sc_trace_id (rx_span ctx) \<noteq> []"
    and peer: "example_main stat env (unary_handler sv call now1 now2 peer_ctx wire broken) unary_transfer unary_get_spot
        \<lparr> dh_ping = svc_ping, dh_transfer = svc_transfer, dh_get_spot = svc_get_spot \<rparr> opts = (env', service)"
      "service_mux (sv_path service) (sv_handler service) (pprof_registration pprof) = Inr mux" "hosts host = Some mux"
    and target: "trim_space (tr_target_addr req) = scheme @ host @ replicate n CHR ''/''" "scheme \<in> {[], ''http://'', ''https://''}"
      "plain_host host"
    and accepted: "trim_space (tr_endpoint req) \<in> {ping_procedure, tl ping_procedure}"
      "unmarshal (str_or_default (trim_space (tr_request_json req)) ''{}'') = Inr msg"
  shows "if scheme = ''https://''
    then fst (transfer unmarshal marshal (traced_ping err_text inject tracer app meth ctx (http_network unreachable hosts)) req w) =
      Inl (Passed unreachable)
    else \<exists>span_id w'. span_id \<noteq> [] \<and>
      transfer unmarshal marshal (traced_ping err_text inject tracer app meth ctx (http_network unreachable hosts)) req w =
        ((case marshal \<lparr> pr_message = (if msg = [] then ''pong'' else msg),
                         pr_trace_id = sc_trace_id (rx_span ctx), pr_span_id = span_id \<rparr> of
            Inl e \<Rightarrow> Inl (Coded Internal_Code (Cause e)) | Inr json \<Rightarrow> Inr json), w')"
proof -
  obtain u t where w: "w = (u, t)" by fastforce
  let ?url = "base_url (trim_space (tr_target_addr req))"
  obtain attrs c hs where st: "start_client_span inject tracer app ping_procedure meth [] ctx = (attrs, c, hs)"
    by (cases "start_client_span inject tracer app ping_procedure meth [] ctx") blast
  then obtain gs where c: "rx_span c = rx_span (tracer ping_procedure ctx)" "hs = inject c gs"
    by (auto simp: start_client_span_def Let_def)
  have p: "sc_valid (rx_span c)" "sc_trace_id (rx_span c) = sc_trace_id (rx_span ctx)"
    unfolding c(1) using rpc_tracesD [OF laws(2)] caller by blast+
  have "rx_span (sv_extract sv hs peer_ctx) = rx_span c"
    using laws(1) p(1) unfolding c(2) rpc_propagates_def by blast
  from unary_ping_trace [of sv hs peer_ctx "rx_span c" call now1 now2 wire broken ping_procedure "''Ping''" opts msg u, OF laws(3) this p(1)]
    p(2) caller(2)
  obtain span_id u' where id: "span_id \<noteq> []" and answer:
    "unary_handler sv call now1 now2 peer_ctx wire broken ping_procedure svc_ping ''Ping'' opts hs msg u =
      (Inr \<lparr> pr_message = (if msg = [] then ''pong'' else msg), pr_trace_id = sc_trace_id (rx_span ctx), pr_span_id = span_id \<rparr>, u')"
    by auto
  let ?resp = "\<lparr> pr_message = (if msg = [] then ''pong'' else msg), pr_trace_id = sc_trace_id (rx_span ctx), pr_span_id = span_id \<rparr>"
  have t: "trim_space (trim_space (tr_target_addr req)) = scheme @ host @ replicate n CHR ''/''" unfolding trim_space_idem by (rule target(1))
  note url = ping_url [OF t target(2,3), of "()" "[()]"]
  have "serve_http mux ping_procedure =
      Served (unary_handler sv call now1 now2 peer_ctx wire broken ping_procedure svc_ping ''Ping'' opts)"
    unfolding generated_mux_serves [OF main_mux [OF peer(1,2)]] handler_paths by simp
  note mux = this
  let ?ping = "traced_ping err_text inject tracer app meth ctx (http_network unreachable hosts)"
  have addr: "trim_space (tr_target_addr req) \<noteq> []" using target by (auto simp: plain_host_def)
  note traced = traced_ping_def client_ping_def trace_interceptor_def st http_network_def url
  show ?thesis
  proof (cases "scheme = ''https://''")
    case True
    then have "fst (?ping ?url msg w) = Inl unreachable" unfolding w by (simp add: traced)
    from transfer_failed [where marshal = marshal and unmarshal = unmarshal and msg = msg and ping = ?ping, OF addr accepted this] True show ?thesis by simp
  next
    case False
    then obtain w' where ping: "?ping ?url msg w = (Inr ?resp, w')"
      unfolding w by (auto simp: traced peer(3) answer mux)
    from transfer_accepted [where marshal = marshal and unmarshal = unmarshal and msg = msg and ping = ?ping, OF addr accepted ping]
    show ?thesis unfolding if_not_P [OF False] using id by (intro exI [of _ span_id] exI [of _ w']) (simp split: sum.split)
  qed
qed

definition demo_tracer :: "string \<Rightarrow> req_ctx \<Rightarrow> req_ctx" where
  "demo_tracer name c = c\<lparr> rx_span := \<lparr> sc_valid = True,
     sc_trace_id = str_or_default (sc_trace_id (rx_span c)) ''t1'', sc_span_id = ''s'' @ name, sc_sampled = True \<rparr> \<rparr>"

definition demo_inject :: "req_ctx \<Rightarrow> headers \<Rightarrow> headers" where
  "demo_inject c hs = (''traceparent'', sc_trace_id (rx_span c)) # (''spanparent'', sc_span_id (rx_span c)) #
     (''flags'', if sc_sampled (rx_span c) then ''1'' else ''0'') # hs"

definition demo_extract :: "headers \<Rightarrow> req_ctx \<Rightarrow> req_ctx" where
  "demo_extract hs c = (case (map_of hs ''traceparent'', map_of hs ''spanparent'') of
     (Some t, Some s) \<Rightarrow> c\<lparr> rx_span := \<lparr> sc_valid = True, sc_trace_id = t, sc_span_id = s,
        sc_sampled = (map_of hs ''flags'' = Some ''1'') \<rparr> \<rparr>
   | _ \<Rightarrow> c)"

definition demo_caller :: req_ctx where
  "demo_caller = \<lparr> rx_log = \<lparr> cx_fields = None, cx_trace_id = None, cx_span_id = None, cx_parent_span_id = None, cx_sampled = None \<rparr>,
     rx_span = \<lparr> sc_valid = True, sc_trace_id = ''t9'', sc_span_id = ''s9'', sc_sampled = True \<rparr> \<rparr>"

definition demo_peer :: "(string, ping_response, string) rpc_server" where
  "demo_peer = \<lparr> sv_extract = demo_extract, sv_tracer = demo_tracer, sv_service = ''b'',
     sv_code_of = (\<lambda>e. case e of None \<Rightarrow> ''unknown'' | Some _ \<Rightarrow> ''internal''), sv_text = (\<lambda>e. e), sv_render = pr_message,
     sv_panic_events = (\<lambda>p. [p]), sv_abort = (\<lambda>p. False), sv_panic_text = (\<lambda>p. p), sv_stack = [] \<rparr>"

definition demo_service :: "(string \<Rightarrow> (headers \<Rightarrow> string \<Rightarrow> (telemetry \<times> metrics_state, string, ping_response) call) option) mounted_service" where
  "demo_service = snd (example_main (\<lambda>_. False) (\<lambda>_. []) (unary_handler demo_peer demo_rpc 0 0 demo_caller (\<lambda>_. ''internal'') ''unavailable'')
     (\<lambda>_ _ _ _ hs msg u. (Inl ''unimplemented'', u)) (\<lambda>_ _ _ _ hs msg u. (Inl ''unimplemented'', u))
     \<lparr> dh_ping = svc_ping, dh_transfer = (), dh_get_spot = () \<rparr> ([] :: unit list))"

definition demo_mux :: "(string \<Rightarrow> (headers \<Rightarrow> string \<Rightarrow> (telemetry \<times> metrics_state, string, ping_response) call) option) mux" where
  "demo_mux = projr (service_mux (sv_path demo_service) (sv_handler demo_service) None)"

lemma demo_mux_built: "service_mux (sv_path demo_service) (sv_handler demo_service) (pprof_registration None) = Inr demo_mux"
  by (simp add: demo_mux_def demo_service_def example_main_def new_dummy_service_handler_def Let_def service_mux_def mux_handle_def)

definition demo_request :: transfer_request where
  "demo_request = \<lparr> tr_target_addr = ''b:8080/'', tr_endpoint = ''logs.v1.DummyService/Ping'', tr_request_json = [] \<rparr>"

lemma demo_rpc_laws: "rpc_propagates demo_inject demo_extract" "rpc_traces demo_tracer"
proof -
  show "rpc_propagates demo_inject demo_extract"
    by (auto simp: rpc_propagates_def demo_inject_def demo_extract_def intro!: span_context.equality)
  show "rpc_traces demo_tracer"
    by (auto simp: rpc_traces_def demo_tracer_def Let_def str_or_default_def)
qed

theorem transfer_stays_in_trace_witness:
  "fst (transfer (\<lambda>_. Inr []) (\<lambda>r. Inr (pr_message r @ '' '' @ pr_trace_id r))
     (traced_ping (\<lambda>e. e) demo_inject demo_tracer ''a'' [] demo_caller (http_network ''unreachable'' [''b:8080'' \<mapsto> demo_mux])) demo_request
     ((no_reports, no_metrics), no_reports)) = Inr ''pong t9''"
proof -
  have t: "trim_space (tr_target_addr demo_request) = [] @ ''b:8080'' @ replicate 1 CHR ''/''" by code_simp
  have e: "trim_space (tr_endpoint demo_request) = tl ping_procedure" by code_simp
  have h: "plain_host ''b:8080''" by code_simp
  have c: "sc_valid (rx_span demo_caller)" "sc_trace_id (rx_span demo_caller) = ''t9''" by (simp_all add: demo_caller_def)
  have sv: "sv_extract demo_peer = demo_extract" "sv_tracer demo_peer = demo_tracer" by (simp_all add: demo_peer_def)
  show ?thesis
    using transfer_stays_in_trace [where inject = demo_inject and sv = demo_peer and tracer = demo_tracer and ctx = demo_caller and
        call = demo_rpc and ?now1.0 = 0 and ?now2.0 = 0 and peer_ctx = demo_caller and wire = "\<lambda>_. ''internal''" and broken = "''unavailable''" and
        unary_transfer = "\<lambda>_ _ _ _ hs msg u. (Inl ''unimplemented'', u)" and unary_get_spot = "\<lambda>_ _ _ _ hs msg u. (Inl ''unimplemented'', u)" and
        svc_transfer = "()" and svc_get_spot = "()" and opts = "[] :: unit list" and pprof = None and mux = demo_mux and
        stat = "\<lambda>_. False" and env = "\<lambda>_. []" and service = demo_service and hosts = "[''b:8080'' \<mapsto> demo_mux]" and host = "''b:8080''" and req = demo_request and scheme = "[]" and n = 1 and
        unmarshal = "\<lambda>_. Inr []" and msg = "[]" and
        marshal = "\<lambda>r. Inr (pr_message r @ '' '' @ pr_trace_id r)" and meth = "[]" and unreachable = "''unreachable''" and
        err_text = "\<lambda>e. e" and app = "''a''" and w = "((no_reports, no_metrics), no_reports)", unfolded sv,
        OF demo_rpc_laws(1) demo_rpc_laws(2) demo_rpc_laws(2) c(1) _ _ demo_mux_built _ t _ h,
        where env' = "fst (example_main (\<lambda>_. False) (\<lambda>_. []) (unary_handler demo_peer demo_rpc 0 0 demo_caller (\<lambda>_. ''internal'') ''unavailable'')
     (\<lambda>_ _ _ _ hs msg u. (Inl ''unimplemented'', u)) (\<lambda>_ _ _ _ hs msg u. (Inl ''unimplemented'', u))
     \<lparr> dh_ping = svc_ping, dh_transfer = (), dh_get_spot = () \<rparr> ([] :: unit list))"]
    by (auto simp: c e demo_service_def)
qed

section \<open>A server for the examples\<close>

definition demo_handle :: "(demo_redis, string, int) redis_handle" where
  "demo_handle = \<lparr> rh_set = (\<lambda>k v ttl w. (None, w)), rh_get = (\<lambda>k w. (Inr ''GetSpot'', w)), rh_scripts = demo_client \<rparr>"

definition demo_table :: "spot_model list" where
  "demo_table = map (\<lambda>n. \<lparr> sm_id = word_of_nat n, sm_account_id = 7, sm_currency = ''EUR'', sm_deposit = ''1'', sm_frozen = ''0'',
     sm_version = 1, sm_create_time = 0, sm_update_time = 0 \<rparr>) [1, 2, 3, 4, 5]"

definition demo_query :: "('w, string) spot_query" where
  "demo_query order l n w = (Inr (take (nat l) (drop (nat n) demo_table)), w)"

definition demo_svc :: "string \<Rightarrow> nat \<Rightarrow> (demo_redis, string, int) dummy_service" where
  "demo_svc sha n = \<lparr> ds_lua_once = True, ds_lua_err = None,
     ds_lua_exec = Some ((new_lua_executor ''logs_demo_get_spot'' (Some demo_client) redis_demo_lua_script None)\<lparr> lx_sha := sha \<rparr>), ds_pending = n \<rparr>"

section \<open>Pages\<close>

text \<open>The conversions \<open>int(limit)\<close> and \<open>int(offset)\<close>.\<close>

lemma sint_small:
  assumes "unat (x :: 64 word) < 2 ^ 63"
  shows "sint x = int (unat x)"
proof -
  from assms have "int (unat x) < int (2 ^ 63)" by (simp only: of_nat_less_iff)
  then have "int (unat x) < 2 ^ 63" by simp
  moreover have "- (2 ^ 63) \<le> int (unat x)" by (rule order_trans [of _ 0]) simp_all
  ultimately have "signed_take_bit 63 (int (unat x)) = int (unat x)" by (rule signed_take_bit_int_eq_self [rotated])
  then show ?thesis by (simp only: sint_uint uint_nat) simp
qed

lemma sint_huge:
  assumes "2 ^ 63 \<le> unat (x :: 64 word)"
  shows "sint x < 0"
proof -
  from assms have "int (2 ^ 63) \<le> int (unat x)" by (simp only: of_nat_le_iff)
  then have "2 ^ 63 \<le> int (unat x)" by simp
  then have "signed_take_bit 63 (int (unat x)) \<le> int (unat x) - 2 ^ Suc 63" by (rule signed_take_bit_int_less_eq)
  moreover have "int (unat x) < 2 ^ 64" using uint_lt2p [of x] by simp
  moreover have "sint x = signed_take_bit 63 (int (unat x))" by (simp only: sint_uint uint_nat) simp
  moreover have "(2 :: int) ^ Suc 63 = 2 ^ 64" by simp
  ultimately show ?thesis by linarith
qed

lemma sint_of_nat: "m < 2 ^ 63 \<Longrightarrow> sint (word_of_nat m :: 64 word) = int m"
  by (subst sint_small) (simp_all add: unat_of_nat)

lemma unat_page_limit: "unat (page_limit limit) = (if unat limit = 0 then 10 else min 200 (unat limit))"
proof -
  have "limit = 0 \<longleftrightarrow> unat limit = 0" by (simp only: unat_eq_zero)
  moreover have "200 < limit \<longleftrightarrow> 200 < unat limit" by (simp only: word_less_nat_alt) simp
  ultimately show ?thesis by (simp add: page_limit_def Let_def)
qed

lemma page_limit_range: "0 < unat (page_limit limit)" "unat (page_limit limit) \<le> 200"
  by (simp_all add: unat_page_limit del: unat_eq_zero)

lemma get_spot_page:
  assumes query: "\<And>l n w. 0 < l \<Longrightarrow> fst (query ''id ASC'' l n w) = Inr (take (nat l) (drop (nat n) table))"
    and page: "fst (get_spot no_script redis (Some query) limit offset s w) = Inr page"
  shows "page = map to_proto_spot (take (unat (page_limit limit)) (drop (nat (sint offset)) table))"
proof -
  obtain err s1 w1 where ex: "exercise_redis no_script redis s w = (err, s1, w1)" by (metis prod_cases3)
  have "sint (page_limit limit) = int (unat (page_limit limit))"
    by (rule sint_small) (use page_limit_range(2) [of limit] in simp)
  moreover have "0 < sint (page_limit limit)" unfolding calculation using page_limit_range(1) [of limit] by linarith
  ultimately have "fst (query ''id ASC'' (sint (page_limit limit)) (sint offset) w1) =
      Inr (take (unat (page_limit limit)) (drop (nat (sint offset)) table))"
    using query [of "sint (page_limit limit)" "sint offset" w1] by (metis nat_int)
  with page ex show ?thesis
    by (cases err; cases "query ''id ASC'' (sint (page_limit limit)) (sint offset) w1") (auto simp: get_spot_def)
qed

text \<open>C22: paging through \<open>GetSpot\<close> is complete. On a database that, asked for the order \<open>id ASC\<close>, returns the rows in the
  order of their ids, and that ignores offsets that are not positive, and over a table that does not change, the first \<open>n\<close> pages of \<open>k\<close>
  rows, with \<open>k\<close> up to 200, are together the first \<open>n * k\<close> rows, each once and in order, whatever happens to
  Redis between the requests.\<close>

theorem pages_cover_table:
  assumes query: "\<And>l n w. 0 < l \<Longrightarrow> fst (query ''id ASC'' l n w) = Inr (take (nat l) (drop (nat n) table))"
    and k: "0 < k" "k \<le> 200" "n * k \<le> 2 ^ 63"
    and pages: "\<And>i. i < n \<Longrightarrow>
      fst (get_spot no_script redis (Some query) (word_of_nat k) (word_of_nat (i * k)) (svc i) (world i)) = Inr (page i)"
  shows "concat (map page [0..<n]) = map to_proto_spot (take (n * k) table)"
proof -
  have p: "page i = map to_proto_spot (take k (drop (i * k) table))" if i: "i < n" for i
  proof -
    have "i * k < n * k" using i k(1) by simp
    then have "i * k < 2 ^ 63" using k(3) by linarith
    then have off: "sint (word_of_nat (i * k) :: 64 word) = int (i * k)"
      by (rule sint_of_nat)
    have "unat (page_limit (word_of_nat k)) = k" using k by (simp add: unat_page_limit unat_of_nat)
    with get_spot_page [OF query pages [OF i]] off show ?thesis by (simp only: nat_int)
  qed
  have "m \<le> n \<Longrightarrow> concat (map page [0..<m]) = map to_proto_spot (take (m * k) table)" for m
  proof (induction m)
    case (Suc m)
    have "take (Suc m * k) table = take (m * k) table @ take k (drop (m * k) table)"
      by (metis mult_Suc add.commute take_add)
    with Suc show ?case by (simp add: p del: mult_Suc)
  qed simp
  then show ?thesis by simp
qed

theorem pages_cover_table_witness:
  "concat (map (\<lambda>i. map to_proto_spot (take 2 (drop (i * 2) demo_table))) [0..<3]) = map to_proto_spot demo_table"
proof -
  have page: "fst (get_spot (\<lambda>e. e = ''NOSCRIPT'') (Some demo_handle) (Some demo_query) (word_of_nat 2) (word_of_nat (i * 2))
      (demo_svc (''sha-'' @ redis_demo_lua_script) 0) ([redis_demo_lua_script], [])) =
      Inr (map to_proto_spot (take 2 (drop (i * 2) demo_table)))" if "i < 3" for i
  proof -
    from that consider "i = 0" | "i = 1" | "i = 2" by linarith
    then show ?thesis
      by cases (simp_all add: get_spot_def exercise_redis_def prepare_redis_lua_def update_counter_def update_one_event_def
          fast_path_def demo_svc_def demo_handle_def demo_client_def new_lua_executor_def demo_query_def page_limit_def)
  qed
  have "take 6 demo_table = demo_table" by (simp add: demo_table_def)
  with pages_cover_table [OF _ _ _ _ page, of demo_table 3] show ?thesis by (simp add: demo_query_def)
qed

text \<open>An offset of \<open>2 ^ 63\<close> or more becomes negative, and the request returns the first page.\<close>

lemma huge_offset_first_page:
  assumes "\<And>l n w. 0 < l \<Longrightarrow> fst (query ''id ASC'' l n w) = Inr (take (nat l) (drop (nat n) table))"
    and "2 ^ 63 \<le> unat offset"
    and "fst (get_spot no_script redis (Some query) limit offset s w) = Inr page"
  shows "page = map to_proto_spot (take (unat (page_limit limit)) table)"
  using get_spot_page [OF assms(1,3)] sint_huge [OF assms(2)] by simp

text \<open>After \<open>ensureAppConfigPath\<close> a path is set if one was, or if a candidate exists.\<close>

lemma ensured_path:
  "trim_space (ensure_app_config_path stat env ''APP_CONFIG_PATH'') \<noteq> [] \<longleftrightarrow>
   trim_space (env ''APP_CONFIG_PATH'') \<noteq> [] \<or> stat ''config/app.toml'' \<or> stat ''example/logs/config/app.toml''"
proof -
  have "trim_space ''config/app.toml'' \<noteq> []" "trim_space ''example/logs/config/app.toml'' \<noteq> []" by code_simp+
  then show ?thesis by (simp add: ensure_app_config_path_def)
qed

end
