(* ===== verification/Spot_Counter.thy ===== *)
theory Spot_Counter
  imports Example_Service Redis_Lua_Conc
begin

text \<open>
  \<open>GetSpot\<close> (\<open>example/logs/dummy_service.go\<close>) under concurrent requests: a request goes through the phases of
  \<open>exerciseRedis\<close> and of \<open>UpdateOneEvent\<close>, one command or one section under a lock at a time, and the phases of
  any number of requests interleave with the reloads they start and with what others do to Redis and the
  table. A Redis command may be sent again by its client, and its answer may be lost after the script
  has run, so the counter is accounted for up to the lost answers.
\<close>

section \<open>Phases of a request\<close>

datatype spot_phase = Setting | Getting | Preparing | Updating | Resetting | Falling_Back | Querying

type_synonym spot_call = "64 word \<times> 64 word"

type_synonym spot_answer = "(string svc_error, spot_message list) result"

definition refused :: "'e exercise_error \<Rightarrow> (('e svc_error, spot_message list) result, spot_phase) result" where
  "refused err = Inl (Inl (Coded Unavailable_Code (Exercise err)))"

text \<open>One phase: the answer or the next phase. \<open>Once\<close> makes the preparation one step; the fast path runs under the read
  lock, the reset under the write lock, the slow path under none.\<close>

fun spot_move ::
  "('e \<Rightarrow> bool) \<Rightarrow> ('w, 'e, 'v) redis_handle \<Rightarrow> ('w, 'e) spot_query option \<Rightarrow> spot_phase \<Rightarrow> spot_call \<Rightarrow>
   ('w, 'e, 'v) dummy_service \<Rightarrow> 'w \<Rightarrow>
   (('e svc_error, spot_message list) result, spot_phase) result \<times> ('w, 'e, 'v) dummy_service \<times> 'w" where
  "spot_move no_script redis db Setting c svc w =
     (case rh_set redis redis_demo_last_req_key ''GetSpot'' 30000000000 w of
        (Some e, w) \<Rightarrow> (refused (Redis_Failed e), svc, w)
      | (None, w) \<Rightarrow> (Inr Getting, svc, w))"
| "spot_move no_script redis db Getting c svc w =
     (case rh_get redis redis_demo_last_req_key w of
        (Inl e, w) \<Rightarrow> (refused (Redis_Failed e), svc, w)
      | (Inr _, w) \<Rightarrow> (Inr Preparing, svc, w))"
| "spot_move no_script redis db Preparing c svc w =
     (case prepare_redis_lua (rh_scripts redis) svc w of
        (Some e, svc, w) \<Rightarrow> (refused (Lua_Failed e), svc, w)
      | (None, svc, w) \<Rightarrow> (Inr Updating, svc, w))"
| "spot_move no_script redis db Updating c svc w =
     (case ds_lua_exec svc of None \<Rightarrow> (refused Executor_Nil, svc, w)
      | Some l \<Rightarrow> (case lx_client l of None \<Rightarrow> (refused Executor_Nil, svc, w)
      | Some client \<Rightarrow>
          (case fast_path client l [redis_demo_counter_key] [] w of
             (None, w) \<Rightarrow> (Inr Querying, svc, w)
           | (Some err, w) \<Rightarrow> (Inr (if lost_script no_script err then Resetting else Falling_Back), svc, w))))"
| "spot_move no_script redis db Resetting c svc w =
     (Inr Falling_Back, svc\<lparr> ds_lua_exec := map_option (lx_sha_update (\<lambda>_. [])) (ds_lua_exec svc) \<rparr>, w)"
| "spot_move no_script redis db Falling_Back c svc w =
     (case ds_lua_exec svc of None \<Rightarrow> (refused Executor_Nil, svc, w)
      | Some l \<Rightarrow> (case lx_client l of None \<Rightarrow> (refused Executor_Nil, svc, w)
      | Some client \<Rightarrow>
          (case slow_path_with_lock client l [redis_demo_counter_key] [] w of
             (err, reload, w) \<Rightarrow>
               (case err of None \<Rightarrow> Inr Querying | Some e \<Rightarrow> refused (Lua_Failed e),
                svc\<lparr> ds_pending := (if reload then Suc (ds_pending svc) else ds_pending svc) \<rparr>, w))))"
| "spot_move no_script redis db Querying c svc w =
     (case db of None \<Rightarrow> (Inl (Inl (Coded Unavailable_Code (Message ''mysql is not initialized''))), svc, w)
      | Some query \<Rightarrow>
          (case query ''id ASC'' (sint (page_limit (fst c))) (sint (snd c)) w of
             (Inl e, w) \<Rightarrow> (Inl (Inl (Coded Internal_Code (Cause e))), svc, w)
           | (Inr rows, w) \<Rightarrow> (Inl (Inr (map to_proto_spot rows)), svc, w)))"

text \<open>The service with its open requests and the answers it gave, latest first.\<close>

record ('w, 'e, 'v) svc_run =
  sr_svc :: "('w, 'e, 'v) dummy_service"
  sr_world :: 'w
  sr_calls :: "(spot_phase \<times> spot_call) multiset"
  sr_answers :: "('e svc_error, spot_message list) result list"

definition svc_start :: "'w \<Rightarrow> ('w, 'e, 'v) svc_run" where
  "svc_start w = \<lparr> sr_svc = new_dummy_service, sr_world = w, sr_calls = {#}, sr_answers = [] \<rparr>"

inductive svc_step ::
  "('e \<Rightarrow> bool) \<Rightarrow> ('w, 'e, 'v) redis_handle \<Rightarrow> ('w, 'e) spot_query option \<Rightarrow> ('w \<Rightarrow> 'w \<Rightarrow> bool) \<Rightarrow>
   ('w, 'e, 'v) svc_run \<Rightarrow> ('w, 'e, 'v) svc_run \<Rightarrow> bool"
  for no_script redis db outside where
  svc_request: "svc_step no_script redis db outside s (s\<lparr> sr_calls := add_mset (Setting, c) (sr_calls s) \<rparr>)"
| svc_move: "sr_calls s = add_mset (p, c) cs \<Longrightarrow> spot_move no_script redis db p c (sr_svc s) (sr_world s) = (Inr q, svc, w) \<Longrightarrow>
    svc_step no_script redis db outside s (s\<lparr> sr_svc := svc, sr_world := w, sr_calls := add_mset (q, c) cs \<rparr>)"
| svc_answer: "sr_calls s = add_mset (p, c) cs \<Longrightarrow> spot_move no_script redis db p c (sr_svc s) (sr_world s) = (Inl a, svc, w) \<Longrightarrow>
    svc_step no_script redis db outside s
      (s\<lparr> sr_svc := svc, sr_world := w, sr_calls := cs, sr_answers := a # sr_answers s \<rparr>)"
| svc_reload: "ds_pending (sr_svc s) = Suc n \<Longrightarrow> ds_lua_exec (sr_svc s) = Some l \<Longrightarrow>
    reload_goroutine l (sr_world s) = (l', w) \<Longrightarrow>
    svc_step no_script redis db outside s
      (s\<lparr> sr_svc := (sr_svc s)\<lparr> ds_lua_exec := Some l', ds_pending := n \<rparr>, sr_world := w \<rparr>)"
| svc_outside: "outside (sr_world s) w \<Longrightarrow> svc_step no_script redis db outside s (s\<lparr> sr_world := w \<rparr>)"

section \<open>Alone, the phases are \<open>GetSpot\<close>\<close>

fun spot_finish ::
  "nat \<Rightarrow> ('e \<Rightarrow> bool) \<Rightarrow> ('w, 'e, 'v) redis_handle \<Rightarrow> ('w, 'e) spot_query option \<Rightarrow> spot_phase \<Rightarrow> spot_call \<Rightarrow>
   ('w, 'e, 'v) dummy_service \<Rightarrow> 'w \<Rightarrow>
   (('e svc_error, spot_message list) result \<times> ('w, 'e, 'v) dummy_service \<times> 'w) option" where
  "spot_finish 0 no_script redis db p c svc w = None"
| "spot_finish (Suc n) no_script redis db p c svc w =
     (case spot_move no_script redis db p c svc w of
        (Inl a, svc, w) \<Rightarrow> Some (a, svc, w)
      | (Inr q, svc, w) \<Rightarrow> spot_finish n no_script redis db q c svc w)"

definition answer_query ::
  "('w, 'e) spot_query option \<Rightarrow> spot_call \<Rightarrow> ('w, 'e, 'v) dummy_service \<Rightarrow> 'w \<Rightarrow>
   ('e svc_error, spot_message list) result \<times> ('w, 'e, 'v) dummy_service \<times> 'w" where
  "answer_query db c s w =
     (case db of None \<Rightarrow> (Inl (Coded Unavailable_Code (Message ''mysql is not initialized'')), s, w)
      | Some query \<Rightarrow>
          case query ''id ASC'' (sint (page_limit (fst c))) (sint (snd c)) w of
            (Inl e, w) \<Rightarrow> (Inl (Coded Internal_Code (Cause e)), s, w)
          | (Inr rows, w) \<Rightarrow> (Inr (map to_proto_spot rows), s, w))"

declare spot_finish.simps [simp del]

lemma finish_step:
  "p \<noteq> Querying \<Longrightarrow> spot_finish (Suc n) no_script redis db p c svc w =
     (case spot_move no_script redis db p c svc w of
        (Inl a, svc, w) \<Rightarrow> Some (a, svc, w)
      | (Inr q, svc, w) \<Rightarrow> spot_finish n no_script redis db q c svc w)"
  by (simp add: spot_finish.simps)

lemma finish_query: "spot_finish (Suc m) no_script redis db Querying c s w = Some (answer_query db c s w)"
  by (simp add: spot_finish.simps answer_query_def split: option.split prod.split sum.split)

lemma finish_slow:
  assumes "ds_lua_exec s = Some l" "lx_client l = Some client"
    and "slow_path_with_lock client l [redis_demo_counter_key] [] w = (err, reload, w')"
  shows "spot_finish (Suc (Suc m)) no_script redis db Falling_Back c s w =
    (let s = s\<lparr> ds_pending := (if reload then Suc (ds_pending s) else ds_pending s) \<rparr>
     in Some (case err of Some e \<Rightarrow> (Inl (Coded Unavailable_Code (Exercise (Lua_Failed e))), s, w') | None \<Rightarrow> answer_query db c s w'))"
  by (cases err) (simp_all add: assms refused_def Let_def finish_query finish_step)

lemma finish_update:
  "spot_finish (Suc (Suc (Suc (Suc m)))) no_script redis db Updating c s w =
     Some (case update_counter no_script s w of
       (Some err, s, w) \<Rightarrow> (Inl (Coded Unavailable_Code (Exercise err)), s, w)
     | (None, s, w) \<Rightarrow> answer_query db c s w)"
proof -
  consider (none) "ds_lua_exec s = None" | (nil) l where "ds_lua_exec s = Some l" "lx_client l = None"
    | (call) l client where "ds_lua_exec s = Some l" "lx_client l = Some client"
    by (metis not_None_eq)
  then show ?thesis
  proof cases
    case call
    then have same: "s\<lparr> ds_lua_exec := Some l \<rparr> = s" by (cases s) simp
    obtain r v where f: "fast_path client l [redis_demo_counter_key] [] w = (r, v)" by fastforce
    show ?thesis
    proof (cases r)
      case None
      with call f show ?thesis
        by (simp add: finish_step finish_query update_counter_def update_one_event_def same)
    next
      case (Some e)
      let ?l = "case e of Call_Failed x \<Rightarrow> if no_script x then l\<lparr> lx_sha := [] \<rparr> else l | _ \<Rightarrow> l"
      let ?s = "s\<lparr> ds_lua_exec := Some ?l \<rparr>"
      have l: "ds_lua_exec ?s = Some ?l" "lx_client ?l = Some client" using call by (simp_all split: lua_error.split)
      obtain err reload w' where slow: "slow_path_with_lock client ?l [redis_demo_counter_key] [] v = (err, reload, w')" by (metis prod_cases3)
      have "\<exists>n. spot_finish (Suc (Suc (Suc (Suc m)))) no_script redis db Updating c s w =
          spot_finish (Suc (Suc n)) no_script redis db Falling_Back c ?s v"
      proof (cases "lost_script no_script e")
        case True
        with call f Some show ?thesis
          by (intro exI [of _ m]) (auto simp: finish_step lost_script_def split: lua_error.splits)
      next
        case False
        then have "?l = l" by (auto simp: lost_script_def split: lua_error.splits)
        with call f Some False show ?thesis
          by (intro exI [of _ "Suc m"]) (simp add: same finish_step [of _ "Suc (Suc (Suc m))"])
      qed
      then obtain n where n: "spot_finish (Suc (Suc (Suc (Suc m)))) no_script redis db Updating c s w =
          spot_finish (Suc (Suc n)) no_script redis db Falling_Back c ?s v" by blast
      have u: "update_counter no_script s w = (map_option Lua_Failed err,
          ?s\<lparr> ds_pending := (if reload then Suc (ds_pending s) else ds_pending s) \<rparr>, w')"
        using call f Some slow by (simp add: update_counter_def update_one_event_def Let_def)
      show ?thesis unfolding n finish_slow [OF l slow] u by (cases err) (simp_all add: Let_def)
    qed
  qed (simp_all add: finish_step update_counter_def refused_def)
qed

text \<open>A request that meets no other one answers as \<open>get_spot\<close> does.\<close>

lemma get_spot_finishes:
  "spot_finish 7 no_script redis db Setting c svc w =
     Some (get_spot no_script (Some redis) db (fst c) (snd c) svc w)"
proof -
  have n: "7 = Suc (Suc (Suc (Suc (Suc (Suc (Suc 0))))))" by simp
  obtain a w1 where set1: "rh_set redis redis_demo_last_req_key ''GetSpot'' 30000000000 w = (a, w1)" by fastforce
  obtain b w2 where get2: "rh_get redis redis_demo_last_req_key w1 = (b, w2)" by fastforce
  obtain e svc3 w3 where prep: "prepare_redis_lua (rh_scripts redis) svc w2 = (e, svc3, w3)" by (metis prod_cases3)
  note early = get_spot_def exercise_redis_def refused_def set1 get2 prep answer_query_def
  show ?thesis unfolding n
    by (cases a; cases b; cases e) (simp_all add: finish_step [of Setting] finish_step [of Getting] finish_step [of Preparing] finish_update early split: prod.split option.split)
qed

lemma spot_finish_steps:
  assumes "spot_finish n no_script redis db p c svc w = Some (a, svc', w')"
  shows "(svc_step no_script redis db outside)\<^sup>*\<^sup>*
    \<lparr> sr_svc = svc, sr_world = w, sr_calls = add_mset (p, c) cs, sr_answers = as \<rparr>
    \<lparr> sr_svc = svc', sr_world = w', sr_calls = cs, sr_answers = a # as \<rparr>"
  using assms
proof (induction n arbitrary: p svc w)
  case 0
  then show ?case by (simp add: spot_finish.simps)
next
  case (Suc n)
  let ?s = "\<lparr> sr_svc = svc, sr_world = w, sr_calls = add_mset (p, c) cs, sr_answers = as \<rparr>"
  obtain r svc1 w1 where m: "spot_move no_script redis db p c svc w = (r, svc1, w1)" by (metis prod_cases3)
  show ?case
  proof (cases r)
    case (Inl b)
    with Suc.prems m have "b = a" "svc1 = svc'" "w1 = w'" by (simp_all add: spot_finish.simps)
    with svc_answer [of ?s p c cs no_script redis db b svc1 w1 outside] m Inl show ?thesis by auto
  next
    case (Inr q)
    with Suc.prems m have "spot_finish n no_script redis db q c svc1 w1 = Some (a, svc', w')" by (simp add: spot_finish.simps)
    from Suc.IH [OF this] svc_move [of ?s p c cs no_script redis db q svc1 w1 outside] m Inr show ?thesis
      by (auto intro: converse_rtranclp_into_rtranclp)
  qed
qed

lemma get_spot_steps:
  assumes "get_spot no_script (Some redis) db (fst c) (snd c) svc w = (a, svc', w')"
  shows "(svc_step no_script redis db outside)\<^sup>*\<^sup>*
    \<lparr> sr_svc = svc, sr_world = w, sr_calls = cs, sr_answers = as \<rparr>
    \<lparr> sr_svc = svc', sr_world = w', sr_calls = cs, sr_answers = a # as \<rparr>"
proof -
  let ?s = "\<lparr> sr_svc = svc, sr_world = w, sr_calls = cs, sr_answers = as \<rparr>"
  have "svc_step no_script redis db outside ?s (?s\<lparr> sr_calls := add_mset (Setting, c) (sr_calls ?s) \<rparr>)" by (rule svc_request)
  with spot_finish_steps [OF get_spot_finishes [of no_script redis db c svc w, unfolded assms], of outside cs as] show ?thesis
    by (auto intro: converse_rtranclp_into_rtranclp)
qed

section \<open>Accounting for the runs\<close>

text \<open>
  A client of Redis sends a command up to \<open>k\<close> times, \<open>k\<close> being its retries and one. The script runs once for the attempt
  whose result the command returns, and it may have run for attempts whose answers were lost, also
  when the command fails in the end. \<open>executed\<close> counts the runs, \<open>lost\<close> the runs whose answers were lost.
\<close>

definition attempts_run :: "nat \<Rightarrow> ('w \<Rightarrow> nat) \<Rightarrow> ('w \<Rightarrow> nat) \<Rightarrow> bool \<Rightarrow> 'w \<Rightarrow> 'w \<Rightarrow> bool" where
  "attempts_run k executed lost ok w w' \<longleftrightarrow>
     (\<exists>n. n + of_bool ok \<le> k \<and> lost w' = lost w + n \<and> executed w' = executed w + n + of_bool ok)"

definition runs_scripts :: "nat \<Rightarrow> ('w, 'e, 'v) script_client \<Rightarrow> ('w \<Rightarrow> nat) \<Rightarrow> ('w \<Rightarrow> nat) \<Rightarrow> bool" where
  "runs_scripts k client executed lost \<longleftrightarrow>
     (\<forall>script keys args w r r2 w'.
        (sc_load client script w = (r, w') \<longrightarrow> executed w' = executed w \<and> lost w' = lost w) \<and>
        (sc_eval client script keys args w = (r2, w') \<longrightarrow> attempts_run k executed lost (is_ok r2) w w') \<and>
        (sc_eval_sha client script keys args w = (r2, w') \<longrightarrow> attempts_run k executed lost (is_ok r2) w w'))"

text \<open>Commands other than scripts, and the actions of others, run no script of the service.\<close>

definition leaves_count ::
  "('w, 'e, 'v) redis_handle \<Rightarrow> ('w, 'e) spot_query option \<Rightarrow> ('w \<Rightarrow> 'w \<Rightarrow> bool) \<Rightarrow> ('w \<Rightarrow> nat) \<Rightarrow> bool" where
  "leaves_count redis db outside runs \<longleftrightarrow>
     (\<forall>k v ttl w. runs (snd (rh_set redis k v ttl w)) = runs w \<and> runs (snd (rh_get redis k w)) = runs w) \<and>
     (\<forall>query order l n w. db = Some query \<longrightarrow> runs (snd (query order l n w)) = runs w) \<and>
     (\<forall>w w'. outside w w' \<longrightarrow> runs w' = runs w)"

lemma leaves_countD:
  assumes "leaves_count redis db outside runs"
  shows "rh_set redis k v ttl w = (e, w') \<Longrightarrow> runs w' = runs w"
    and "rh_get redis k w = (r, w') \<Longrightarrow> runs w' = runs w"
    and "db = Some query \<Longrightarrow> query order l n w = (q, w') \<Longrightarrow> runs w' = runs w"
    and "outside w w' \<Longrightarrow> runs w' = runs w"
  using assms unfolding leaves_count_def by (metis snd_conv)+

lemma attempts_run_refl: "attempts_run k executed lost False w w"
  by (simp add: attempts_run_def)

lemma fast_path_runs:
  assumes "runs_scripts k client executed lost" "lx_resp_fn l = None" "fast_path client l keys args w = (err, w')"
  shows "attempts_run k executed lost (err = None) w w'"
proof -
  obtain r v where "sc_eval_sha client (lx_sha l) keys args w = (r, v)" by fastforce
  with assms show ?thesis unfolding runs_scripts_def
    by (cases r) (auto simp: fast_path_def attempts_run_refl split: if_splits dest!: spec)
qed

lemma slow_path_runs:
  assumes "runs_scripts k client executed lost" "lx_resp_fn l = None" "slow_path_with_lock client l keys args w = (err, reload, w')"
  shows "attempts_run k executed lost (err = None) w w'"
proof -
  obtain r v where "sc_eval client (lx_script l) keys args w = (r, v)" by fastforce
  with assms show ?thesis unfolding runs_scripts_def
    by (cases r) (auto simp: slow_path_with_lock_def dest!: spec)
qed

lemma prepare_runs:
  assumes "runs_scripts k client executed lost" "lx_client l = Some client" "prepare_lua_script l w = (err, l', w')"
  shows "executed w' = executed w \<and> lost w' = lost w \<and> lx_client l' = Some client \<and> lx_resp_fn l' = lx_resp_fn l"
proof -
  obtain r v where s: "sc_load client (lx_script l) w = (r, v)" by fastforce
  with assms(1) have "executed v = executed w \<and> lost v = lost w" unfolding runs_scripts_def by blast
  with assms(2,3) s show ?thesis by (cases r) (auto simp: prepare_lua_script_def)
qed

text \<open>The executor of the service is on its client and has no callback.\<close>

definition svc_ok :: "('w, 'e, 'v) script_client \<Rightarrow> ('w, 'e, 'v) dummy_service \<Rightarrow> bool" where
  "svc_ok client s \<longleftrightarrow> (\<forall>l. ds_lua_exec s = Some l \<longrightarrow> lx_client l = Some client \<and> lx_resp_fn l = None)"

lemma prepare_redis_lua_ok:
  assumes "runs_scripts k client executed lost" "svc_ok client s" "prepare_redis_lua client s w = (err, s', w')"
  shows "executed w' = executed w \<and> lost w' = lost w \<and> svc_ok client s'"
  using assms(2,3) prepare_runs [OF assms(1), of "new_lua_executor ''logs_demo_get_spot'' (Some client) redis_demo_lua_script None" w]
  by (auto simp: prepare_redis_lua_def svc_ok_def new_lua_executor_def split: if_splits prod.splits)

lemma reload_ok:
  assumes "runs_scripts k client executed lost" "lx_client l = Some client" "reload_goroutine l w = (l', w')"
  shows "executed w' = executed w \<and> lost w' = lost w \<and> lx_client l' = Some client \<and> lx_resp_fn l' = lx_resp_fn l"
  using assms(2,3) prepare_runs [OF assms(1,2), of w]
  by (cases "prepare_lua_script l w") (auto simp: reload_goroutine_def split: if_splits)

text \<open>A request has got past Redis when it queries the table, or has an answer that says so.\<close>

definition past_redis :: "('e svc_error, 'r) result \<Rightarrow> bool" where
  "past_redis res = (case res of Inl (Coded code (Exercise err)) \<Rightarrow> False | _ \<Rightarrow> True)"

definition svc_past :: "('w, 'e, 'v) svc_run \<Rightarrow> nat" where
  "svc_past s = size (filter_mset (\<lambda>x. fst x = Querying) (sr_calls s)) + length (filter past_redis (sr_answers s))"

text \<open>How many scripts a phase and what follows it may still send.\<close>

fun budget :: "spot_phase \<Rightarrow> nat" where
  "budget Querying = 0"
| "budget Resetting = 1"
| "budget Falling_Back = 1"
| "budget p = 2"

definition outcome_past :: "(('e svc_error, 'r) result, spot_phase) result \<Rightarrow> bool" where
  "outcome_past r = (case r of Inl a \<Rightarrow> past_redis a | Inr q \<Rightarrow> q = Querying)"

definition outcome_budget :: "('a, spot_phase) result \<Rightarrow> nat" where
  "outcome_budget r = (case r of Inl _ \<Rightarrow> 0 | Inr q \<Rightarrow> budget q)"

lemma move_no_script:
  assumes "executed w' = executed w" "lost w' = lost w" "outcome_past r \<longleftrightarrow> p = Querying" "outcome_budget r \<le> budget p"
  shows "\<exists>n. lost w' = lost w + n \<and> executed w' + of_bool (p = Querying) = executed w + n + of_bool (outcome_past r) \<and>
    executed w' + k * outcome_budget r \<le> executed w + k * budget p"
  using assms by simp

lemma move_script:
  assumes "attempts_run k executed lost (outcome_past r) w w'" "p \<noteq> Querying" "Suc (outcome_budget r) \<le> budget p"
  shows "\<exists>n. lost w' = lost w + n \<and> executed w' + of_bool (p = Querying) = executed w + n + of_bool (outcome_past r) \<and>
    executed w' + k * outcome_budget r \<le> executed w + k * budget p"
proof -
  obtain n where n: "n + of_bool (outcome_past r) \<le> k" "lost w' = lost w + n" "executed w' = executed w + n + of_bool (outcome_past r)"
    using assms(1) unfolding attempts_run_def by blast
  have "k + k * outcome_budget r \<le> k * budget p" using assms(3) by (metis mult_Suc_right mult_le_mono2)
  with n assms(2) show ?thesis by (intro exI [of _ n]) simp
qed

lemma spot_move_ok:
  assumes runs: "runs_scripts k (rh_scripts redis) executed lost"
    and plain: "leaves_count redis db outside executed" "leaves_count redis db outside lost"
    and ok: "svc_ok (rh_scripts redis) svc" and move: "spot_move no_script redis db p c svc w = (r, svc', w')"
  shows "svc_ok (rh_scripts redis) svc' \<and>
    (\<exists>n. lost w' = lost w + n \<and> executed w' + of_bool (p = Querying) = executed w + n + of_bool (outcome_past r) \<and>
      executed w' + k * outcome_budget r \<le> executed w + k * budget p)"
proof (cases p)
  case Setting
  with move ok show ?thesis
    by (intro conjI move_no_script)
      (auto simp: refused_def outcome_past_def past_redis_def outcome_budget_def split: prod.splits option.splits
        dest: leaves_countD(1) [OF plain(1)] leaves_countD(1) [OF plain(2)])
next
  case Getting
  with move ok show ?thesis
    by (intro conjI move_no_script)
      (auto simp: refused_def outcome_past_def past_redis_def outcome_budget_def split: prod.splits sum.splits
        dest: leaves_countD(2) [OF plain(1)] leaves_countD(2) [OF plain(2)])
next
  case Preparing
  with move show ?thesis
    by (intro conjI move_no_script)
      (auto simp: refused_def outcome_past_def past_redis_def outcome_budget_def split: prod.splits option.splits
        dest: prepare_redis_lua_ok [OF runs ok])
next
  case Resetting
  with move ok show ?thesis
    by (intro conjI move_no_script) (auto simp: outcome_past_def outcome_budget_def svc_ok_def)
next
  case Querying
  with move ok show ?thesis
    by (intro conjI move_no_script)
      (auto simp: outcome_past_def past_redis_def outcome_budget_def split: prod.splits option.splits sum.splits
        dest: leaves_countD(3) [OF plain(1)] leaves_countD(3) [OF plain(2)])
next
  case Updating
  show ?thesis
  proof (cases "ds_lua_exec svc")
    case None
    with Updating move ok show ?thesis
      by (intro conjI move_no_script) (auto simp: refused_def outcome_past_def past_redis_def outcome_budget_def)
  next
    case (Some l)
    with ok have l: "lx_client l = Some (rh_scripts redis)" "lx_resp_fn l = None" by (simp_all add: svc_ok_def)
    obtain err v where f: "fast_path (rh_scripts redis) l [redis_demo_counter_key] [] w = (err, v)" by fastforce
    from fast_path_runs [OF runs l(2) f] Updating Some l(1) f move ok show ?thesis
      by (intro conjI move_script) (auto simp: outcome_past_def outcome_budget_def split: option.splits)
  qed
next
  case Falling_Back
  show ?thesis
  proof (cases "ds_lua_exec svc")
    case None
    with Falling_Back move ok show ?thesis
      by (intro conjI move_no_script) (auto simp: refused_def outcome_past_def past_redis_def outcome_budget_def)
  next
    case (Some l)
    with ok have l: "lx_client l = Some (rh_scripts redis)" "lx_resp_fn l = None" by (simp_all add: svc_ok_def)
    obtain err reload v where f: "slow_path_with_lock (rh_scripts redis) l [redis_demo_counter_key] [] w = (err, reload, v)" by (metis prod_cases3)
    from slow_path_runs [OF runs l(2) f] Falling_Back Some l f move ok show ?thesis
      by (intro conjI move_script)
        (auto simp: refused_def outcome_past_def past_redis_def outcome_budget_def svc_ok_def split: option.splits)
  qed
qed

text \<open>The books of a run: every run of the script belongs to a request past Redis or to a lost answer, and the
  open phases and the answers have at most two commands of \<open>k\<close> attempts each.\<close>

definition svc_counted ::
  "nat \<Rightarrow> ('w, 'e, 'v) redis_handle \<Rightarrow> ('w \<Rightarrow> nat) \<Rightarrow> ('w \<Rightarrow> nat) \<Rightarrow> 'w \<Rightarrow> ('w, 'e, 'v) svc_run \<Rightarrow> bool" where
  "svc_counted k redis executed lost w0 s \<longleftrightarrow>
     svc_ok (rh_scripts redis) (sr_svc s) \<and> lost w0 \<le> lost (sr_world s) \<and>
     executed (sr_world s) + lost w0 = executed w0 + svc_past s + lost (sr_world s) \<and>
     executed (sr_world s) + k * (\<Sum>x\<in>#sr_calls s. budget (fst x))
       \<le> executed w0 + k * (2 * (length (sr_answers s) + size (sr_calls s)))"

lemma svc_step_counted:
  assumes runs: "runs_scripts k (rh_scripts redis) executed lost"
    and plain: "leaves_count redis db outside executed" "leaves_count redis db outside lost"
    and step: "svc_step no_script redis db outside s t" and inv: "svc_counted k redis executed lost w0 s"
  shows "svc_counted k redis executed lost w0 t"
  using step
proof cases
  case (svc_request c)
  with inv show ?thesis by (simp add: svc_counted_def svc_past_def algebra_simps)
next
  case (svc_move p c cs q svc w)
  from inv have ok: "svc_ok (rh_scripts redis) (sr_svc s)" by (simp add: svc_counted_def)
  from spot_move_ok [OF runs plain ok svc_move(3)] inv svc_move(1,2) show ?thesis
    by (auto simp: svc_counted_def svc_past_def outcome_past_def outcome_budget_def algebra_simps of_bool_def split: if_splits)
next
  case (svc_answer p c cs a svc w)
  from inv have ok: "svc_ok (rh_scripts redis) (sr_svc s)" by (simp add: svc_counted_def)
  from spot_move_ok [OF runs plain ok svc_answer(3)] inv svc_answer(1,2) show ?thesis
    by (auto simp: svc_counted_def svc_past_def outcome_past_def outcome_budget_def algebra_simps of_bool_def split: if_splits)
next
  case (svc_reload n l l' w)
  have "lx_client l = Some (rh_scripts redis)" "lx_resp_fn l = None"
    using inv svc_reload(3) by (simp_all add: svc_counted_def svc_ok_def)
  with reload_ok [OF runs this(1) svc_reload(4)] inv svc_reload(1) show ?thesis
    by (simp add: svc_counted_def svc_past_def svc_ok_def)
next
  case (svc_outside w)
  from svc_outside(2) leaves_countD(4) [OF plain(1)] leaves_countD(4) [OF plain(2)]
  have "executed w = executed (sr_world s)" "lost w = lost (sr_world s)" by blast+
  with inv svc_outside(1) show ?thesis by (simp add: svc_counted_def svc_past_def)
qed

text \<open>C21: the counter of the example counts every request, and too much only for lost answers. However the requests
  interleave, however often Redis drops its scripts, and whatever mix of cached calls, full scripts and
  reloads this causes, the runs of the script are the requests that got past Redis and the runs whose
  answers were lost; so they are at least those requests, exactly those if no answer is lost, and at
  most \<open>2 * k\<close> for each request when the Redis client sends a command up to \<open>k\<close> times.\<close>

theorem spot_counter_accounts:
  assumes "runs_scripts k (rh_scripts redis) executed lost"
    and "leaves_count redis db outside executed" "leaves_count redis db outside lost"
    and "(svc_step no_script redis db outside)\<^sup>*\<^sup>* (svc_start w) s"
  shows "lost w \<le> lost (sr_world s) \<and>
    executed (sr_world s) = executed w + svc_past s + (lost (sr_world s) - lost w) \<and>
    executed (sr_world s) \<le> executed w + 2 * k * (length (sr_answers s) + size (sr_calls s))"
proof -
  have start: "svc_counted k redis executed lost w (svc_start w)"
    by (simp add: svc_counted_def svc_ok_def new_dummy_service_def svc_start_def svc_past_def)
  have "preserved (svc_step no_script redis db outside) (svc_counted k redis executed lost w)"
    by unfold_locales (rule svc_step_counted [OF assms(1-3)])
  from preserved.run_preserves [OF this assms(4) start] show ?thesis by (auto simp: svc_counted_def algebra_simps)
qed

section \<open>A failed preparation is final\<close>

definition prepare_failed :: "'e lua_error \<Rightarrow> ('w, 'e, 'v) svc_run \<Rightarrow> bool" where
  "prepare_failed e s \<longleftrightarrow> ds_lua_once (sr_svc s) \<and> ds_lua_err (sr_svc s) = Some e"

lemma get_spot_prepare_failed:
  assumes "ds_lua_once s" "ds_lua_err s = Some e" "get_spot no_script redis db limit offset s w = (res, s', w')"
  shows "s' = s \<and> (\<exists>err. res = Inl (Coded Unavailable_Code (Exercise err)))"
proof -
  obtain err s1 w1 where ex: "exercise_redis no_script redis s w = (err, s1, w1)" by (metis prod_cases3)
  then have "s1 = s \<and> err \<noteq> None"
    using assms(1,2) by (auto simp: exercise_redis_def prepare_redis_lua_def split: option.splits prod.splits sum.splits)
  with assms(3) ex show ?thesis by (auto simp: get_spot_def)
qed

lemma spot_move_prepare_failed:
  assumes "ds_lua_once svc" "ds_lua_err svc = Some e" "spot_move no_script redis db p c svc w = (r, svc', w')"
  shows "ds_lua_once svc' \<and> ds_lua_err svc' = Some e"
  using assms by (cases p) (auto simp: prepare_redis_lua_def split: prod.splits option.splits sum.splits)

lemma svc_step_prepare_failed:
  assumes "svc_step no_script redis db outside s t" "prepare_failed e s"
  shows "prepare_failed e t"
  using assms by cases (auto simp: prepare_failed_def dest: spot_move_prepare_failed)

interpretation failed: preserved "svc_step no_script redis db outside" "prepare_failed e" for no_script redis db outside e
  by unfold_locales (rule svc_step_prepare_failed)

text \<open>One failed preparation of the script is final. If the first request could not load the script,
  every later request is refused as unavailable, whatever the state of Redis and of the database.\<close>

lemma spot_failure_is_final:
  assumes first: "get_spot no_script (Some redis) db limit offset new_dummy_service w = (res, svc, w1)"
    and failed: "ds_lua_once svc" "ds_lua_err svc \<noteq> None"
    and later: "(svc_step no_script redis db outside)\<^sup>*\<^sup>* s t" "sr_svc s = svc"
  shows "\<exists>err. fst (get_spot no_script2 redis2 db2 limit2 offset2 (sr_svc t) w2) = Inl (Coded Unavailable_Code (Exercise err))"
proof -
  obtain e where "prepare_failed e s" using failed later(2) by (auto simp: prepare_failed_def)
  with later(1) have "prepare_failed e t" by (rule failed.run_preserves)
  then have t: "ds_lua_once (sr_svc t)" "ds_lua_err (sr_svc t) = Some e" by (simp_all add: prepare_failed_def)
  obtain r u v where "get_spot no_script2 redis2 db2 limit2 offset2 (sr_svc t) w2 = (r, u, v)" by (metis prod_cases3)
  with get_spot_prepare_failed [OF t this] show ?thesis by auto
qed

section \<open>A server that loses an answer\<close>

text \<open>The server of \<open>Redis_Lua\<close>, whether it loses the answer of the next cached call, and how many it has lost.\<close>

type_synonym lossy_redis = "demo_redis \<times> bool \<times> nat"

definition lossy_client :: "(lossy_redis, string, int) script_client" where
  "lossy_client =
     \<lparr> sc_load = (\<lambda>script (d, lose, n). case sc_load demo_client script d of (r, d) \<Rightarrow> (r, (d, lose, n))),
       sc_eval_sha = (\<lambda>sha keys args (d, lose, n). case sc_eval_sha demo_client sha keys args d of
         (r, d) \<Rightarrow> if lose \<and> is_ok r then (Inl ''i/o timeout'', (d, False, Suc n)) else (r, (d, lose, n))),
       sc_eval = (\<lambda>script keys args (d, lose, n). case sc_eval demo_client script keys args d of (r, d) \<Rightarrow> (r, (d, lose, n))) \<rparr>"

definition lossy_handle :: "(lossy_redis, string, int) redis_handle" where
  "lossy_handle = \<lparr> rh_set = (\<lambda>k v ttl w. (None, w)), rh_get = (\<lambda>k w. (Inr ''GetSpot'', w)), rh_scripts = lossy_client \<rparr>"

definition lossy_ran :: "lossy_redis \<Rightarrow> nat" where "lossy_ran w = length (snd (fst w))"

definition lossy_lost :: "lossy_redis \<Rightarrow> nat" where "lossy_lost w = snd (snd w)"

definition lossy_outside :: "lossy_redis \<Rightarrow> lossy_redis \<Rightarrow> bool" where
  "lossy_outside w w' \<longleftrightarrow> snd (fst w') = snd (fst w) \<and> snd (snd w') = snd (snd w)"

lemma lossy_laws:
  "runs_scripts 1 (rh_scripts lossy_handle) lossy_ran lossy_lost"
  "leaves_count lossy_handle (Some demo_query) lossy_outside lossy_ran"
  "leaves_count lossy_handle (Some demo_query) lossy_outside lossy_lost"
  by (auto simp: runs_scripts_def leaves_count_def attempts_run_def lossy_handle_def lossy_client_def demo_client_def demo_query_def
      lossy_outside_def lossy_ran_def lossy_lost_def split: if_splits prod.splits)

definition lossy_exec :: "string \<Rightarrow> (lossy_redis, string, int) lua_executor" where
  "lossy_exec sha = (new_lua_executor ''logs_demo_get_spot'' (Some lossy_client) redis_demo_lua_script None)\<lparr> lx_sha := sha \<rparr>"

definition lossy_svc :: "string \<Rightarrow> nat \<Rightarrow> (lossy_redis, string, int) dummy_service" where
  "lossy_svc sha n = \<lparr> ds_lua_once = True, ds_lua_err = None, ds_lua_exec = Some (lossy_exec sha), ds_pending = n \<rparr>"

definition lossy_run ::
  "(lossy_redis, string, int) dummy_service \<Rightarrow> lossy_redis \<Rightarrow> (spot_phase \<times> spot_call) list \<Rightarrow> nat \<Rightarrow> (lossy_redis, string, int) svc_run" where
  "lossy_run svc w cs n = \<lparr> sr_svc = svc, sr_world = w, sr_calls = mset cs, sr_answers = replicate n (Inr (map to_proto_spot demo_table)) \<rparr>"

abbreviation lossy_step :: "(lossy_redis, string, int) svc_run \<Rightarrow> (lossy_redis, string, int) svc_run \<Rightarrow> bool" where
  "lossy_step \<equiv> svc_step (\<lambda>e. e = ''NOSCRIPT'') lossy_handle (Some demo_query) lossy_outside"

lemma lossy_steps:
  assumes "spot_move (\<lambda>e. e = ''NOSCRIPT'') lossy_handle (Some demo_query) p (0, 0) svc w = (r, svc', w')"
  shows "r = Inr q \<Longrightarrow> lossy_step (lossy_run svc w ((p, (0, 0)) # cs) n) (lossy_run svc' w' ((q, (0, 0)) # cs) n)"
    and "r = Inl (Inr (map to_proto_spot demo_table)) \<Longrightarrow> lossy_step (lossy_run svc w ((p, (0, 0)) # cs) n) (lossy_run svc' w' cs (Suc n))"
  using svc_move [of "lossy_run svc w ((p, (0, 0)) # cs) n" p "(0, 0)" "mset cs" "\<lambda>e. e = ''NOSCRIPT''" lossy_handle "Some demo_query" q svc' w' lossy_outside]
    svc_answer [of "lossy_run svc w ((p, (0, 0)) # cs) n" p "(0, 0)" "mset cs" "\<lambda>e. e = ''NOSCRIPT''" lossy_handle "Some demo_query"
      "Inr (map to_proto_spot demo_table)" svc' w' lossy_outside] assms
  by (simp_all add: lossy_run_def)

text \<open>The first request runs the cached script, loses the answer and is on its way to the whole script; a second
  request runs between; then the first one runs the script again.\<close>

lemma lossy_demo:
  fixes S defines "S \<equiv> redis_demo_lua_script"
  shows "lossy_step\<^sup>*\<^sup>* (svc_start (([], []), False, 0))
    (lossy_run (lossy_svc (''sha-'' @ S) 1) (([S], [S, ''sha-'' @ S, ''sha-'' @ S]), False, 1) [(Querying, (0, 0))] 1)"
proof -
  let ?sha = "''sha-'' @ S" and ?c = "(0, 0) :: spot_call"
  let ?w = "\<lambda>log lose n. (([S], log), lose, n) :: lossy_redis"
  note defs = lossy_svc_def lossy_exec_def lossy_handle_def lossy_client_def demo_client_def new_lua_executor_def S_def
  let ?s0 = "svc_start (([], []), False, 0)"
  let ?s1 = "lossy_run new_dummy_service (([], []), False, 0) [(Setting, ?c)] 0"
  have t1: "lossy_step\<^sup>*\<^sup>* ?s0 ?s1"
    using svc_request [of "\<lambda>e. e = ''NOSCRIPT''" lossy_handle "Some demo_query" lossy_outside "svc_start (([], []), False, 0)" ?c]
    by (simp add: svc_start_def lossy_run_def r_into_rtranclp)
  let ?s2 = "lossy_run new_dummy_service (([], []), False, 0) [(Getting, ?c)] 0"
  have t2: "lossy_step\<^sup>*\<^sup>* ?s1 ?s2"
    by (rule r_into_rtranclp, rule lossy_steps(1) [OF _ refl]) (simp add: lossy_handle_def)
  let ?s3 = "lossy_run new_dummy_service (([], []), False, 0) [(Preparing, ?c)] 0"
  have t3: "lossy_step\<^sup>*\<^sup>* ?s2 ?s3"
    by (rule r_into_rtranclp, rule lossy_steps(1) [OF _ refl]) (simp add: lossy_handle_def)
  let ?s4 = "lossy_run (lossy_svc ?sha 0) (?w [] False 0) [(Updating, ?c)] 0"
  have t4: "lossy_step\<^sup>*\<^sup>* ?s3 ?s4"
    by (rule r_into_rtranclp, rule lossy_steps(1) [OF _ refl])
      (simp add: defs prepare_redis_lua_def prepare_lua_script_def new_dummy_service_def)
  let ?s5 = "lossy_run (lossy_svc ?sha 0) (?w [] True 0) [(Updating, ?c)] 0"
  have t5: "lossy_step\<^sup>*\<^sup>* ?s4 ?s5"
    using svc_outside [of lossy_outside "lossy_run (lossy_svc ?sha 0) (?w [] False 0) [(Updating, ?c)] 0" "?w [] True 0"]
    by (simp add: lossy_run_def lossy_outside_def r_into_rtranclp)
  let ?s6 = "lossy_run (lossy_svc ?sha 0) (?w [?sha] False 1) [(Falling_Back, ?c)] 0"
  have t6: "lossy_step\<^sup>*\<^sup>* ?s5 ?s6"
    by (rule r_into_rtranclp, rule lossy_steps(1) [OF _ refl]) (simp add: defs fast_path_def lost_script_def)
  let ?s7 = "lossy_run (lossy_svc ?sha 0) (?w [?sha, ?sha] False 1) [(Falling_Back, ?c)] 1"
  have t7: "lossy_step\<^sup>*\<^sup>* ?s6 ?s7"
  proof -
    have "get_spot (\<lambda>e. e = ''NOSCRIPT'') (Some lossy_handle) (Some demo_query) (fst ?c) (snd ?c) (lossy_svc ?sha 0) (?w [?sha] False 1) =
        (Inr (map to_proto_spot demo_table), lossy_svc ?sha 0, ?w [?sha, ?sha] False 1)"
      by (simp add: defs get_spot_def exercise_redis_def update_counter_def update_one_event_def fast_path_def prepare_redis_lua_def
          demo_query_def page_limit_def demo_table_def)
    from get_spot_steps [OF this, of lossy_outside "{#(Falling_Back, ?c)#}" "[]"] show ?thesis by (simp add: lossy_run_def)
  qed
  let ?s8 = "lossy_run (lossy_svc ?sha 1) (?w [S, ?sha, ?sha] False 1) [(Querying, ?c)] 1"
  have t8: "lossy_step\<^sup>*\<^sup>* ?s7 ?s8"
    by (rule r_into_rtranclp, rule lossy_steps(1) [OF _ refl]) (simp add: defs slow_path_with_lock_def)
  show ?thesis
    by (rule rtranclp_trans [OF t1 rtranclp_trans [OF t2 rtranclp_trans [OF t3 rtranclp_trans [OF t4 rtranclp_trans [OF t5 rtranclp_trans [OF t6 rtranclp_trans [OF t7 t8]]]]]]])
qed

theorem spot_counter_accounts_witness:
  "\<exists>s. lossy_step\<^sup>*\<^sup>* (svc_start (([], []), False, 0)) s \<and> svc_past s = 2 \<and> lossy_lost (sr_world s) = 1 \<and> lossy_ran (sr_world s) = 3"
proof -
  let ?S = redis_demo_lua_script
  let ?s = "lossy_run (lossy_svc (''sha-'' @ ?S) 1) (([?S], [?S, ''sha-'' @ ?S, ''sha-'' @ ?S]), False, 1) [(Querying, (0, 0))] 1"
  have "svc_past ?s = 2" "lossy_lost (sr_world ?s) = 1"
    by (simp_all add: svc_past_def lossy_run_def past_redis_def lossy_lost_def)
  with spot_counter_accounts [OF lossy_laws lossy_demo] lossy_demo show ?thesis
    by (intro exI [of _ ?s]) (simp add: lossy_ran_def lossy_lost_def)
qed

text \<open>A preparation that fails while Redis is loading.\<close>

lemma spot_failure_is_final_witness:
  "\<exists>err. fst (get_spot (\<lambda>e. e = ''NOSCRIPT'') (Some demo_handle) (Some demo_query) 10 0
     (new_dummy_service\<lparr> ds_lua_once := True, ds_lua_err := Some (Call_Failed ''LOADING''),
        ds_lua_exec := Some (new_lua_executor ''logs_demo_get_spot'' (Some (demo_client\<lparr> sc_load := \<lambda>x w. (Inl ''LOADING'', w) \<rparr>)) redis_demo_lua_script None) \<rparr>)
     ([], [])) = Inl (Coded Unavailable_Code (Exercise err))"
proof -
  let ?loading = "demo_handle\<lparr> rh_scripts := demo_client\<lparr> sc_load := \<lambda>x w. (Inl ''LOADING'', w) \<rparr> \<rparr>"
  let ?s = "new_dummy_service\<lparr> ds_lua_once := True, ds_lua_err := Some (Call_Failed ''LOADING''),
    ds_lua_exec := Some (new_lua_executor ''logs_demo_get_spot'' (Some (demo_client\<lparr> sc_load := \<lambda>x w. (Inl ''LOADING'', w) \<rparr>)) redis_demo_lua_script None) \<rparr>"
  have "get_spot (\<lambda>e. e = ''NOSCRIPT'') (Some ?loading) (Some demo_query) 10 0 new_dummy_service ([], []) =
      (Inl (Coded Unavailable_Code (Exercise (Lua_Failed (Call_Failed ''LOADING'')))), ?s, ([], []))"
    by (simp add: get_spot_def exercise_redis_def prepare_redis_lua_def prepare_lua_script_def new_lua_executor_def
        demo_handle_def new_dummy_service_def)
  from spot_failure_is_final [OF this _ _ rtranclp.rtrancl_refl, of "(svc_start ([], []))\<lparr> sr_svc := ?s \<rparr>"] show ?thesis by simp
qed

end
