(* ===== verification/Metrics_Registry.thy ===== *)
theory Metrics_Registry
  imports Interceptors Pprof
begin

text \<open>
  The registration of Prometheus collectors across packages: the collectors of \<open>infra/\<close>, \<open>trace/\<close>,
  \<open>interceptor/metrics.go\<close> and \<open>kafka/metrics.go\<close>, the functions that register them, and the package
  initialisation. The registry is a parameter: \<open>reg\<close> answers a registration and changes the registry;
  \<open>registry_ok\<close> is its documented contract. A panic is an option.
\<close>

section \<open>Collectors\<close>

record collector =
  co_name :: string
  co_help :: string
  co_labels :: "string list"

definition infra_error_counter :: collector where
  "infra_error_counter = \<lparr> co_name = ''lunaship_trace_reporter_errors_total'',
     co_help = ''Total number of trace reporter errors'', co_labels = [] \<rparr>"

definition trace_error_counter :: collector where
  "trace_error_counter = \<lparr> co_name = ''lunaship_trace_reporter_errors_total'',
     co_help = ''Total number of trace reporter errors'', co_labels = [] \<rparr>"

definition pprof_dump_failures_total :: collector where
  "pprof_dump_failures_total = \<lparr> co_name = ''lunaship_pprof_dump_failures_total'',
     co_help = ''Total number of pprof dump failures by profile type.'', co_labels = [''profile''] \<rparr>"

definition rpc_server_requests_total :: collector where
  "rpc_server_requests_total = \<lparr> co_name = ''rpc_server_requests_total'',
     co_help = ''Total number of unary RPC server requests by endpoint and code.'',
     co_labels = [''service'', ''endpoint'', ''code''] \<rparr>"

definition rpc_server_request_duration_seconds :: collector where
  "rpc_server_request_duration_seconds = \<lparr> co_name = ''rpc_server_request_duration_seconds'',
     co_help = ''Unary RPC server request duration in seconds by endpoint and code.'',
     co_labels = [''service'', ''endpoint'', ''code''] \<rparr>"

definition kafka_consume_duration_ms :: collector where
  "kafka_consume_duration_ms = \<lparr> co_name = ''kafka_consume_duration_ms'',
     co_help = ''Latest Kafka consumer message handling duration in milliseconds.'',
     co_labels = [''kafka_instance'', ''topic'', ''partition'', ''consumer_group'', ''app''] \<rparr>"

definition kafka_consume_error_count :: collector where
  "kafka_consume_error_count = \<lparr> co_name = ''kafka_consume_error_count'',
     co_help = ''Kafka consumer message handling errors by error type.'',
     co_labels = [''kafka_instance'', ''topic'', ''partition'', ''consumer_group'', ''app'', ''error_type''] \<rparr>"

definition kafka_produce_duration_ms :: collector where
  "kafka_produce_duration_ms = \<lparr> co_name = ''kafka_produce_duration_ms'',
     co_help = ''Latest Kafka producer message publish duration in milliseconds.'',
     co_labels = [''kafka_instance'', ''topic'', ''partition'', ''app''] \<rparr>"

definition kafka_produce_error_count :: collector where
  "kafka_produce_error_count = \<lparr> co_name = ''kafka_produce_error_count'',
     co_help = ''Kafka producer message publish errors by error type.'',
     co_labels = [''kafka_instance'', ''topic'', ''partition'', ''app'', ''error_type''] \<rparr>"

section \<open>Registration\<close>

type_synonym 'r registering = "collector \<Rightarrow> 'r \<Rightarrow> register_answer \<times> 'r"

text \<open>\<open>MustRegister\<close> panics on every error, the functions of the packages only on errors other than
  \<open>AlreadyRegisteredError\<close>.\<close>

definition must_register :: "'r registering \<Rightarrow> collector \<Rightarrow> 'r \<Rightarrow> string option \<times> 'r" where
  "must_register reg c r =
     (case reg c r of
        (Registered, r) \<Rightarrow> (None, r)
      | (Already_Registered, r) \<Rightarrow> (Some ''duplicate metrics collector registration attempted'', r)
      | (Register_Failed e, r) \<Rightarrow> (Some e, r))"

definition register_on :: "'r registering \<Rightarrow> collector \<Rightarrow> 'r \<Rightarrow> string option \<times> 'r" where
  "register_on reg c r = (case reg c r of (answer, r) \<Rightarrow> (register_collector answer, r))"

definition register_kafka_collector :: "'r registering \<Rightarrow> collector \<Rightarrow> 'r \<Rightarrow> string option \<times> 'r" where
  "register_kafka_collector reg c r =
     (case reg c r of
        (Registered, r) \<Rightarrow> (None, r)
      | (Already_Registered, r) \<Rightarrow> (None, r)
      | (Register_Failed e, r) \<Rightarrow> (Some e, r))"

definition register_pprof_collector :: "'r registering \<Rightarrow> collector \<Rightarrow> 'r \<Rightarrow> string option \<times> 'r" where
  "register_pprof_collector reg c r =
     (case reg c r of
        (Registered, r) \<Rightarrow> (None, r)
      | (Already_Registered, r) \<Rightarrow> (None, r)
      | (Register_Failed e, r) \<Rightarrow> (Some e, r))"

text \<open>Statements one after the other, up to the first panic.\<close>

definition register_metric :: "'r registering \<Rightarrow> 'r \<Rightarrow> string option \<times> 'r" where
  "register_metric reg =
     chain_without_wrapper [register_on reg rpc_server_requests_total, register_on reg rpc_server_request_duration_seconds]"

definition register_consumer_metrics :: "'r registering \<Rightarrow> 'r \<Rightarrow> string option \<times> 'r" where
  "register_consumer_metrics reg =
     chain_without_wrapper [register_kafka_collector reg kafka_consume_duration_ms, register_kafka_collector reg kafka_consume_error_count]"

definition register_producer_metrics :: "'r registering \<Rightarrow> 'r \<Rightarrow> string option \<times> 'r" where
  "register_producer_metrics reg =
     chain_without_wrapper [register_kafka_collector reg kafka_produce_duration_ms, register_kafka_collector reg kafka_produce_error_count]"

text \<open>The flag of \<open>pprofInitOnce\<close> is set even if the registration panics.\<close>

definition init_pprof_server ::
  "'r registering \<Rightarrow> string \<Rightarrow> string \<Rightarrow> string \<Rightarrow> bool \<times> 'r \<Rightarrow> (string, dynamic_pprof) result \<times> (bool \<times> 'r)" where
  "init_pprof_server reg addr app_env dump_dir = (\<lambda>(once, r).
     if once then (Inr (new_dynamic_pprof addr app_env dump_dir), (once, r))
     else case register_pprof_collector reg pprof_dump_failures_total r of
       (Some p, r) \<Rightarrow> (Inl p, (True, r))
     | (None, r) \<Rightarrow> (Inr (new_dynamic_pprof addr app_env dump_dir), (True, r)))"

section \<open>Package initialisation\<close>

text \<open>Go runs \<open>init\<close> of every linked package once before \<open>main\<close>. \<open>service\<close> links \<open>infra\<close>; nothing in the
  repository links \<open>trace\<close>, which offers the same functions on its own.\<close>

definition infra_init :: "'r registering \<Rightarrow> 'r \<Rightarrow> string option \<times> 'r" where
  "infra_init reg = must_register reg infra_error_counter"

definition trace_init :: "'r registering \<Rightarrow> 'r \<Rightarrow> string option \<times> 'r" where
  "trace_init reg = must_register reg trace_error_counter"

section \<open>The contract of the registry\<close>

text \<open>The packages' registering functions are the same.\<close>

lemma register_copies: "register_kafka_collector = register_on" "register_pprof_collector = register_on"
  by (intro ext; simp add: register_kafka_collector_def register_pprof_collector_def register_on_def register_collector_def
      split: prod.split register_answer.split)+

text \<open>\<open>held r\<close> are the registered collectors. A collector with a new name is added; the registration of one
  whose name, help and labels are held already is answered as such. (A held name with another help or
  other labels is a different error.)\<close>

definition registry_ok :: "'r registering \<Rightarrow> ('r \<Rightarrow> collector set) \<Rightarrow> bool" where
  "registry_ok reg held \<longleftrightarrow>
     (\<forall>c r. (co_name c \<notin> co_name ` held r \<longrightarrow>
               fst (reg c r) = Registered \<and> held (snd (reg c r)) = insert c (held r)) \<and>
            (c \<in> held r \<longrightarrow> fst (reg c r) = Already_Registered \<and> held (snd (reg c r)) = held r))"

definition rpc_collectors :: "collector set" where
  "rpc_collectors = {rpc_server_requests_total, rpc_server_request_duration_seconds}"

definition consumer_collectors :: "collector set" where
  "consumer_collectors = {kafka_consume_duration_ms, kafka_consume_error_count}"

definition producer_collectors :: "collector set" where
  "producer_collectors = {kafka_produce_duration_ms, kafka_produce_error_count}"

definition own_collectors :: "collector set" where
  "own_collectors = {infra_error_counter, pprof_dump_failures_total} \<union> rpc_collectors \<union> consumer_collectors \<union> producer_collectors"

lemmas collector_defs =
  infra_error_counter_def trace_error_counter_def pprof_dump_failures_total_def rpc_server_requests_total_def
  rpc_server_request_duration_seconds_def kafka_consume_duration_ms_def kafka_consume_error_count_def
  kafka_produce_duration_ms_def kafka_produce_error_count_def

lemma own_names: "inj_on co_name own_collectors"
  by (simp add: own_collectors_def rpc_collectors_def consumer_collectors_def producer_collectors_def collector_defs)

text \<open>No other collector holds a name of the library.\<close>

definition names_free :: "collector set \<Rightarrow> bool" where
  "names_free cs \<longleftrightarrow> (\<forall>c \<in> cs. co_name c \<in> co_name ` own_collectors \<longrightarrow> c \<in> own_collectors)"

lemma registry_okD:
  assumes "registry_ok reg held" "reg c r = (a, r')"
  shows "co_name c \<notin> co_name ` held r \<Longrightarrow> a = Registered \<and> held r' = insert c (held r)"
    and "c \<in> held r \<Longrightarrow> a = Already_Registered \<and> held r' = held r"
  using assms unfolding registry_ok_def by (metis fst_conv snd_conv)+

lemma register_own:
  assumes "registry_ok reg held" "names_free (held r)" "c \<in> own_collectors" "register_on reg c r = (p, r')"
  shows "p = None" "held r' = insert c (held r)" "names_free (held r')"
proof -
  have "fst (reg c r) \<in> {Registered, Already_Registered} \<and> held (snd (reg c r)) = insert c (held r)"
  proof (cases "c \<in> held r")
    case True
    with assms(1) show ?thesis by (auto simp: registry_ok_def)
  next
    case False
    have "co_name c \<notin> co_name ` held r"
    proof
      assume "co_name c \<in> co_name ` held r"
      then obtain d where d: "d \<in> held r" "co_name d = co_name c" by auto
      then have "d \<in> own_collectors" using assms(2,3) by (auto simp: names_free_def)
      with d(2) assms(3) own_names have "d = c" by (auto dest: inj_onD)
      with d(1) False show False by simp
    qed
    with assms(1) show ?thesis by (auto simp: registry_ok_def)
  qed
  with assms(2-4) show "p = None" "held r' = insert c (held r)" "names_free (held r')"
    by (auto simp: register_on_def register_collector_def names_free_def split: prod.splits)
qed

lemma register_chain:
  assumes "registry_ok reg held" "names_free (held r)" "set cs \<subseteq> own_collectors"
    "chain_without_wrapper (map (register_on reg) cs) r = (p, r')"
  shows "p = None \<and> held r' = set cs \<union> held r \<and> names_free (held r')"
  using assms(2-)
proof (induction cs arbitrary: r)
  case (Cons c cs)
  obtain q r1 where step: "register_on reg c r = (q, r1)" by fastforce
  with register_own [OF assms(1) Cons.prems(1) _ step] Cons.IH [of r1] Cons.prems show ?case by auto
qed auto

section \<open>Every mix of components registers once\<close>

text \<open>What registers after initialisation: each metrics interceptor, consumer start and new producer, and the
  profiling server.\<close>

datatype metric_op = New_Metrics_Interceptor | Start_Consumer | New_Producer | Init_Pprof string string string

fun run_op :: "'r registering \<Rightarrow> metric_op \<Rightarrow> bool \<times> 'r \<Rightarrow> string option \<times> (bool \<times> 'r)" where
  "run_op reg New_Metrics_Interceptor (once, r) = (case register_metric reg r of (p, r) \<Rightarrow> (p, (once, r)))"
| "run_op reg Start_Consumer (once, r) = (case register_consumer_metrics reg r of (p, r) \<Rightarrow> (p, (once, r)))"
| "run_op reg New_Producer (once, r) = (case register_producer_metrics reg r of (p, r) \<Rightarrow> (p, (once, r)))"
| "run_op reg (Init_Pprof addr app_env dump_dir) s =
     (case init_pprof_server reg addr app_env dump_dir s of (Inl p, s) \<Rightarrow> (Some p, s) | (Inr m, s) \<Rightarrow> (None, s))"

fun collectors_of :: "metric_op \<Rightarrow> collector set" where
  "collectors_of New_Metrics_Interceptor = rpc_collectors"
| "collectors_of Start_Consumer = consumer_collectors"
| "collectors_of New_Producer = producer_collectors"
| "collectors_of (Init_Pprof addr app_env dump_dir) = {pprof_dump_failures_total}"

definition pprof_once :: "('r \<Rightarrow> collector set) \<Rightarrow> bool \<times> 'r \<Rightarrow> bool" where
  "pprof_once held s \<longleftrightarrow> (fst s \<longrightarrow> pprof_dump_failures_total \<in> held (snd s)) \<and> names_free (held (snd s))"

lemma collector_lists:
  "rpc_collectors = set [rpc_server_requests_total, rpc_server_request_duration_seconds]"
  "consumer_collectors = set [kafka_consume_duration_ms, kafka_consume_error_count]"
  "producer_collectors = set [kafka_produce_duration_ms, kafka_produce_error_count]"
  by (simp_all add: rpc_collectors_def consumer_collectors_def producer_collectors_def)

lemma register_groups:
  assumes "registry_ok reg held" "names_free (held r)"
  shows "register_metric reg r = (p, r') \<Longrightarrow> p = None \<and> held r' = rpc_collectors \<union> held r \<and> names_free (held r')"
    and "register_consumer_metrics reg r = (p, r') \<Longrightarrow> p = None \<and> held r' = consumer_collectors \<union> held r \<and> names_free (held r')"
    and "register_producer_metrics reg r = (p, r') \<Longrightarrow> p = None \<and> held r' = producer_collectors \<union> held r \<and> names_free (held r')"
proof -
  have own: "rpc_collectors \<subseteq> own_collectors" "consumer_collectors \<subseteq> own_collectors" "producer_collectors \<subseteq> own_collectors"
    by (auto simp: own_collectors_def)
  note sets = collector_lists
  show "p = None \<and> held r' = rpc_collectors \<union> held r \<and> names_free (held r')" if "register_metric reg r = (p, r')"
    unfolding sets by (rule register_chain [OF assms own(1) [unfolded sets]])
      (use that in \<open>simp only: register_metric_def list.map\<close>)
  show "p = None \<and> held r' = consumer_collectors \<union> held r \<and> names_free (held r')" if "register_consumer_metrics reg r = (p, r')"
    unfolding sets by (rule register_chain [OF assms own(2) [unfolded sets]])
      (use that in \<open>simp only: register_consumer_metrics_def register_copies list.map\<close>)
  show "p = None \<and> held r' = producer_collectors \<union> held r \<and> names_free (held r')" if "register_producer_metrics reg r = (p, r')"
    unfolding sets by (rule register_chain [OF assms own(3) [unfolded sets]])
      (use that in \<open>simp only: register_producer_metrics_def register_copies list.map\<close>)
qed

lemma run_op_registers:
  assumes "registry_ok reg held" "pprof_once held s" "run_op reg op s = (p, s')"
  shows "p = None \<and> held (snd s') = collectors_of op \<union> held (snd s) \<and> pprof_once held s'"
proof -
  obtain once r where s: "s = (once, r)" by fastforce
  then have free: "names_free (held r)" using assms(2) by (simp add: pprof_once_def)
  show ?thesis
  proof (cases op)
    case (Init_Pprof addr app_env dump_dir)
    have own: "pprof_dump_failures_total \<in> own_collectors" by (simp add: own_collectors_def)
    obtain q r1 where reg: "register_on reg pprof_dump_failures_total r = (q, r1)" by fastforce
    note new = register_own [OF assms(1) free own reg]
    show ?thesis
    proof (cases once)
      case True
      with assms(2,3) s Init_Pprof show ?thesis by (auto simp: init_pprof_server_def register_copies pprof_once_def)
    next
      case False
      with assms(3) s Init_Pprof reg new(1) have "p = None" "s' = (True, r1)" by (simp_all add: init_pprof_server_def register_copies)
      with new(2,3) s Init_Pprof show ?thesis by (simp add: pprof_once_def)
    qed
  next
    case New_Metrics_Interceptor
    obtain q r1 where reg: "register_metric reg r = (q, r1)" by fastforce
    note new = register_groups(1) [OF assms(1) free reg]
    from assms(3) s New_Metrics_Interceptor reg have "p = q" "s' = (once, r1)" by simp_all
    with new assms(2) s New_Metrics_Interceptor show ?thesis by (auto simp: pprof_once_def)
  next
    case Start_Consumer
    obtain q r1 where reg: "register_consumer_metrics reg r = (q, r1)" by fastforce
    note new = register_groups(2) [OF assms(1) free reg]
    from assms(3) s Start_Consumer reg have "p = q" "s' = (once, r1)" by simp_all
    with new assms(2) s Start_Consumer show ?thesis by (auto simp: pprof_once_def)
  next
    case New_Producer
    obtain q r1 where reg: "register_producer_metrics reg r = (q, r1)" by fastforce
    note new = register_groups(3) [OF assms(1) free reg]
    from assms(3) s New_Producer reg have "p = q" "s' = (once, r1)" by simp_all
    with new assms(2) s New_Producer show ?thesis by (auto simp: pprof_once_def)
  qed
qed

lemma run_ops_register:
  assumes "registry_ok reg held" "pprof_once held s" "chain_without_wrapper (map (run_op reg) ops) s = (p, s')"
  shows "p = None \<and> held (snd s') = held (snd s) \<union> (\<Union>op \<in> set ops. collectors_of op)"
  using assms(2-)
proof (induction ops arbitrary: s)
  case (Cons op ops)
  obtain q s1 where step: "run_op reg op s = (q, s1)" by (cases "run_op reg op s")
  with run_op_registers [OF assms(1) Cons.prems(1) step] Cons.IH [of s1] Cons.prems(2) show ?case by auto
qed simp

text \<open>C25: any mix of the library's components can be created, in any order and number, without a panic over
  metrics: if no foreign collector holds one of their names, initialisation and every later registration
  succeed, and the registry holds exactly one collector for each kind of component created.\<close>

theorem registrations_never_panic:
  assumes "registry_ok reg held" "names_free (held r)" "co_name infra_error_counter \<notin> co_name ` held r"
    and "infra_init reg r = (p0, r0)" "chain_without_wrapper (map (run_op reg) ops) (False, r0) = (p, (once, r'))"
  shows "p0 = None \<and> p = None \<and>
    held r' = insert infra_error_counter (held r \<union> (\<Union>op \<in> set ops. collectors_of op))"
proof -
  have "fst (reg infra_error_counter r) = Registered" "held (snd (reg infra_error_counter r)) = insert infra_error_counter (held r)"
    using assms(1,3) by (auto simp: registry_ok_def)
  with assms(4) have init: "p0 = None" "held r0 = insert infra_error_counter (held r)"
    by (auto simp: infra_init_def must_register_def split: prod.splits register_answer.splits)
  then have "pprof_once held (False, r0)"
    using assms(2) by (auto simp: pprof_once_def names_free_def own_collectors_def)
  from run_ops_register [OF assms(1) this assms(5)] init show ?thesis by simp
qed

text \<open>A registry for the witnesses.\<close>

definition demo_reg :: "collector list registering" where
  "demo_reg c r =
     (if c \<in> set r then (Already_Registered, r)
      else if co_name c \<in> co_name ` set r then (Register_Failed ''inconsistent'', r)
      else (Registered, c # r))"

lemma demo_registry: "registry_ok demo_reg set"
  by (auto simp: registry_ok_def demo_reg_def)

theorem registrations_never_panic_witness:
  "set [rpc_server_request_duration_seconds, rpc_server_requests_total, infra_error_counter] =
   insert infra_error_counter (set [] \<union> (\<Union>op \<in> set [New_Metrics_Interceptor, New_Metrics_Interceptor]. collectors_of op))"
proof -
  have d: "rpc_server_request_duration_seconds \<noteq> rpc_server_requests_total" "rpc_server_requests_total \<noteq> infra_error_counter"
    "rpc_server_request_duration_seconds \<noteq> infra_error_counter" "co_name rpc_server_requests_total \<noteq> co_name infra_error_counter"
    "co_name rpc_server_request_duration_seconds \<noteq> co_name infra_error_counter"
    "co_name rpc_server_request_duration_seconds \<noteq> co_name rpc_server_requests_total"
    by (simp_all add: collector_defs)
  let ?r = "[rpc_server_request_duration_seconds, rpc_server_requests_total, infra_error_counter]"
  have i: "infra_init demo_reg [] = (None, [infra_error_counter])"
    by (simp add: infra_init_def must_register_def demo_reg_def)
  have o1: "register_metric demo_reg [infra_error_counter] = (None, ?r)"
    using d by (simp add: register_metric_def register_on_def register_collector_def demo_reg_def)
  have o2: "register_metric demo_reg ?r = (None, ?r)"
    by (simp add: register_metric_def register_on_def register_collector_def demo_reg_def)
  have run: "chain_without_wrapper (map (run_op demo_reg) [New_Metrics_Interceptor, New_Metrics_Interceptor]) (False, [infra_error_counter]) =
      (None, (False, ?r))"
    by (simp add: o1 o2)
  have "names_free (set [])" "co_name infra_error_counter \<notin> co_name ` set []" by (simp_all add: names_free_def)
  from registrations_never_panic [OF demo_registry this i run] show ?thesis by simp
qed

text \<open>The packages \<open>infra\<close> and \<open>trace\<close> cannot be linked into one program: both register the same
  collector with \<open>MustRegister\<close>, so whichever is initialised second panics before \<open>main\<close> runs.\<close>

lemma trace_packages_clash:
  assumes "registry_ok reg held" "co_name infra_error_counter \<notin> co_name ` held r"
    and "order \<in> {[infra_init reg, trace_init reg], [trace_init reg, infra_init reg]}"
  shows "fst (chain_without_wrapper order r) = Some ''duplicate metrics collector registration attempted''"
proof -
  have same: "trace_error_counter = infra_error_counter" by (simp add: collector_defs)
  obtain a r1 where 1: "reg infra_error_counter r = (a, r1)" by fastforce
  obtain b r2 where 2: "reg infra_error_counter r1 = (b, r2)" by fastforce
  from registry_okD(1) [OF assms(1) 1 assms(2)] registry_okD(2) [OF assms(1) 2]
  have "a = Registered" "b = Already_Registered" by simp_all
  with assms(3) 1 2 show ?thesis
    by (auto simp: infra_init_def trace_init_def must_register_def same)
qed

lemma trace_packages_clash_witness:
  "fst (chain_without_wrapper [infra_init demo_reg, trace_init demo_reg] []) =
     Some ''duplicate metrics collector registration attempted''"
  by (rule trace_packages_clash [OF demo_registry]) simp_all

end
