(* ===== verification/Startup.thy ===== *)
theory Startup
  imports Service
begin

text \<open>
  \<open>Service.Run\<close> on a configuration file: the bootstrap of \<open>service/setup.go\<close> on the loader of \<open>config/config.go\<close>
  and the instance choice. What the outside answers is left to parameters: reading the file, parsing TOML, the
  decoder, the clients. The second half models \<open>serve\<close> with the goroutine of the HTTP server.
\<close>

section \<open>Run on a file\<close>

definition file_ops ::
  "'v boot_ops \<Rightarrow> (string \<Rightarrow> (string, string) result) \<Rightarrow> (string \<Rightarrow> (string, 'v table option) result) \<Rightarrow>
   ('v table \<Rightarrow> 'v app_config \<Rightarrow> 'v app_config \<times> (string, string list) result) \<Rightarrow> 'v boot_ops" where
  "file_ops ops read_file unmarshal decode = ops\<lparr> bo_load := load_config read_file unmarshal decode \<rparr>"

lemma file_ops_selectors:
  "bo_redis (file_ops ops read_file unmarshal decode) = bo_redis ops"
  "bo_mysql (file_ops ops read_file unmarshal decode) = bo_mysql ops"
  "bo_mysql_db (file_ops ops read_file unmarshal decode) = bo_mysql_db ops"
  "bo_sql_db (file_ops ops read_file unmarshal decode) = bo_sql_db ops"
  "bo_ping (file_ops ops read_file unmarshal decode) = bo_ping ops"
  by (simp_all add: file_ops_def)

text \<open>The specification: what connecting the configured instances comes to.\<close>

definition redis_target :: "'v app_config \<Rightarrow> (string list, redis_options option) result" where
  "redis_target cfg =
     (case select_bootstrap_instance (ac_redis cfg) of
        Inl names \<Rightarrow> Inl names
      | Inr None \<Rightarrow> Inr None
      | Inr (Some (name, inst)) \<Rightarrow>
          Inr (Some \<lparr> ro_addrs = [ri_addr inst @ '':'' @ itoa (ri_port inst)], ro_password = ri_password inst, ro_db = ri_db inst \<rparr>))"

definition mysql_target :: "'v app_config \<Rightarrow> (string list, (mysql_dsn \<times> bool) option) result" where
  "mysql_target cfg =
     (case select_bootstrap_instance (my_instances (ac_mysql cfg)) of
        Inl names \<Rightarrow> Inl names
      | Inr None \<Rightarrow> Inr None
      | Inr (Some (name, inst)) \<Rightarrow>
          Inr (Some (\<lparr> dsn_user = mi_username inst, dsn_password = mi_password inst, dsn_net = ''tcp'',
                       dsn_addr = mi_host inst @ '':'' @ itoa (mi_port inst), dsn_db = mi_database inst,
                       dsn_params = [(''charset'', ''utf8mb4'')], dsn_parse_time = True, dsn_local = True, dsn_native_passwords = True \<rparr>,
                     mi_ping_enabled inst)))"

definition redis_failure :: "'v boot_ops \<Rightarrow> 'v app_config \<Rightarrow> boot_error option" where
  "redis_failure ops cfg =
     (case redis_target cfg of
        Inl names \<Rightarrow> Some (Multiple_Instances ''redis'' names)
      | Inr None \<Rightarrow> None
      | Inr (Some opts) \<Rightarrow> map_option Client_Failed (bo_redis ops opts default_redis_timeout default_redis_retry))"

definition mysql_failure :: "'v boot_ops \<Rightarrow> 'v app_config \<Rightarrow> boot_error option" where
  "mysql_failure ops cfg =
     (case mysql_target cfg of
        Inl names \<Rightarrow> Some (Multiple_Instances ''mysql'' names)
      | Inr None \<Rightarrow> None
      | Inr (Some (dsn, ping)) \<Rightarrow>
          (case bo_mysql ops dsn of Some e \<Rightarrow> Some (Client_Failed e) | None \<Rightarrow>
           if \<not> bo_mysql_db ops then Some MySQL_Nil
           else case bo_sql_db ops of Some e \<Rightarrow> Some (Client_Failed e) | None \<Rightarrow>
             if ping then map_option Client_Failed (bo_ping ops) else None))"

definition target_event :: "('a \<Rightarrow> boot_event) \<Rightarrow> (string list, 'a option) result \<Rightarrow> boot_event list" where
  "target_event ev target = (case target of Inr (Some x) \<Rightarrow> [ev x] | _ \<Rightarrow> [])"

lemma connections_simps [simp]:
  "connections (event e b) = connections b @ (if connects e then [e] else [])"
  "connections (b\<lparr> b_routes := r, b_stop_pprof := t \<rparr>) = connections b"
  by (simp_all add: connections_def event_def)

lemma init_redis_spec:
  "fst (init_redis_client ops (Some cfg) b) = redis_failure ops cfg"
  "connections (snd (init_redis_client ops (Some cfg) b)) = connections b @ target_event (\<lambda>opts. Ev_Init_Redis opts default_redis_timeout default_redis_retry) (redis_target cfg)"
  by (auto simp: init_redis_client_def redis_failure_def redis_target_def target_event_def Let_def
      split: sum.split option.split prod.split)

lemma init_mysql_spec:
  "fst (init_mysql_client ops (Some cfg) b) = mysql_failure ops cfg"
  "connections (snd (init_mysql_client ops (Some cfg) b)) =
     connections b @ target_event (\<lambda>(dsn, ping). Ev_Init_MySQL dsn) (mysql_target cfg)"
  by (auto simp: init_mysql_client_def mysql_failure_def mysql_target_def target_event_def Let_def
      split: sum.split option.split prod.split)

lemma last_modules:
  assumes "b_cfg b = Some cfg"
  shows "fst (run_inits [kafka_module, metrics_module, pprof_module] b) = None \<and>
    connections (snd (run_inits [kafka_module, metrics_module, pprof_module] b)) = connections b"
proof -
  have k: "fst (init_kafka_client (Some cfg) b) = None" "connections (snd (init_kafka_client (Some cfg) b)) = connections b"
    "b_cfg (snd (init_kafka_client (Some cfg) b)) = Some cfg"
    using assms by (auto simp: init_kafka_client_def event_def connections_def)
  obtain b1 where b1: "m_init kafka_module b = (None, b1)" "connections b1 = connections b" "b_cfg b1 = Some cfg"
    using assms k by (cases "init_kafka_client (Some cfg) b") (simp add: kafka_module_def new_module_wrapper_def)
  obtain b2 where b2: "m_init metrics_module b1 = (None, b2)" "connections b2 = connections b" "b_cfg b2 = Some cfg"
    using b1 by (simp add: metrics_module_def new_module_wrapper_def) (simp add: event_def)
  have "connections (init_pprof cfg b2) = connections b" using b2(2) by (simp add: init_pprof_def Let_def)
  with b2 have "fst (m_init pprof_module b2) = None" "connections (snd (m_init pprof_module b2)) = connections b"
    by (simp_all add: pprof_module_def new_module_wrapper_def)
  then show ?thesis by (cases "m_init pprof_module b2") (simp add: b1(1) b2(1))
qed

definition client_outcome :: "'v boot_ops \<Rightarrow> 'v app_config \<Rightarrow> boot_error exec_error option" where
  "client_outcome ops cfg =
     (case redis_failure ops cfg of
        Some e \<Rightarrow> Some (Init_Failed ''redis'' e)
      | None \<Rightarrow> map_option (Init_Failed ''mysql'') (mysql_failure ops cfg))"

definition client_connections :: "'v boot_ops \<Rightarrow> 'v app_config \<Rightarrow> boot_event list" where
  "client_connections ops cfg =
     target_event (\<lambda>opts. Ev_Init_Redis opts default_redis_timeout default_redis_retry) (redis_target cfg) @
     (if redis_failure ops cfg = None then target_event (\<lambda>(dsn, ping). Ev_Init_MySQL dsn) (mysql_target cfg) else [])"

lemma client_modules:
  assumes "up cfg tr b" "connections b = []"
  shows "fst (run_inits [redis_module ops, mysql_module ops, kafka_module, metrics_module, pprof_module] b) = client_outcome ops cfg"
    and "connections (snd (run_inits [redis_module ops, mysql_module ops, kafka_module, metrics_module, pprof_module] b)) =
      client_connections ops cfg"
proof -
  have cfg: "b_cfg b = Some cfg" using assms(1) by (simp add: up_def)
  obtain r1 b1 where m1: "init_redis_client ops (Some cfg) b = (r1, b1)" by fastforce
  then have i1: "m_init (redis_module ops) b = (r1, b1)" using cfg by (simp add: redis_module_def new_module_wrapper_def)
  have up1: "up cfg tr b1" using rest_keeps_up [of "redis_module ops" ops cfg tr b] assms(1) i1 by simp
  then have cfg1: "b_cfg b1 = Some cfg" by (simp add: up_def)
  have r1: "r1 = redis_failure ops cfg" "connections b1 = target_event (\<lambda>opts. Ev_Init_Redis opts default_redis_timeout default_redis_retry) (redis_target cfg)"
    using init_redis_spec [of ops cfg b] m1 assms(2) by simp_all
  obtain r2 b2 where m2: "init_mysql_client ops (Some cfg) b1 = (r2, b2)" by fastforce
  then have i2: "m_init (mysql_module ops) b1 = (r2, b2)" using cfg1 by (simp add: mysql_module_def new_module_wrapper_def)
  have up2: "up cfg tr b2" using rest_keeps_up [of "mysql_module ops" ops cfg tr b1] up1 i2 by simp
  have r2: "r2 = mysql_failure ops cfg" "connections b2 = connections b1 @ target_event (\<lambda>(dsn, ping). Ev_Init_MySQL dsn) (mysql_target cfg)"
    using init_mysql_spec [of ops cfg b1] m2 by simp_all
  have last: "fst (run_inits [kafka_module, metrics_module, pprof_module] b2) = None"
    "connections (snd (run_inits [kafka_module, metrics_module, pprof_module] b2)) = connections b2"
    using last_modules [of b2 cfg] up2 by (simp_all add: up_def)
  have names: "trim_space (m_name (redis_module ops)) = ''redis''" "trim_space (m_name (mysql_module ops)) = ''mysql''"
    by (simp_all add: redis_module_def mysql_module_def new_module_wrapper_def module_names)
  let ?last = "[kafka_module, metrics_module, pprof_module]"
  have run: "run_inits (redis_module ops # mysql_module ops # ?last) b =
      (case redis_failure ops cfg of Some e \<Rightarrow> (Some (Init_Failed ''redis'' e), b1)
       | None \<Rightarrow> (case mysql_failure ops cfg of Some e \<Rightarrow> (Some (Init_Failed ''mysql'' e), b2) | None \<Rightarrow> run_inits ?last b2))"
    unfolding run_inits.simps(2) [of "redis_module ops"] run_inits.simps(2) [of "mysql_module ops"] i1 i2 r1(1) r2(1) names
      prod.case ..
  show "fst (run_inits [redis_module ops, mysql_module ops, kafka_module, metrics_module, pprof_module] b) = client_outcome ops cfg"
    unfolding run using last(1) by (simp add: client_outcome_def del: run_inits.simps split: option.split)
  show "connections (snd (run_inits [redis_module ops, mysql_module ops, kafka_module, metrics_module, pprof_module] b)) =
      client_connections ops cfg"
    unfolding run using r1(2) r2(2) last(2) by (auto simp: client_connections_def simp del: run_inits.simps split: option.split)
qed

lemma later_connections [simp]:
  "connections (serve b) = connections b" "connections (run_defers b) = connections b"
  by (simp_all add: serve_def run_defers_def Let_def)

lemma run_result:
  "fst (run_service (file_ops ops read_file unmarshal decode) [] env) =
     (case load_config read_file unmarshal decode (resolve_app_config_path env) of
        Inl err \<Rightarrow> Some (Init_Failed ''config'' (Config_Failed err))
      | Inr cfg \<Rightarrow> client_outcome ops cfg) \<and>
   connections (snd (run_service (file_ops ops read_file unmarshal decode) [] env)) =
     (case load_config read_file unmarshal decode (resolve_app_config_path env) of
        Inl err \<Rightarrow> []
      | Inr cfg \<Rightarrow> client_connections ops cfg)"
proof -
  let ?ops = "file_ops ops read_file unmarshal decode"
  have load: "bo_load ?ops = load_config read_file unmarshal decode" by (simp add: file_ops_def)
  show ?thesis
  proof (cases "load_config read_file unmarshal decode (resolve_app_config_path env)")
    case (Inl err)
    have "run_service ?ops [] env = (Some (Init_Failed ''config'' (Config_Failed err)),
        (new_boot env)\<lparr> b_events := [Ev_Init_Log (log_file env) (err_file env) info_level,
          Ev_Log ''failed to load app config'', Ev_Log_Sync] \<rparr>)"
      by (rule config_failure_stops_startup) (simp only: load Inl)
    with Inl show ?thesis by (simp add: connections_def)
  next
    case (Inr cfg)
    obtain tr b where b: "up cfg tr b" "connections b = []" "execute (build_default_init_modules ?ops) (new_boot env) =
        run_inits [redis_module ?ops, mysql_module ?ops, kafka_module, metrics_module, pprof_module] b"
      using first_modules_up [of ?ops env cfg] Inr load by auto
    have f: "redis_failure ?ops = redis_failure ops" "mysql_failure ?ops = mysql_failure ops"
      unfolding fun_eq_iff redis_failure_def mysql_failure_def file_ops_selectors by simp_all
    have same: "client_outcome ?ops = client_outcome ops" "client_connections ?ops = client_connections ops"
      unfolding fun_eq_iff client_outcome_def client_connections_def f by simp_all
    obtain r c where rc: "run_inits [redis_module ?ops, mysql_module ?ops, kafka_module, metrics_module, pprof_module] b = (r, c)"
      by fastforce
    with client_modules [OF b(1,2), of ?ops] have "r = client_outcome ops cfg" "connections c = client_connections ops cfg"
      by (simp_all add: same)
    with Inr b(3) rc show ?thesis by (simp add: run_service_def split: option.split)
  qed
qed

text \<open>C9: what \<open>Run\<close>, without modules of the caller, does with a configuration file. It panics with the load error if the file cannot be loaded, else
  with the error of the Redis client, else with that of the SQL client, and serves otherwise; it connects to
  exactly the instances the file selects, Redis first, and to nothing before the file is known to be valid.\<close>

theorem run_outcome:
  "fst (run_service (file_ops ops read_file unmarshal decode) [] env) =
     (case load_config read_file unmarshal decode (resolve_app_config_path env) of
        Inl err \<Rightarrow> Some (Init_Failed ''config'' (Config_Failed err))
      | Inr cfg \<Rightarrow> client_outcome ops cfg) \<and>
   connections (snd (run_service (file_ops ops read_file unmarshal decode) [] env)) =
     (case load_config read_file unmarshal decode (resolve_app_config_path env) of
        Inl err \<Rightarrow> []
      | Inr cfg \<Rightarrow> client_connections ops cfg)"
  by (rule run_result)

text \<open>\<open>Run\<close> serves exactly if the file can be read and parsed, decodes without an error or an unused key, is
  valid once normalized, and the instances it selects answer.\<close>

lemma run_serves_iff:
  "fst (run_service (file_ops ops read_file unmarshal decode) [] env) = None \<longleftrightarrow>
     (\<exists>body m cfg. read_file (resolve_app_config_path env) = Inr body \<and> unmarshal body = Inr m \<and>
        decode (entries m) (initial_app_config (entries m)) = (cfg, Inr []) \<and> valid_config (normalize_config cfg) \<and>
        redis_failure ops (normalize_config cfg) = None \<and> mysql_failure ops (normalize_config cfg) = None)"
proof -
  let ?path = "resolve_app_config_path env"
  have load: "load_config read_file unmarshal decode ?path = Inr cfg \<longleftrightarrow>
      (\<exists>body m cfg0. read_file ?path = Inr body \<and> unmarshal body = Inr m \<and>
        decode (entries m) (initial_app_config (entries m)) = (cfg0, Inr []) \<and> cfg = normalize_config cfg0 \<and> valid_config cfg)" for cfg
    by (cases "read_file ?path") (simp_all add: load_config_def load_from_bytes_iff)
  have "fst (run_service (file_ops ops read_file unmarshal decode) [] env) = None \<longleftrightarrow>
      (\<exists>cfg. load_config read_file unmarshal decode ?path = Inr cfg \<and> client_outcome ops cfg = None)"
    unfolding run_result [THEN conjunct1] by (simp split: sum.split)
  also have "\<dots> \<longleftrightarrow> (\<exists>cfg. load_config read_file unmarshal decode ?path = Inr cfg \<and>
      redis_failure ops cfg = None \<and> mysql_failure ops cfg = None)"
    by (auto simp: client_outcome_def split: option.splits)
  finally show ?thesis unfolding load by blast
qed

section \<open>Serving\<close>

text \<open>\<open>serve\<close> has two threads: the caller, which waits for the context, and the goroutine of \<open>ListenAndServe\<close>. Each
  step is what one of them does between waits, or the cancellation of the context; the answers of the HTTP library
  are free.\<close>

datatype serve_main = Waiting | Stopping | Served

datatype listener = Listening | Server_Down | Server_Closed

record serve_state =
  vs_cancelled :: bool
  vs_main :: serve_main
  vs_listener :: listener
  vs_pprof_on :: bool
  vs_log :: "(level \<times> string) list"

inductive serve_step :: "serve_state \<Rightarrow> serve_state \<Rightarrow> bool" where
  cancel: "serve_step s (s\<lparr> vs_cancelled := True \<rparr>)"
| listener_fails: "vs_listener s = Listening \<Longrightarrow>
    serve_step s (s\<lparr> vs_listener := Server_Down, vs_log := vs_log s @ [(error_level, ''server down'')] \<rparr>)"
| listener_closed: "vs_listener s = Listening \<Longrightarrow> vs_main s \<noteq> Waiting \<Longrightarrow>
    serve_step s (s\<lparr> vs_listener := Server_Closed, vs_log := vs_log s @ [(info_level, ''server graceful shutdown'')] \<rparr>)"
| context_done: "vs_main s = Waiting \<Longrightarrow> vs_cancelled s \<Longrightarrow>
    serve_step s (s\<lparr> vs_main := Stopping, vs_log := vs_log s @ [(info_level, ''shutting down server'')] \<rparr>)"
| shutdown: "vs_main s = Stopping \<Longrightarrow>
    serve_step s (s\<lparr> vs_main := Served, vs_pprof_on := False,
      vs_log := vs_log s @ (if failed then [(error_level, ''failed to shutdown'')] else []) \<rparr>)"

definition serve_init :: "bool \<Rightarrow> serve_state" where
  "serve_init stop_pprof =
     \<lparr> vs_cancelled = False, vs_main = Waiting, vs_listener = Listening, vs_pprof_on = stop_pprof,
       vs_log = [(info_level, ''server up'')] \<rparr>"

definition waits_for_context :: "serve_state \<Rightarrow> bool" where
  "waits_for_context s \<longleftrightarrow> vs_cancelled s \<or> vs_main s = Waiting"

lemma serve_step_waits: "serve_step s t \<Longrightarrow> waits_for_context s \<Longrightarrow> waits_for_context t"
  by (induction rule: serve_step.induct) (auto simp: waits_for_context_def)

interpretation serving: preserved serve_step waits_for_context
  by unfold_locales (rule serve_step_waits)

text \<open>A server that cannot listen, for example because its address is in use, is not noticed: the listener can be
  down from the start, and yet in every later state \<open>serve\<close> waits until its context is done.\<close>

lemma serve_outlives_listener:
  "\<exists>s. serve_step\<^sup>*\<^sup>* (serve_init stop_pprof) s \<and> vs_listener s = Server_Down \<and>
     (\<forall>t. serve_step\<^sup>*\<^sup>* s t \<longrightarrow> vs_cancelled t \<or> vs_main t = Waiting)"
proof -
  let ?s = "(serve_init stop_pprof)\<lparr> vs_listener := Server_Down, vs_log := vs_log (serve_init stop_pprof) @ [(error_level, ''server down'')] \<rparr>"
  have "serve_step (serve_init stop_pprof) ?s" by (rule listener_fails) (simp add: serve_init_def)
  moreover have "waits_for_context ?s" by (simp add: waits_for_context_def serve_init_def)
  ultimately show ?thesis
    using serving.run_preserves unfolding waits_for_context_def by (intro exI [of _ ?s]) auto
qed

text \<open>Once the context is done, \<open>serve\<close> can always finish, with the dynamic profiling stopped.\<close>

lemma serve_can_finish:
  assumes "vs_cancelled s" "vs_main s \<noteq> Served"
  shows "\<exists>t. serve_step\<^sup>*\<^sup>* s t \<and> vs_main t = Served \<and> \<not> vs_pprof_on t"
proof -
  have stop: "\<exists>t. serve_step u t \<and> vs_main t = Served \<and> \<not> vs_pprof_on t" if "vs_main u = Stopping" for u
    using shutdown [OF that, of False] by fastforce
  show ?thesis
  proof (cases "vs_main s")
    case Waiting
    with assms(1) have "serve_step s (s\<lparr> vs_main := Stopping, vs_log := vs_log s @ [(info_level, ''shutting down server'')] \<rparr>)"
      by (rule context_done [rotated])
    with stop [of "s\<lparr> vs_main := Stopping, vs_log := vs_log s @ [(info_level, ''shutting down server'')] \<rparr>"] show ?thesis
      by (auto intro: converse_rtranclp_into_rtranclp)
  qed (use assms(2) stop [of s] in auto)
qed

end
