(* ===== verification/Rpc_Report.thy ===== *)
theory Rpc_Report
  imports Interceptors
begin

text \<open>
  \<open>PrintRpcCounter\<close> of \<open>interceptor/counter.go\<close>: the loop that reports the call counters until its context is
  done. The loop ends only when the context does, so it is an option, with \<open>None\<close> for a loop that runs forever.
  Parameters: \<open>fin\<close> says whether the context is done in a world, \<open>sleep\<close> is the effect of waiting for the interval,
  \<open>counters\<close> the entries of the counter map in the order of one iteration.
\<close>

datatype counter_log = Counters "(string \<times> 64 word) list" | Counter_Done

partial_function (option) print_rpc_counter ::
  "('w \<Rightarrow> bool) \<Rightarrow> ('w \<Rightarrow> 'w) \<Rightarrow> ('w \<Rightarrow> (string \<times> 64 word) list) \<Rightarrow> nat \<Rightarrow> 'w \<Rightarrow> counter_log list \<Rightarrow>
   ('w \<times> counter_log list) option" where
  "print_rpc_counter fin sleep counters topk w logs =
     (if fin w then Some (w, logs @ [Counter_Done])
      else let w = sleep w
           in print_rpc_counter fin sleep counters topk w (logs @ [Counters (rpc_counter_report (counters w) topk)]))"

definition reports_after ::
  "('w \<Rightarrow> 'w) \<Rightarrow> ('w \<Rightarrow> (string \<times> 64 word) list) \<Rightarrow> nat \<Rightarrow> 'w \<Rightarrow> nat \<Rightarrow> counter_log list" where
  "reports_after sleep counters topk w n =
     map (\<lambda>i. Counters (rpc_counter_report (counters ((sleep ^^ Suc i) w)) topk)) [0..<n]"

lemma reports_after_Suc:
  "reports_after sleep counters topk w (Suc n) =
     Counters (rpc_counter_report (counters (sleep w)) topk) # reports_after sleep counters topk (sleep w) n"
  by (simp add: reports_after_def upt_conv_Cons map_Suc_upt [symmetric] funpow_swap1 del: upt_Suc)

lemma print_rpc_counter_runs:
  assumes "fin ((sleep ^^ n) w)" "\<And>i. i < n \<Longrightarrow> \<not> fin ((sleep ^^ i) w)"
  shows "print_rpc_counter fin sleep counters topk w logs =
    Some ((sleep ^^ n) w, logs @ reports_after sleep counters topk w n @ [Counter_Done])"
  using assms
proof (induction n arbitrary: w logs)
  case 0
  then show ?case by (subst print_rpc_counter.simps) (simp add: reports_after_def)
next
  case (Suc n)
  have "\<not> fin w" using Suc.prems(2) [of 0] by simp
  moreover have "fin ((sleep ^^ n) (sleep w))" using Suc.prems(1) by (simp add: funpow_swap1)
  moreover have "\<not> fin ((sleep ^^ i) (sleep w))" if "i < n" for i
    using Suc.prems(2) [of "Suc i"] that by (simp add: funpow_swap1)
  ultimately show ?case
    by (subst print_rpc_counter.simps) (simp add: Suc.IH reports_after_Suc funpow_swap1 Let_def)
qed

lemma print_rpc_counter_ends:
  assumes ret: "print_rpc_counter fin sleep counters topk w logs = Some r"
  shows "\<exists>n. fin ((sleep ^^ n) w)"
proof (rule print_rpc_counter.raw_induct [where P = "\<lambda>fin sleep counters topk w logs r. \<exists>n. fin ((sleep ^^ n) w)", OF _ ret])
  fix f fin sleep counters topk w logs r
  assume IH: "\<And>fin sleep counters topk w logs r. f fin sleep counters topk w logs = Some r \<Longrightarrow> \<exists>n. fin ((sleep ^^ n) w)"
    and eq: "(if fin w then Some (w, logs @ [Counter_Done])
      else let w = sleep w in f fin sleep counters topk w (logs @ [Counters (rpc_counter_report (counters w) topk)])) = Some r"
  show "\<exists>n. fin ((sleep ^^ n) w)"
  proof (cases "fin w")
    case True
    then show ?thesis by (intro exI [of _ 0]) simp
  next
    case False
    with eq have "f fin sleep counters topk (sleep w)
        (logs @ [Counters (rpc_counter_report (counters (sleep w)) topk)]) = Some r" by (simp add: Let_def)
    then obtain n where "fin ((sleep ^^ n) (sleep w))" using IH by blast
    then show ?thesis by (intro exI [of _ "Suc n"]) (simp add: funpow_swap1)
  qed
qed

section \<open>The counting interceptor\<close>

text \<open>\<open>increment\<close> of \<open>NewLocalRpcCounter\<close>, for a call that runs alone: no other call stores the counter between
  its \<open>Load\<close> and its \<open>LoadOrStore\<close>.\<close>

definition increment :: "string \<Rightarrow> (string \<Rightarrow> 64 word option) \<Rightarrow> string \<Rightarrow> 64 word option" where
  "increment key m =
     (case m key of
        Some current \<Rightarrow> m(key \<mapsto> current + 1)
      | None \<Rightarrow> m(key \<mapsto> 0 + 1))"

definition local_rpc_counter ::
  "string \<Rightarrow> ('s \<Rightarrow> 'a \<times> 's) \<Rightarrow> (string \<Rightarrow> 64 word option) \<Rightarrow> 's \<Rightarrow> 'a \<times> (string \<Rightarrow> 64 word option) \<times> 's" where
  "local_rpc_counter procedure next m s =
     (let m = increment procedure m in case next s of (res, s) \<Rightarrow> (res, m, s))"

text \<open>Such a call is a run of the atomic steps, with one finished increment.\<close>

lemma increment_steps:
  "count_step\<^sup>*\<^sup>* c (counted key (c\<lparr> cs_map := increment key (cs_map c) \<rparr>))"
proof (cases "cs_map c key")
  case None
  let ?d = "c\<lparr> cs_missed := (cs_missed c)(key := Suc (cs_missed c key)) \<rparr>"
  have "count_step c ?d" using None by (rule load_miss)
  moreover have "count_step ?d (counted key (?d\<lparr> cs_missed := (cs_missed ?d)(key := cs_missed c key), cs_map := (cs_map ?d)(key := Some 1) \<rparr>))"
    by (rule store_new) (simp_all add: None)
  ultimately show ?thesis
    by (simp add: increment_def None counted_def fun_upd_idem)
next
  case (Some v)
  from load_hit [OF Some] show ?thesis by (simp add: increment_def Some r_into_rtranclp)
qed

section \<open>The loop ends with its context\<close>

text \<open>C31: the report loop returns exactly if its context is done at some poll. It then stops at the first such
  poll, so at most one interval after the cancellation, having logged one report for each poll before it and its
  end; and a context that is never done keeps it running.\<close>

theorem print_rpc_counter_terminates:
  "print_rpc_counter fin sleep counters topk w logs =
     (if \<exists>n. fin ((sleep ^^ n) w)
      then let n = (LEAST n. fin ((sleep ^^ n) w))
           in Some ((sleep ^^ n) w, logs @ reports_after sleep counters topk w n @ [Counter_Done])
      else None)"
proof (cases "\<exists>n. fin ((sleep ^^ n) w)")
  case True
  let ?n = "LEAST n. fin ((sleep ^^ n) w)"
  have "fin ((sleep ^^ ?n) w)" using True by (rule LeastI_ex)
  then have "print_rpc_counter fin sleep counters topk w logs =
      Some ((sleep ^^ ?n) w, logs @ reports_after sleep counters topk w ?n @ [Counter_Done])"
    by (rule print_rpc_counter_runs) (rule not_less_Least)
  then show ?thesis unfolding if_P [OF True] Let_def .
next
  case False
  have "print_rpc_counter fin sleep counters topk w logs = None"
  proof (rule ccontr)
    assume "print_rpc_counter fin sleep counters topk w logs \<noteq> None"
    then obtain r where "print_rpc_counter fin sleep counters topk w logs = Some r" by blast
    from print_rpc_counter_ends [OF this] False show False by blast
  qed
  then show ?thesis unfolding if_not_P [OF False] .
qed

end
