(* ===== verification/Log_Pool.thy ===== *)
theory Log_Pool
  imports Log_Core "HOL-Library.Multiset"
begin

text \<open>
  The pool of field slices of \<open>interceptor/req_rsp_logger.go\<close>, with its aliasing: a slice is an array and a length,
  \<open>borrowFields\<close> takes an array from the pool (or makes one) at length zero with its old cells in place,
  \<open>append\<close> writes the next cell or moves to a larger array, and \<open>releaseFields\<close> gives the array back. Requests run
  concurrently, so their steps interleave; \<open>sync.Pool\<close> may return any of its items and may drop items at any time.
  The logger reads the slice before \<open>Info\<close> or \<open>Error\<close> returns; what one request does (borrow, append, log if the
  call is reported, release) is one of the orders that the steps allow.
\<close>

section \<open>Slices in a store\<close>

record slice =
  sl_array :: nat
  sl_len :: nat

text \<open>\<open>fp_cells a\<close> are the written cells of array \<open>a\<close> and \<open>fp_cap a\<close> its capacity. \<open>fp_sent\<close>, for the statements only:
  what a request has appended since it borrowed; \<open>fp_logged\<close>: for each entry the fields that the logger read and
  those that the request had appended.\<close>

record 'c field_pool =
  fp_pool :: "nat multiset"
  fp_cells :: "nat \<Rightarrow> log_field list"
  fp_cap :: "nat \<Rightarrow> nat"
  fp_next :: nat
  fp_held :: "'c \<Rightarrow> slice option"
  fp_sent :: "'c \<Rightarrow> log_field list"
  fp_logged :: "('c \<times> log_field list \<times> log_field list) list"

definition slice_fields :: "'c field_pool \<Rightarrow> slice \<Rightarrow> log_field list" where
  "slice_fields s x = take (sl_len x) (fp_cells s (sl_array x))"

definition new_fields :: "'c field_pool \<Rightarrow> nat \<times> 'c field_pool" where
  "new_fields s = (fp_next s, s\<lparr> fp_next := Suc (fp_next s), fp_cells := (fp_cells s)(fp_next s := []),
     fp_cap := (fp_cap s)(fp_next s := 24) \<rparr>)"

definition hold :: "'c \<Rightarrow> nat \<Rightarrow> 'c field_pool \<Rightarrow> 'c field_pool" where
  "hold c a s = s\<lparr> fp_held := (fp_held s)(c := Some \<lparr> sl_array = a, sl_len = 0 \<rparr>), fp_sent := (fp_sent s)(c := []) \<rparr>"

text \<open>\<open>append\<close> of one field. The cells beyond the length keep what an earlier holder wrote.\<close>

definition append_field :: "'c \<Rightarrow> slice \<Rightarrow> log_field \<Rightarrow> nat \<Rightarrow> 'c field_pool \<Rightarrow> 'c field_pool" where
  "append_field c x f grown s =
     (let n = sl_len x; a = sl_array x;
          s = s\<lparr> fp_sent := (fp_sent s)(c := fp_sent s c @ [f]) \<rparr>
      in if n < fp_cap s a
         then s\<lparr> fp_cells := (fp_cells s)(a := take n (fp_cells s a) @ [f] @ drop (Suc n) (fp_cells s a)),
                 fp_held := (fp_held s)(c := Some (x\<lparr> sl_len := Suc n \<rparr>)) \<rparr>
         else s\<lparr> fp_cells := (fp_cells s)(fp_next s := take n (fp_cells s a) @ [f]),
                 fp_cap := (fp_cap s)(fp_next s := max grown (Suc n)), fp_next := Suc (fp_next s),
                 fp_held := (fp_held s)(c := Some \<lparr> sl_array = fp_next s, sl_len = Suc n \<rparr>) \<rparr>)"

definition release_fields :: "'c \<Rightarrow> slice \<Rightarrow> 'c field_pool \<Rightarrow> 'c field_pool" where
  "release_fields c x s = s\<lparr> fp_pool := add_mset (sl_array x) (fp_pool s), fp_held := (fp_held s)(c := None) \<rparr>"

text \<open>Any call may borrow a slice, append to one it holds, and release one it holds, in any order; the order of these
  steps in the interceptor is one of them. So what holds for all runs of the steps holds for the code's.\<close>

inductive pool_step :: "'c field_pool \<Rightarrow> 'c field_pool \<Rightarrow> bool" where
  borrow_pooled: "fp_held s c = None \<Longrightarrow> a \<in># fp_pool s \<Longrightarrow>
    pool_step s (hold c a (s\<lparr> fp_pool := fp_pool s - {#a#} \<rparr>))"
| borrow_new: "fp_held s c = None \<Longrightarrow> new_fields s = (a, t) \<Longrightarrow> pool_step s (hold c a t)"
| append_one: "fp_held s c = Some x \<Longrightarrow> pool_step s (append_field c x f grown s)"
| log_write: "fp_held s c = Some x \<Longrightarrow>
    pool_step s (s\<lparr> fp_logged := fp_logged s @ [(c, slice_fields s x, fp_sent s c)] \<rparr>)"
| release_one: "fp_held s c = Some x \<Longrightarrow> pool_step s (release_fields c x s)"
| drop_item: "pool_step s (s\<lparr> fp_pool := fp_pool s - {#a#} \<rparr>)"

definition pool_init :: "'c field_pool" where
  "pool_init = \<lparr> fp_pool = {#}, fp_cells = (\<lambda>_. []), fp_cap = (\<lambda>_. 0), fp_next = 0, fp_held = (\<lambda>_. None),
     fp_sent = (\<lambda>_. []), fp_logged = [] \<rparr>"

section \<open>Ownership\<close>

text \<open>Every array has one owner: the pool, once, or one request. A held slice reads what its request appended.\<close>

definition slice_ok :: "'c field_pool \<Rightarrow> 'c \<Rightarrow> slice \<Rightarrow> bool" where
  "slice_ok s c x \<longleftrightarrow>
     sl_array x < fp_next s \<and> sl_array x \<notin># fp_pool s \<and> slice_fields s x = fp_sent s c \<and> sl_len x = length (fp_sent s c)"

definition owned :: "'c field_pool \<Rightarrow> bool" where
  "owned s \<longleftrightarrow>
     (\<forall>a. count (fp_pool s) a \<le> 1) \<and> (\<forall>a \<in># fp_pool s. a < fp_next s) \<and>
     (\<forall>c x. fp_held s c = Some x \<longrightarrow> slice_ok s c x) \<and>
     (\<forall>c d x y. fp_held s c = Some x \<longrightarrow> fp_held s d = Some y \<longrightarrow> sl_array x = sl_array y \<longrightarrow> c = d) \<and>
     (\<forall>(c, seen, sent) \<in> set (fp_logged s). seen = sent)"

text \<open>A change that leaves the arrays of the other requests alone keeps their slices.\<close>

lemma slice_ok_frame:
  assumes "slice_ok s c x" "fp_next s \<le> fp_next t" "fp_cells t (sl_array x) = fp_cells s (sl_array x)"
    "fp_sent t c = fp_sent s c" "sl_array x \<in># fp_pool t \<Longrightarrow> sl_array x \<in># fp_pool s"
  shows "slice_ok t c x"
  using assms unfolding slice_ok_def slice_fields_def by auto

lemma owned_update:
  assumes own: "owned s" and next_: "fp_next s \<le> fp_next t"
    and pool: "\<And>a. count (fp_pool t) a \<le> 1" "\<And>a. a \<in># fp_pool t \<Longrightarrow> a < fp_next t"
    and others: "\<And>d y. d \<noteq> c \<Longrightarrow> fp_held t d = Some y \<Longrightarrow> fp_held s d = Some y \<and> fp_cells t (sl_array y) = fp_cells s (sl_array y) \<and>
      fp_sent t d = fp_sent s d \<and> (sl_array y \<in># fp_pool t \<longrightarrow> sl_array y \<in># fp_pool s)"
    and mine: "\<And>x. fp_held t c = Some x \<Longrightarrow> slice_ok t c x \<and> (\<forall>d y. d \<noteq> c \<longrightarrow> fp_held s d = Some y \<longrightarrow> sl_array y \<noteq> sl_array x)"
    and log: "fp_logged t = fp_logged s"
  shows "owned t"
  unfolding owned_def
proof (intro conjI allI impI ballI)
  fix d y assume d: "fp_held t d = Some y"
  show "slice_ok t d y"
  proof (cases "d = c")
    case False
    with others [OF this d] own next_ show ?thesis
      by (intro slice_ok_frame [of s d y t]) (auto simp: owned_def)
  qed (use d mine in simp)
next
  fix d e x y assume h: "fp_held t d = Some x" "fp_held t e = Some y" "sl_array x = sl_array y"
  show "d = e"
  proof (cases "d = c \<or> e = c")
    case True
    with h mine others show ?thesis by metis
  next
    case False
    with h others have "fp_held s d = Some x" "fp_held s e = Some y" by blast+
    with h(3) own show ?thesis unfolding owned_def by blast
  qed
qed (use pool own log in \<open>auto simp: owned_def\<close>)

lemma ownedD:
  assumes "owned s"
  shows "count (fp_pool s) a \<le> Suc 0" "a \<in># fp_pool s \<Longrightarrow> a < fp_next s" "fp_held s c = Some x \<Longrightarrow> slice_ok s c x"
    and "fp_held s c = Some x \<Longrightarrow> fp_held s d = Some y \<Longrightarrow> d \<noteq> c \<Longrightarrow> sl_array y \<noteq> sl_array x"
  using assms unfolding owned_def One_nat_def by blast+

lemma owned_hold:
  assumes own: "owned s" and a: "a < fp_next s" "a \<notin># fp_pool s" "\<And>d y. fp_held s d = Some y \<Longrightarrow> sl_array y \<noteq> a"
  shows "owned (hold c a s)"
  using a by (intro owned_update [OF own, where c = c])
    (auto simp: hold_def slice_ok_def slice_fields_def ownedD(1,2) [OF own] split: if_splits)

lemma owned_drop_item:
  assumes "owned s"
  shows "owned (s\<lparr> fp_pool := fp_pool s - {#a#} \<rparr>)"
proof -
  have "count (fp_pool s - {#a#}) b \<le> 1" for b using ownedD(1) [OF assms, of b] by simp
  moreover have "b < fp_next s" if "b \<in># fp_pool s - {#a#}" for b using that ownedD(2) [OF assms] by (meson in_diffD)
  moreover have "slice_ok (s\<lparr> fp_pool := fp_pool s - {#a#} \<rparr>) c x" if "fp_held s c = Some x" for c x
    using ownedD(3) [OF assms that] by (rule slice_ok_frame) (auto dest: in_diffD)
  ultimately show ?thesis using assms unfolding owned_def by auto
qed

lemma owned_append:
  assumes own: "owned s" and held: "fp_held s c = Some x"
  shows "owned (append_field c x f grown s)"
proof -
  let ?n = "sl_len x" and ?a = "sl_array x"
  have x: "?a < fp_next s" "?a \<notin># fp_pool s" "take ?n (fp_cells s ?a) = fp_sent s c" "?n = length (fp_sent s c)"
    using ownedD(3) [OF own held] by (auto simp: slice_ok_def slice_fields_def)
  then have len: "length (take ?n (fp_cells s ?a)) = ?n" by simp
  have other: "sl_array y \<noteq> ?a \<and> sl_array y < fp_next s" if "d \<noteq> c" "fp_held s d = Some y" for d y
    using ownedD(4) [OF own held that(2,1)] ownedD(3) [OF own that(2)] by (simp add: slice_ok_def)
  have fresh: "fp_next s \<notin># fp_pool s" using ownedD(2) [OF own] by blast
  show ?thesis
  proof (cases "?n < fp_cap s ?a")
    case True
    then show ?thesis
      using x len other by (intro owned_update [OF own, where c = c])
        (auto simp: append_field_def slice_ok_def slice_fields_def Let_def ownedD(1,2) [OF own] split: if_splits)
  next
    case False
    then show ?thesis
      using x len other fresh by (intro owned_update [OF own, where c = c])
        (fastforce simp: append_field_def slice_ok_def slice_fields_def Let_def ownedD(1) [OF own] less_SucI
          dest: ownedD(2) [OF own] split: if_splits)+
  qed
qed

lemma owned_release:
  assumes own: "owned s" and held: "fp_held s c = Some x"
  shows "owned (release_fields c x s)"
proof -
  have x: "sl_array x < fp_next s" "sl_array x \<notin># fp_pool s" using ownedD(3) [OF own held] by (simp_all add: slice_ok_def)
  then have "count (fp_pool s) (sl_array x) = 0" by (simp add: not_in_iff)
  moreover have "sl_array y \<noteq> sl_array x" if "d \<noteq> c" "fp_held s d = Some y" for d y
    using ownedD(4) [OF own held that(2,1)] .
  ultimately show ?thesis
    using x by (intro owned_update [OF own, where c = c])
      (auto simp: release_fields_def ownedD(1,2) [OF own] split: if_splits)
qed

lemma pool_step_owned:
  assumes "pool_step s t" "owned s"
  shows "owned t"
  using assms
proof cases
  case (borrow_pooled c a)
  have "a \<notin># fp_pool s - {#a#}"
    using ownedD(1) [OF assms(2), of a] by (auto simp: not_in_iff)
  moreover have "sl_array y \<noteq> a" if "fp_held s d = Some y" for d y
    using ownedD(3) [OF assms(2) that] borrow_pooled(3) by (auto simp: slice_ok_def)
  ultimately show ?thesis
    unfolding borrow_pooled(1) using borrow_pooled(3) ownedD(2) [OF assms(2)]
    by (intro owned_hold owned_drop_item [OF assms(2)]) auto
next
  case (borrow_new c a u)
  then have u: "u = s\<lparr> fp_next := Suc (fp_next s), fp_cells := (fp_cells s)(fp_next s := []), fp_cap := (fp_cap s)(fp_next s := 24) \<rparr>"
    and a: "a = fp_next s" by (auto simp: new_fields_def)
  have "owned u"
    unfolding u using borrow_new(2) ownedD(3) [OF assms(2)] by (intro owned_update [OF assms(2), where c = c])
      (fastforce simp: slice_ok_def ownedD(1) [OF assms(2)] less_SucI dest: ownedD(2) [OF assms(2)])+
  then show ?thesis
    unfolding borrow_new(1) using ownedD(2,3) [OF assms(2)]
    by (intro owned_hold) (fastforce simp: u a slice_ok_def)+
next
  case (append_one c x f grown)
  then show ?thesis by (simp add: owned_append [OF assms(2)])
next
  case (log_write c x)
  have "slice_fields s x = fp_sent s c" using ownedD(3) [OF assms(2) log_write(2)] by (simp add: slice_ok_def)
  moreover have "slice_ok (s\<lparr> fp_logged := l \<rparr>) = slice_ok s" for l
    by (simp add: fun_eq_iff slice_ok_def slice_fields_def)
  ultimately show ?thesis using assms(2) unfolding log_write(1) owned_def by simp
next
  case (release_one c x)
  then show ?thesis by (simp add: owned_release [OF assms(2)])
next
  case (drop_item a)
  then show ?thesis by (simp add: owned_drop_item [OF assms(2)])
qed

interpretation pool: preserved pool_step owned
  by unfold_locales (rule pool_step_owned)

text \<open>C19: pooled field slices are never shared. However requests borrow, append, log and release concurrently,
  every entry is logged with exactly the fields its own request appended, and at any time no array is held by two
  requests, or held and in the pool.\<close>

theorem pooled_fields_not_shared:
  assumes "pool_step\<^sup>*\<^sup>* pool_init s"
  shows "(\<forall>(c, seen, sent) \<in> set (fp_logged s). seen = sent) \<and>
    (\<forall>c d x y. fp_held s c = Some x \<and> fp_held s d = Some y \<and> sl_array x = sl_array y \<longrightarrow> c = d) \<and>
    (\<forall>c x. fp_held s c = Some x \<longrightarrow> sl_array x \<notin># fp_pool s)"
proof -
  have "owned pool_init" by (simp add: owned_def pool_init_def)
  with assms have "owned s" by (rule pool.run_preserves)
  then show ?thesis
  proof (intro conjI)
    show "\<forall>(c, seen, sent) \<in> set (fp_logged s). seen = sent" using \<open>owned s\<close> by (simp add: owned_def)
    show "\<forall>c d x y. fp_held s c = Some x \<and> fp_held s d = Some y \<and> sl_array x = sl_array y \<longrightarrow> c = d"
      using ownedD(4) [OF \<open>owned s\<close>] by metis
    show "\<forall>c x. fp_held s c = Some x \<longrightarrow> sl_array x \<notin># fp_pool s"
      using ownedD(3) [OF \<open>owned s\<close>] by (simp add: slice_ok_def)
  qed
qed

text \<open>One request logs and releases; the next one reuses its array.\<close>

definition demo_array :: "nat \<Rightarrow> nat \<Rightarrow> slice" where
  "demo_array a n = \<lparr> sl_array = a, sl_len = n \<rparr>"

definition demo_turn :: "nat \<Rightarrow> log_field \<Rightarrow> nat field_pool \<Rightarrow> nat field_pool" where
  "demo_turn c f s =
     (let s = append_field c (demo_array 0 0) f 0 s;
          s = s\<lparr> fp_logged := fp_logged s @ [(c, slice_fields s (demo_array 0 1), fp_sent s c)] \<rparr>
      in release_fields c (demo_array 0 1) s)"

lemma demo_turn_steps:
  assumes "fp_held s c = Some (demo_array 0 0)" "0 < fp_cap s 0"
  shows "pool_step\<^sup>*\<^sup>* s (demo_turn c f s)"
proof -
  let ?s1 = "append_field c (demo_array 0 0) f 0 s"
  have h: "fp_held ?s1 c = Some (demo_array 0 1)" using assms by (simp add: append_field_def demo_array_def Let_def)
  let ?s2 = "?s1\<lparr> fp_logged := fp_logged ?s1 @ [(c, slice_fields ?s1 (demo_array 0 1), fp_sent ?s1 c)] \<rparr>"
  have "pool_step s ?s1" by (rule append_one [OF assms(1)])
  moreover have "pool_step ?s1 ?s2" by (rule log_write [OF h])
  moreover have "pool_step ?s2 (demo_turn c f s)" unfolding demo_turn_def Let_def by (rule release_one) (simp add: h)
  ultimately show ?thesis by (meson rtranclp.rtrancl_into_rtrancl rtranclp.rtrancl_refl)
qed

definition demo_first :: "nat field_pool" where
  "demo_first = demo_turn 1 (field ''_resp'' (F_Bool True)) (hold 1 0 (snd (new_fields pool_init)))"

definition demo_second :: "nat field_pool" where
  "demo_second = demo_turn 2 (field ''_resp'' (F_Bool False)) (hold 2 0 (demo_first\<lparr> fp_pool := {#} \<rparr>))"

lemma demo_pool_run: "pool_step\<^sup>*\<^sup>* pool_init demo_second"
proof -
  have "pool_step pool_init (hold (1 :: nat) 0 (snd (new_fields pool_init)))"
    by (rule borrow_new) (simp_all add: pool_init_def new_fields_def)
  moreover have "pool_step\<^sup>*\<^sup>* (hold 1 0 (snd (new_fields pool_init))) demo_first"
    unfolding demo_first_def by (rule demo_turn_steps) (simp_all add: hold_def demo_array_def new_fields_def pool_init_def)
  moreover have first: "fp_held demo_first = (\<lambda>_. None)" "fp_pool demo_first = {#0#}" "0 < fp_cap demo_first 0"
    by (simp_all add: demo_first_def demo_turn_def append_field_def release_fields_def hold_def new_fields_def pool_init_def
        demo_array_def Let_def fun_eq_iff)
  moreover have "pool_step demo_first (hold 2 0 (demo_first\<lparr> fp_pool := {#} \<rparr>))"
    using borrow_pooled [of demo_first 2 0] first by simp
  moreover have "pool_step\<^sup>*\<^sup>* (hold 2 0 (demo_first\<lparr> fp_pool := {#} \<rparr>)) demo_second"
    unfolding demo_second_def by (rule demo_turn_steps) (simp_all add: hold_def demo_array_def first)
  ultimately show ?thesis by (meson rtranclp.rtrancl_into_rtrancl rtranclp_trans rtranclp.rtrancl_refl)
qed

theorem pooled_fields_not_shared_witness:
  "list_all (\<lambda>(c, seen, sent). seen = sent) (fp_logged demo_second) \<and> length (fp_logged demo_second) = 2"
proof -
  have "length (fp_logged demo_second) = 2"
    by (simp add: demo_second_def demo_first_def demo_turn_def append_field_def release_fields_def hold_def new_fields_def
        pool_init_def demo_array_def Let_def)
  with pooled_fields_not_shared [OF demo_pool_run] show ?thesis by (simp add: list_all_iff)
qed

end
