(* ===== verification/Background.thy ===== *)
theory Background
  imports Interceptors
begin

text \<open>
  The servers that run in goroutines beside the service: the metrics endpoint (\<open>infra/metric.go\<close>) and the static
  profiling server (\<open>InitGopprof\<close> in \<open>infra/pprof.go\<close>). \<open>listen\<close> is \<open>ListenAndServe\<close>, which blocks until it
  fails; its answer is the error, if any, or a panic. \<open>http.Handle\<close> panics on a pattern that is there already.
\<close>

section \<open>Routes\<close>

text \<open>The default mux and the flag of \<open>metricHandlerOnce\<close>; the result is a panic.\<close>

record web =
  wb_once :: bool
  wb_routes :: "string list"
  wb_telemetry :: telemetry

definition http_handle :: "string \<Rightarrow> web \<Rightarrow> string option \<times> web" where
  "http_handle route s =
     (if route \<in> set (wb_routes s) then (Some (''pattern conflict: '' @ route), s)
      else (None, s\<lparr> wb_routes := wb_routes s @ [route] \<rparr>))"

text \<open>\<open>sync.Once\<close> counts as done also when its function panics.\<close>

definition once_handle :: "string \<Rightarrow> web \<Rightarrow> string option \<times> web" where
  "once_handle route s = (if wb_once s then (None, s) else http_handle route (s\<lparr> wb_once := True \<rparr>))"

section \<open>The metrics endpoint\<close>

datatype listen_end = Listen_Returned "string option" | Listen_Panicked string

definition init_metric :: "(string \<Rightarrow> listen_end) \<Rightarrow> string \<Rightarrow> web \<Rightarrow> string option \<times> web" where
  "init_metric listen addr s =
     (let s = s\<lparr> wb_telemetry := log_at info_level ''starting prometheus'' [field ''addr'' (F_String addr)] (wb_telemetry s) \<rparr>
      in case once_handle ''/metrics'' s of
           (Some p, s) \<Rightarrow> (Some p, s)
         | (None, s) \<Rightarrow>
             (case listen addr of
                Listen_Returned None \<Rightarrow> (None, s)
              | Listen_Returned (Some e) \<Rightarrow>
                  (None, s\<lparr> wb_telemetry := log_at error_level ''failed to start prometheus''
                              [field ''error'' (F_Error e)] (wb_telemetry s) \<rparr>)
              | Listen_Panicked p \<Rightarrow> (Some p, s)))"

text \<open>The goroutine: \<open>utils.Go\<close> recovers.\<close>

definition init_metric_async :: "(string \<Rightarrow> listen_end) \<Rightarrow> string \<Rightarrow> web \<Rightarrow> string option \<times> web" where
  "init_metric_async listen addr s = go_safe (init_metric listen addr) s"

section \<open>The static profiling server\<close>

definition default_pprof_addr :: string where "default_pprof_addr = '':6060''"

definition pprof_routes :: "string list" where
  "pprof_routes = [''/debug/pprof/'', ''/debug/pprof/cmdline'', ''/debug/pprof/profile'', ''/debug/pprof/symbol'', ''/debug/pprof/trace'']"

definition new_pprof_serve_mux :: "string option \<times> web" where
  "new_pprof_serve_mux =
     fold (\<lambda>route (p, s). if p = None then http_handle route s else (p, s)) pprof_routes
       (None, \<lparr> wb_once = False, wb_routes = [], wb_telemetry = \<lparr> tl_spans = [], tl_entries = [] \<rparr> \<rparr>)"

text \<open>The goroutine's body, on the telemetry, with a mux of its own.\<close>

definition serve_gopprof :: "(string \<Rightarrow> listen_end) \<Rightarrow> string \<Rightarrow> telemetry \<Rightarrow> string option \<times> telemetry" where
  "serve_gopprof listen addr t =
     (case fst new_pprof_serve_mux of Some p \<Rightarrow> (Some p, t)
      | None \<Rightarrow>
          (case listen (str_or_default (trim_space addr) default_pprof_addr) of
             Listen_Returned None \<Rightarrow> (None, t)
           | Listen_Returned (Some e) \<Rightarrow> (None, log_at error_level ''failed to start static pprof'' [field ''error'' (F_Error e)] t)
           | Listen_Panicked p \<Rightarrow> (Some p, t)))"

definition init_gopprof :: "(string \<Rightarrow> listen_end) \<Rightarrow> string \<Rightarrow> telemetry \<Rightarrow> string option \<times> telemetry" where
  "init_gopprof listen addr t = go_safe (serve_gopprof listen addr) t"

section \<open>Laws\<close>

lemma http_handle_fresh: "route \<notin> set (wb_routes s) \<Longrightarrow> fst (http_handle route s) = None"
  by (simp add: http_handle_def)

definition endpoint_ready :: "web \<Rightarrow> bool" where
  "endpoint_ready s \<longleftrightarrow> distinct (wb_routes s) \<and> (wb_once s \<longleftrightarrow> ''/metrics'' \<in> set (wb_routes s))"

lemma init_metric_ready:
  assumes "endpoint_ready s"
  shows "endpoint_ready (snd (init_metric listen addr s))" "''/metrics'' \<in> set (wb_routes (snd (init_metric listen addr s)))"
    "(\<And>a p. listen a \<noteq> Listen_Panicked p) \<Longrightarrow> fst (init_metric listen addr s) = None"
  using assms
  by (auto simp: init_metric_def once_handle_def http_handle_def endpoint_ready_def Let_def
      split: listen_end.split option.split)

text \<open>However often the endpoint is started, and whatever becomes of its listeners, no goroutine panics and the
  route is registered exactly once.\<close>

lemma metrics_endpoint_once:
  assumes "endpoint_ready s" "runs \<noteq> []"
  shows "list_all (\<lambda>(listen, addr). \<forall>s. fst (init_metric_async listen addr s) = None) runs \<and>
    (let routes = wb_routes (fold (\<lambda>(listen, addr) s. snd (init_metric_async listen addr s)) runs s)
     in distinct routes \<and> ''/metrics'' \<in> set routes)"
proof -
  have async: "snd (init_metric_async listen addr s) = snd (init_metric listen addr s)" for listen addr s
    by (simp add: init_metric_async_def go_safe_def go_with_action_def split: prod.split option.split)
  have "endpoint_ready (fold (\<lambda>(listen, addr) s. snd (init_metric_async listen addr s)) runs s) \<and>
      (runs \<noteq> [] \<longrightarrow> ''/metrics'' \<in> set (wb_routes (fold (\<lambda>(listen, addr) s. snd (init_metric_async listen addr s)) runs s)))"
    using assms(1)
  proof (induction runs rule: rev_induct)
    case (snoc r runs)
    then show ?case by (cases r) (simp add: async init_metric_ready)
  qed simp
  with assms(2) show ?thesis
    by (auto simp: endpoint_ready_def init_metric_async_def go_safe_no_panic list_all_iff Let_def)
qed

text \<open>Neither server can keep a service from starting, and the profiling server listens somewhere.\<close>

lemma init_gopprof_no_panic: "fst (init_gopprof listen addr t) = None"
  by (simp add: init_gopprof_def go_safe_no_panic)

lemma new_pprof_serve_mux_ok: "fst new_pprof_serve_mux = None" "wb_routes (snd new_pprof_serve_mux) = pprof_routes"
  by code_simp+

end
