(* ===== verification/Kafka_Open.thy ===== *)
theory Kafka_Open
  imports Kafka Kafka_Start
begin

text \<open>
  \<open>KafkaConsumer.Start\<close> (\<open>kafka/consumer.go\<close>) before its threads, with its data: the client is created, the handler is
  checked and bound. \<open>new_group\<close> is \<open>sarama.NewConsumerGroup\<close> on a world of clients. Each outcome is the first
  step of \<open>Kafka_Start\<close>, and what follows a success are its threads.
\<close>

section \<open>Opening\<close>

record kafka_consumer =
  kc_brokers :: string
  kc_consumer_group :: string
  kc_topic :: string

datatype start_error = Group_Client_Failed string | Handler_Nil

text \<open>A successful opening hands the client, the bound wrapper and the two threads to what follows; \<open>ctx_done\<close>
  says whether the context is done already. On an error the deferred entry is written at once.\<close>

definition consumer_log :: "kafka_consumer \<Rightarrow> level \<Rightarrow> string \<Rightarrow> log_field list \<Rightarrow> telemetry \<Rightarrow> telemetry" where
  "consumer_log c lvl msg fs t =
     log_at lvl msg
       ([field ''brokers'' (F_String (kc_brokers c)), field ''consumer_group'' (F_String (kc_consumer_group c)),
         field ''topic'' (F_String (kc_topic c))] @ fs) t"

definition open_consumer ::
  "(string list \<Rightarrow> string \<Rightarrow> 'v \<Rightarrow> (string, 'cl) result \<times> 'v) \<Rightarrow> kafka_consumer \<Rightarrow> 'w consumer_wrapper option \<Rightarrow> bool \<Rightarrow>
   'v \<Rightarrow> telemetry \<Rightarrow> (start_error, 'cl \<times> 'w consumer_wrapper \<times> start_state) result \<times> 'v \<times> telemetry" where
  "open_consumer new_group c consumer ctx_done v t =
     (let t = consumer_log c info_level ''initializing kafka consumer'' [] t;
          down = consumer_log c info_level ''kafka consumer down'' []
      in case new_group (split_on CHR '','' (kc_brokers c)) (kc_consumer_group c) v of
           (Inl err, v) \<Rightarrow>
             (Inl (Group_Client_Failed err), v,
              down (consumer_log c error_level ''Error creating consumer group client'' [field ''error'' (F_Error err)] t))
         | (Inr client, v) \<Rightarrow>
             (case consumer of
                None \<Rightarrow> (Inl Handler_Nil, v, down t)
              | Some w \<Rightarrow> (Inr (client, bind_runtime (kc_consumer_group c) (kc_brokers c) w, opened_up (start_init True ctx_done)), v, t)))"

text \<open>The opening is the first step of \<open>Start\<close>, with the same messages.\<close>

lemma open_consumer_step:
  assumes "open_consumer new_group c consumer ctx_done v t = (res, v', t')"
  shows "\<exists>s. start_step (start_init (consumer \<noteq> None) ctx_done) s \<and>
    map (fst \<circ> snd) (tl_entries t') = map (fst \<circ> snd) (tl_entries t) @ st_log s \<and>
    (case res of Inl (Group_Client_Failed e) \<Rightarrow> st_main s = Returned_Start Client_Not_Created
     | Inl Handler_Nil \<Rightarrow> st_main s = Returned_Start No_Handler
     | Inr (client, w, s0) \<Rightarrow> s = s0)"
proof -
  let ?i = "start_init (consumer \<noteq> None) ctx_done"
  have "start_step ?i (not_created ?i)" "consumer = None \<Longrightarrow> start_step ?i (not_bound ?i)"
    "consumer \<noteq> None \<Longrightarrow> start_step ?i (opened_up ?i)"
    by (rule create_fails handler_nil client_opened; simp add: start_init_def)+
  note steps = this
  note defs = open_consumer_def consumer_log_def log_at_def start_init_def not_created_def not_bound_def opened_up_def say_def
  obtain r v1 where n: "new_group (split_on CHR '','' (kc_brokers c)) (kc_consumer_group c) v = (r, v1)" by fastforce
  show ?thesis
  proof (cases r)
    case (Inl e)
    with assms n show ?thesis by (intro exI [of _ "not_created ?i"] conjI steps(1)) (auto simp: defs)
  next
    case (Inr cl)
    show ?thesis
    proof (cases consumer)
      case None
      with assms n Inr show ?thesis by (intro exI [of _ "not_bound ?i"] conjI steps(2)) (auto simp: defs)
    next
      case (Some w)
      with assms n Inr show ?thesis by (intro exI [of _ "opened_up ?i"] conjI steps(3)) (auto simp: defs)
    qed
  qed
qed

section \<open>Which clients stay open\<close>

text \<open>The contract of the library: a created client is open, and a failed creation changes nothing.\<close>

definition group_contract :: "(string list \<Rightarrow> string \<Rightarrow> 'v \<Rightarrow> (string, 'cl) result \<times> 'v) \<Rightarrow> ('v \<Rightarrow> 'cl set) \<Rightarrow> bool" where
  "group_contract new_group opened \<longleftrightarrow>
     (\<forall>bs g v r v'. new_group bs g v = (r, v') \<longrightarrow>
        opened v' = (case r of Inl _ \<Rightarrow> opened v | Inr cl \<Rightarrow> insert cl (opened v)))"

text \<open>C40: \<open>Start\<close> owns the client it creates, except with a nil handler. It goes on to its threads exactly with a
  handler and a client, which is then open and is closed when \<open>Start\<close> returns; a failed creation leaves
  nothing open; but with a nil handler \<open>Start\<close> returns its error without closing the client, which
  nobody can reach any more.\<close>

theorem open_consumer_clients:
  assumes "group_contract new_group opened" "open_consumer new_group c consumer ctx_done v t = (res, v', t')"
  shows "case res of
      Inr (client, w, s0) \<Rightarrow> client \<in> opened v' \<and>
        (\<exists>w0. consumer = Some w0 \<and> cw_handler w = cw_handler w0) \<and>
        (\<forall>s. start_step\<^sup>*\<^sup>* s0 s \<longrightarrow> ((\<exists>e. st_main s = Returned_Start e) \<longleftrightarrow> st_client s = Closed_Client))
    | Inl (Group_Client_Failed e) \<Rightarrow> opened v' = opened v
    | Inl Handler_Nil \<Rightarrow> consumer = None \<and> (\<exists>client. opened v' = insert client (opened v))"
proof -
  obtain r v1 where n: "new_group (split_on CHR '','' (kc_brokers c)) (kc_consumer_group c) v = (r, v1)" by fastforce
  have o: "opened v1 = (case r of Inl _ \<Rightarrow> opened v | Inr cl \<Rightarrow> insert cl (opened v))"
    using assms(1) n unfolding group_contract_def by blast
  note inv = opened_returns_closed [of ctx_done]
  show ?thesis
    using assms(2) n o inv
    by (cases r; cases consumer) (auto simp: open_consumer_def bind_runtime_def Let_def)
qed

definition demo_group :: "string list \<Rightarrow> string \<Rightarrow> nat set \<Rightarrow> (string, nat) result \<times> nat set" where
  "demo_group bs g v = (if bs = [[]] then (Inl ''no brokers'', v) else (Inr (card v), insert (card v) v))"

theorem open_consumer_clients_witness:
  "\<exists>client. fst (snd (open_consumer demo_group \<lparr> kc_brokers = ''k1:9092'', kc_consumer_group = ''g'', kc_topic = ''orders'' \<rparr>
     (None :: unit consumer_wrapper option) False {} \<lparr> tl_spans = [], tl_entries = [] \<rparr>)) = {client}"
proof -
  let ?o = "open_consumer demo_group \<lparr> kc_brokers = ''k1:9092'', kc_consumer_group = ''g'', kc_topic = ''orders'' \<rparr>
     (None :: unit consumer_wrapper option) False {} \<lparr> tl_spans = [], tl_entries = [] \<rparr>"
  have g: "group_contract demo_group id" by (auto simp: group_contract_def demo_group_def)
  have "?o = (fst ?o, fst (snd ?o), snd (snd ?o))" by simp
  note run = open_consumer_clients [OF g this]
  have "fst ?o = Inl Handler_Nil" by (simp add: open_consumer_def demo_group_def Let_def)
  with run show ?thesis by simp
qed

end
