(* ===== verification/Log_Init.thy ===== *)
theory Log_Init
  imports Startup Kafka Pprof "HOL-Library.Signed_Division"
begin

text \<open>
  \<open>InitLog\<close> (\<open>log/log.go\<close>): the encoder's keys and numbers, the outputs and the core around them, and the global
  logger; and, from the start of a service down to this call, the name under which all components report.
  Rotation and the encoders themselves belong to libraries.
\<close>

section \<open>The encoder\<close>

text \<open>The keys that the encoder adds, and how it renders times (nanoseconds since 1970, in UTC) and durations. Go's
  division truncates.\<close>

record encoder_config =
  ec_message_key :: string
  ec_level_key :: string
  ec_time_key :: string
  ec_caller_key :: string
  ec_time :: "int \<Rightarrow> int"
  ec_duration :: "int \<Rightarrow> int"

definition log_encoder :: encoder_config where
  "log_encoder =
     \<lparr> ec_message_key = ''_msg'', ec_level_key = ''_level'', ec_time_key = ''_ts'', ec_caller_key = ''file'',
       ec_time = (\<lambda>ns. ns div 1000000), ec_duration = (\<lambda>d. d sdiv 1000000) \<rparr>"

section \<open>The global logger\<close>

text \<open>The outputs of the tee with their level tests are the wrapped core. \<open>lg_identity\<close> is what \<open>AppIdentity\<close> returns
  from then on, and \<open>lg_stacktrace\<close> the level from which stack traces are added.\<close>

record logger =
  lg_core :: "(log_output \<times> (level \<Rightarrow> bool)) list rf_core"
  lg_encoder :: encoder_config
  lg_identity :: app_identity
  lg_stacktrace :: level

definition init_log :: "(string \<Rightarrow> string) \<Rightarrow> string \<Rightarrow> string \<Rightarrow> level \<Rightarrow> logger option \<Rightarrow> logger \<times> logger option" where
  "init_log getenv log_path err_path log_level current =
     (let (defaults, identity) = default_injected_fields_from_env getenv;
          core = new_required_fields_core (init_log_outputs log_path err_path log_level) defaults;
          logger = \<lparr> lg_core = core, lg_encoder = log_encoder, lg_identity = identity, lg_stacktrace = error_level \<rparr>
      in (logger, Some logger))"

definition global_log :: "logger option \<Rightarrow> logger option" where
  "global_log current = current"

lemma init_log_sets_global: "global_log (snd (init_log getenv lp ep lvl cur)) = Some (fst (init_log getenv lp ep lvl cur))"
  by (simp add: init_log_def global_log_def Let_def split: prod.split)

section \<open>One name\<close>

lemma metadata_env:
  assumes "trim_space (as_app_name (ac_app cfg)) = as_app_name (ac_app cfg)" "as_app_name (ac_app cfg) \<noteq> []"
  shows "b_env (apply_runtime_metadata (Some cfg) b) ''APP_NAME'' = as_app_name (ac_app cfg)"
    "trim_space (b_env (apply_runtime_metadata (Some cfg) b) ''SERVICE_ID'') =
       (if trim_space (b_env b ''SERVICE_ID'') = [] then as_app_name (ac_app cfg) else trim_space (b_env b ''SERVICE_ID''))"
    "b_cfg (apply_runtime_metadata (Some cfg) b) = b_cfg b"
  using assms by (simp_all add: apply_runtime_metadata_def set_env_def event_def Let_def)

lemma log_names:
  assumes "trim_space (getenv ''APP_NAME'') \<noteq> []"
  shows "ai_name (snd (default_injected_fields_from_env getenv)) = trim_space (getenv ''APP_NAME'')"
    "field ''_app'' (F_String (trim_space (getenv ''APP_NAME''))) \<in> set (fst (default_injected_fields_from_env getenv))"
  using assms by (simp_all add: default_injected_fields_from_env_def Let_def split: prod.split)

text \<open>C18: a service reports under one name, except in its RPC metrics. Once a configuration file is loaded, the first
  three modules of \<open>Run\<close> succeed, and the logger that they install writes the configured application name into
  every entry; the Kafka metrics, the Kafka tracer, the service name of the traces and the file names of
  the profiles are the same name. The label of the RPC metrics is read from the environment when \<open>main\<close>
  creates the interceptor, before \<open>Run\<close>: it is \<open>SERVICE_ID\<close> if that is set outside, and otherwise the fixed
  name \<open>lunaship\<close>, although \<open>Run\<close> then sets \<open>SERVICE_ID\<close> so that a later reading gives the application name.\<close>

theorem one_application_name:
  assumes "load_config read_file unmarshal decode (resolve_app_config_path env) = Inr cfg"
    and "run_inits [config_module (file_ops ops read_file unmarshal decode), metadata_module, log_module] (new_boot env) = (res, b)"
  shows "\<exists>before lp ep lvl. res = None \<and> b_events b = before @ [Ev_Init_Log lp ep lvl] \<and>
    (let name = as_app_name (ac_app cfg); lg = fst (init_log (b_env b) lp ep lvl None) in
       name \<noteq> [] \<and> field ''_app'' (F_String name) \<in> set (rc_defaults (lg_core lg)) \<and>
       kafka_app_name (ai_name (lg_identity lg)) (b_env b) = name \<and>
       kafka_tracer_name (b_env b) = name \<and>
       tc_service_name (trace_config_from_app_config (b_cfg b)) = name \<and>
       dp_app_name (new_dynamic_pprof addr (b_env b ''APP_NAME'') dump_dir) = name \<and>
       service_name_from_env env =
         (if trim_space (env ''SERVICE_ID'') = [] then ''lunaship'' else trim_space (env ''SERVICE_ID'')) \<and>
       service_name_from_env (b_env b) =
         (if trim_space (env ''SERVICE_ID'') = [] then name else trim_space (env ''SERVICE_ID'')))"
proof -
  let ?ops = "file_ops ops read_file unmarshal decode"
  let ?name = "as_app_name (ac_app cfg)"
  obtain body where "load_from_bytes unmarshal decode body = Inr cfg"
    using assms(1) by (auto simp: load_config_def split: sum.splits)
  then obtain cfg0 where "cfg = normalize_config cfg0" "valid_config cfg"
    using load_from_bytes_iff [of unmarshal decode body cfg] by blast
  then have name: "trim_space ?name = ?name" "?name \<noteq> []"
    by (auto simp: normalize_config_def normalize_app_def valid_config_def valid_app_def simp flip: trim_blank)
  let ?b1 = "(new_boot env)\<lparr> b_global := set_global (Some cfg) None, b_cfg := Some cfg \<rparr>"
  have m1: "m_init (config_module ?ops) (new_boot env) = (None, ?b1)"
    using assms(1) by (simp add: config_module_def new_module_wrapper_def load_app_config_def new_boot_def file_ops_def)
  let ?b2 = "apply_runtime_metadata (Some cfg) ?b1"
  have m2: "m_init metadata_module ?b1 = (None, ?b2)"
    by (simp add: metadata_module_def new_module_wrapper_def)
  let ?lvl = "log_level_from_config (al_level (as_log (ac_app cfg)))"
  let ?b3 = "(event (Ev_Init_Log (log_file (b_env ?b2)) (err_file (b_env ?b2)) ?lvl) ?b2)\<lparr> b_log_ready := True \<rparr>"
  note env2 = metadata_env [OF name, of ?b1]
  have m3: "m_init log_module ?b2 = (None, ?b3)"
    using env2(3) by (simp add: log_module_def new_module_wrapper_def Let_def)
  have b: "res = None" "b = ?b3" using assms(2) by (simp_all add: m1 m2 m3)
  have e: "b_env b = b_env ?b2" "b_cfg b = Some cfg" using env2(3) by (simp_all add: b event_def)
  have app: "b_env b ''APP_NAME'' = ?name" and sid: "trim_space (b_env b ''SERVICE_ID'') =
      (if trim_space (env ''SERVICE_ID'') = [] then ?name else trim_space (env ''SERVICE_ID''))"
    using env2(1,2) by (simp_all add: e new_boot_def)
  have ln: "ai_name (snd (default_injected_fields_from_env (b_env b))) = ?name"
    "field ''_app'' (F_String ?name) \<in> set (fst (default_injected_fields_from_env (b_env b)))"
    using log_names [of "b_env b"] name by (simp_all add: app)
  have lg: "lg_core (fst (init_log (b_env b) lp ep lvl None)) =
        new_required_fields_core (init_log_outputs lp ep lvl) (fst (default_injected_fields_from_env (b_env b)))"
      "lg_identity (fst (init_log (b_env b) lp ep lvl None)) = snd (default_injected_fields_from_env (b_env b))" for lp ep lvl
    by (simp_all add: init_log_def Let_def split: prod.split)
  have "service_name_from_env (b_env b) =
      (if trim_space (env ''SERVICE_ID'') = [] then ?name else trim_space (env ''SERVICE_ID''))"
    using sid name(2) by (simp add: service_name_from_env_def str_or_default_def)
  moreover have "service_name_from_env env =
      (if trim_space (env ''SERVICE_ID'') = [] then ''lunaship'' else trim_space (env ''SERVICE_ID''))"
    by (simp add: service_name_from_env_def str_or_default_def)
  moreover have "kafka_app_name ?name (b_env b) = ?name" "kafka_tracer_name (b_env b) = ?name"
    using name by (simp_all add: kafka_app_name_def kafka_tracer_name_def app Let_def)
  moreover have "tc_service_name (trace_config_from_app_config (b_cfg b)) = ?name"
    by (simp add: e trace_config_from_app_config_def Let_def)
  moreover have "dp_app_name (new_dynamic_pprof addr (b_env b ''APP_NAME'') dump_dir) = ?name"
    by (simp add: new_dynamic_pprof_def app name)
  moreover have "\<exists>before lp ep lvl. b_events b = before @ [Ev_Init_Log lp ep lvl]" by (simp add: b event_def)
  ultimately show ?thesis
    using b(1) name ln by (auto simp: lg Let_def new_required_fields_core_def)
qed

lemma demo_sections_valid:
  "valid_redis (ac_redis (normalize_config demo_config))"
  "valid_mysql (ac_mysql (normalize_config demo_config))"
  "valid_kafka (ac_kafka (normalize_config demo_config))"
proof -
  show "valid_redis (ac_redis (normalize_config demo_config))"
    by (simp add: normalize_config_def demo_config_def initial_app_config_def valid_redis_def default_redis_config_def)
  show "valid_mysql (ac_mysql (normalize_config demo_config))"
    by (simp add: normalize_config_def demo_config_def initial_app_config_def valid_mysql_def default_mysql_config_def)
  show "valid_kafka (ac_kafka (normalize_config demo_config))"
    by (simp add: normalize_config_def demo_config_def initial_app_config_def valid_kafka_def default_kafka_config_def
        kafka_normalize_def entries_def)
qed

theorem one_application_name_witness:
  "\<exists>(b :: unit boot) lp ep lvl. field ''_app'' (F_String ''shop'') \<in> set (rc_defaults (lg_core (fst (init_log (b_env b) lp ep lvl None)))) \<and>
     last (b_events b) = Ev_Init_Log lp ep lvl \<and> kafka_tracer_name (b_env b) = ''shop'' \<and>
     service_name_from_env (\<lambda>_. []) = ''lunaship'' \<and> service_name_from_env (b_env b) = ''shop''"
proof -
  let ?load = "load_config (\<lambda>_. Inr []) (\<lambda>_. Inr None) (\<lambda>_ _. (demo_config, Inr [])) :: string \<Rightarrow> (load_error, unit app_config) result"
  let ?run = "run_inits [config_module (file_ops demo_ops (\<lambda>_. Inr []) (\<lambda>_. Inr None) (\<lambda>_ _. (demo_config, Inr []))),
    metadata_module, log_module] (new_boot (\<lambda>_. []))"
  have app: "normalize_app (ac_app demo_config) = ac_app demo_config"
  proof -
    have "trim_space ''shop'' = ''shop''" "to_lower (trim_space ''info'') = ''info''" "to_lower (trim_space ''http'') = ''http''"
      "to_lower (trim_space ''dynamic'') = ''dynamic''" "trim_space [] = []"
      by code_simp+
    then show ?thesis by (simp add: normalize_app_def demo_config_def default_app_section_def)
  qed
  have "valid_app (ac_app demo_config)" unfolding valid_app_def by (intro conjI) code_simp+
  moreover have a: "ac_app (normalize_config demo_config) = ac_app demo_config" by (simp add: normalize_config_def app)
  moreover note demo_sections_valid
  ultimately have "valid_config (normalize_config demo_config)" by (simp add: valid_config_def)
  then have l: "?load (resolve_app_config_path (\<lambda>_. [])) = Inr (normalize_config demo_config)"
    unfolding load_config_def by (simp add: load_from_bytes_iff)
  have n: "as_app_name (ac_app (normalize_config demo_config)) = ''shop''"
    unfolding a by (simp add: demo_config_def)
  obtain r b where "?run = (r, b)" by (cases ?run) (rule that)
  have blank: "trim_space [] = []" by code_simp
  from one_application_name [OF l \<open>?run = (r, b)\<close>]
  obtain before lp ep lvl where "b_events b = before @ [Ev_Init_Log lp ep lvl]"
    and "field ''_app'' (F_String ''shop'') \<in> set (rc_defaults (lg_core (fst (init_log (b_env b) lp ep lvl None))))"
    and "kafka_tracer_name (b_env b) = ''shop''" "service_name_from_env (\<lambda>_. []) = ''lunaship''" "service_name_from_env (b_env b) = ''shop''"
    unfolding n Let_def blank if_P [OF refl] by blast
  then show ?thesis by (intro exI [of _ b] exI [of _ lp] exI [of _ ep] exI [of _ lvl]) simp
qed

end
