(* ===== verification/Log_Schema.thy ===== *)
theory Log_Schema
  imports Kafka Rpc_Server Trace_Standalone Log_Init
begin

text \<open>
  The log entries of all components as one stream: which keys they use, and with which type of value. An index
  of such entries takes one type per key, so the components have to agree. The schema is read off the
  code; that the entries conform to it is proved for each component that logs while requests are served.
\<close>

section \<open>Schema\<close>

datatype json_kind = J_Text | J_Number | J_Truth | J_Value

fun kind_of :: "fvalue \<Rightarrow> json_kind" where
  "kind_of (F_String s) = J_Text"
| "kind_of (F_Int i) = J_Number"
| "kind_of (F_Uint u) = J_Number"
| "kind_of (F_Bool b) = J_Truth"
| "kind_of (F_Float x) = J_Number"
| "kind_of (F_Error e) = J_Text"
| "kind_of (F_Any v) = J_Value"
| "kind_of (F_Strings vs) = J_Value"

definition log_schema :: "(string \<times> json_kind) list" where
  "log_schema =
     map (\<lambda>k. (k, J_Text))
       [''_env'', ''_app'', ''_app_ip'', ''_trace_id'', ''_span_id'', ''_parent_span_id'', ''_error'', ''error'', ''_err_code'',
        ''_remote_service'', ''_remote_endpoint'', ''_remote_ip_port'', ''_rpc_protocol'', ''_http_method'', ''url'',
        ''target'', ''stack'', ''_instance_ip'', ''_instance_addr'', ''_redis_cmd'', ''_redis_lua_sha'', ''_database'', ''_sql'',
        ''_topic'', ''_consumer_group'', ''_consumer'', ''_kafka_key'', ''consumer_name'', ''service_name'', ''sampler_type'',
        ''otlp_endpoint'', ''otlp_protocol''] @
     map (\<lambda>k. (k, J_Number))
       [''_app_port'', ''_instance_port'', ''_dur_ms'', ''_start_ms'', ''_redis_pipeline_cmd_count'', ''_partition'', ''_offset'',
        ''sampler_rate''] @
     map (\<lambda>k. (k, J_Truth))
       [''_redis_nil_reply'', ''_is_slow_query'', ''enabled'', ''otlp_traces_endpoint'', ''legacy_collector_endpoint'',
        ''error_log_disabled''] @
     map (\<lambda>k. (k, J_Value)) [''_parameters'', ''_resp'', ''recover'']"

definition conforms :: "log_field \<Rightarrow> bool" where
  "conforms f = (map_of log_schema (lf_key f) = Some (kind_of (lf_value f)))"

definition entries_conform :: "telemetry \<Rightarrow> bool" where
  "entries_conform t = list_all (\<lambda>(lvl, msg, fs). list_all conforms fs) (tl_entries t)"

definition ctx_conforms :: "req_ctx \<Rightarrow> bool" where
  "ctx_conforms ctx = list_all conforms (fields_from_context (Some (rx_log ctx)))"

lemma conforms_iff: "map_of log_schema k = Some K \<Longrightarrow> conforms (field k v) \<longleftrightarrow> kind_of v = K"
  by (auto simp: conforms_def)

lemma schema_lookup [simp]:
  "conforms (field ''_env'' v) \<longleftrightarrow> kind_of v = J_Text" "conforms (field ''_app'' v) \<longleftrightarrow> kind_of v = J_Text"
  "conforms (field ''_app_ip'' v) \<longleftrightarrow> kind_of v = J_Text" "conforms (field ''_app_port'' v) \<longleftrightarrow> kind_of v = J_Number"
  "conforms (field ''_trace_id'' v) \<longleftrightarrow> kind_of v = J_Text" "conforms (field ''_span_id'' v) \<longleftrightarrow> kind_of v = J_Text"
  "conforms (field ''_parent_span_id'' v) \<longleftrightarrow> kind_of v = J_Text"
  "conforms (field ''_error'' v) \<longleftrightarrow> kind_of v = J_Text" "conforms (field ''error'' v) \<longleftrightarrow> kind_of v = J_Text"
  "conforms (field ''_dur_ms'' v) \<longleftrightarrow> kind_of v = J_Number"
  by (rule conforms_iff, code_simp)+

lemma schema_rpc [simp]:
  "conforms (field ''_err_code'' v) \<longleftrightarrow> kind_of v = J_Text"
  "conforms (field ''_remote_service'' v) \<longleftrightarrow> kind_of v = J_Text" "conforms (field ''_remote_endpoint'' v) \<longleftrightarrow> kind_of v = J_Text"
  "conforms (field ''_remote_ip_port'' v) \<longleftrightarrow> kind_of v = J_Text" "conforms (field ''_rpc_protocol'' v) \<longleftrightarrow> kind_of v = J_Text"
  "conforms (field ''_http_method'' v) \<longleftrightarrow> kind_of v = J_Text" "conforms (field ''_start_ms'' v) \<longleftrightarrow> kind_of v = J_Number"
  "conforms (field ''url'' v) \<longleftrightarrow> kind_of v = J_Text" "conforms (field ''target'' v) \<longleftrightarrow> kind_of v = J_Text"
  "conforms (field ''stack'' v) \<longleftrightarrow> kind_of v = J_Text" "conforms (field ''recover'' v) \<longleftrightarrow> kind_of v = J_Value"
  "conforms (field ''_parameters'' v) \<longleftrightarrow> kind_of v = J_Value" "conforms (field ''_resp'' v) \<longleftrightarrow> kind_of v = J_Value"
  by (rule conforms_iff, code_simp)+

lemma schema_clients [simp]:
  "conforms (field ''_instance_ip'' v) \<longleftrightarrow> kind_of v = J_Text" "conforms (field ''_instance_port'' v) \<longleftrightarrow> kind_of v = J_Number"
  "conforms (field ''_instance_addr'' v) \<longleftrightarrow> kind_of v = J_Text"
  "conforms (field ''_redis_cmd'' v) \<longleftrightarrow> kind_of v = J_Text" "conforms (field ''_redis_lua_sha'' v) \<longleftrightarrow> kind_of v = J_Text"
  "conforms (field ''_redis_pipeline_cmd_count'' v) \<longleftrightarrow> kind_of v = J_Number"
  "conforms (field ''_redis_nil_reply'' v) \<longleftrightarrow> kind_of v = J_Truth"
  "conforms (field ''_database'' v) \<longleftrightarrow> kind_of v = J_Text" "conforms (field ''_sql'' v) \<longleftrightarrow> kind_of v = J_Text"
  "conforms (field ''_is_slow_query'' v) \<longleftrightarrow> kind_of v = J_Truth"
  "conforms (field ''_topic'' v) \<longleftrightarrow> kind_of v = J_Text" "conforms (field ''_partition'' v) \<longleftrightarrow> kind_of v = J_Number"
  "conforms (field ''_offset'' v) \<longleftrightarrow> kind_of v = J_Number" "conforms (field ''_consumer_group'' v) \<longleftrightarrow> kind_of v = J_Text"
  "conforms (field ''_consumer'' v) \<longleftrightarrow> kind_of v = J_Text" "conforms (field ''_kafka_key'' v) \<longleftrightarrow> kind_of v = J_Text"
  "conforms (field ''consumer_name'' v) \<longleftrightarrow> kind_of v = J_Text"
  by (rule conforms_iff, code_simp)+

lemma schema_start [simp]:
  "conforms (field ''enabled'' v) \<longleftrightarrow> kind_of v = J_Truth" "conforms (field ''service_name'' v) \<longleftrightarrow> kind_of v = J_Text"
  "conforms (field ''sampler_type'' v) \<longleftrightarrow> kind_of v = J_Text" "conforms (field ''sampler_rate'' v) \<longleftrightarrow> kind_of v = J_Number"
  "conforms (field ''otlp_endpoint'' v) \<longleftrightarrow> kind_of v = J_Text" "conforms (field ''otlp_protocol'' v) \<longleftrightarrow> kind_of v = J_Text"
  "conforms (field ''otlp_traces_endpoint'' v) \<longleftrightarrow> kind_of v = J_Truth"
  "conforms (field ''legacy_collector_endpoint'' v) \<longleftrightarrow> kind_of v = J_Truth"
  "conforms (field ''error_log_disabled'' v) \<longleftrightarrow> kind_of v = J_Truth"
  by (rule conforms_iff, code_simp)+

lemma schema_tracing [simp]: "list_all conforms (trace_config_fields float_text conf)"
  by (simp add: trace_config_fields_def)

text \<open>No field takes a key of the encoder itself.\<close>

lemma encoder_keys_free:
  "list_all (\<lambda>key. map_of log_schema (key log_encoder) = None) [ec_message_key, ec_level_key, ec_time_key, ec_caller_key]"
  by code_simp

section \<open>Entries and contexts\<close>

lemma entries_conform_simps [simp]:
  "entries_conform (log_at lvl msg fs t) \<longleftrightarrow> entries_conform t \<and> list_all conforms fs"
  "entries_conform (end_span sp t) = entries_conform t"
  by (auto simp: entries_conform_def log_at_def end_span_def)

lemma log_ctx_at_conforms [simp]:
  "ctx_conforms ctx \<Longrightarrow> entries_conform (log_ctx_at ctx lvl msg fs t) \<longleftrightarrow> entries_conform t \<and> list_all conforms fs"
  by (simp add: log_ctx_at_def ctx_conforms_def)

lemma with_fields_conforms:
  "list_all conforms (fields_from_context (Some (with_fields c fs))) \<longleftrightarrow>
   list_all conforms (fields_from_context (Some c)) \<and> list_all conforms fs"
  by (auto simp: with_fields_def fields_from_context_def split: option.split)

lemma fields_of_ids [simp]:
  "fields_from_context (Some (c\<lparr> cx_trace_id := i \<rparr>)) = fields_from_context (Some c)"
  "fields_from_context (Some (c\<lparr> cx_span_id := i \<rparr>)) = fields_from_context (Some c)"
  "fields_from_context (Some (c\<lparr> cx_parent_span_id := i \<rparr>)) = fields_from_context (Some c)"
  "fields_from_context (Some (c\<lparr> cx_sampled := b \<rparr>)) = fields_from_context (Some c)"
  by (simp_all add: fields_from_context_def)

lemma enrich_conforms: "ctx_conforms (enrich_ctx ctx fs) \<longleftrightarrow> ctx_conforms ctx \<and> list_all conforms fs"
  by (simp add: ctx_conforms_def enrich_ctx_def with_fields_conforms)

lemma trace_into_log_conforms [simp]: "ctx_conforms (trace_into_log ctx parent) = ctx_conforms ctx"
  by (simp add: ctx_conforms_def trace_into_log_def with_trace_def with_fields_conforms Let_def split: prod.split)

section \<open>The core\<close>

text \<open>Normalising and injecting keep the schema: a conforming key is no alias, and the defaults conform.\<close>

lemma aliases_not_in_schema: "list_all (\<lambda>(k, _). map_of log_schema k = None) field_key_aliases"
  by code_simp

lemma no_alias: "conforms f \<Longrightarrow> map_of field_key_aliases (lf_key f) = None"
proof (rule ccontr)
  assume c: "conforms f" and "map_of field_key_aliases (lf_key f) \<noteq> None"
  then obtain a where "map_of field_key_aliases (lf_key f) = Some a" by blast
  from bspec [OF aliases_not_in_schema [unfolded list_all_iff] map_of_SomeD [OF this]] c
  show False by (simp add: conforms_def)
qed

lemma normalize_conforms: "conforms f \<Longrightarrow> conforms (normalize_field f)"
  using no_alias [of f]
  by (auto simp: normalize_field_def conforms_def Let_def split: fvalue.split)

lemma missing_defaults_conform: "list_all conforms ds \<Longrightarrow> list_all conforms (missing_defaults present ds)"
  by (induction ds) auto

lemma written_fields_conform:
  assumes "list_all conforms (rc_defaults c)" "list_all conforms fs"
  shows "list_all conforms (rf_fields c fs)"
proof -
  have "list_all conforms (normalize_fields fs)"
    using assms(2) by (auto simp: normalize_fields_def list_all_iff normalize_conforms)
  with missing_defaults_conform [OF assms(1)] show ?thesis by (simp add: rf_fields_def Let_def)
qed

lemma env_defaults_conform: "list_all conforms (fst (default_injected_fields_from_env getenv))"
  by (simp add: default_injected_fields_from_env_def Let_def split: prod.split)

section \<open>The components\<close>

lemma log_with_conforms:
  "list_all conforms (fields_from_context c) \<Longrightarrow> list_all conforms fs \<Longrightarrow> entries_conform (log_with c lvl msg fs t) = entries_conform t"
  by (simp add: log_with_def)

lemma log_reply_conforms:
  "list_all conforms (fields_from_context c) \<Longrightarrow> list_all conforms fs \<Longrightarrow> entries_conform (log_reply c fs err t) = entries_conform t"
  by (auto simp: log_reply_def log_with_conforms split: option.split)

lemma redis_entries_conform:
  assumes "list_all conforms (fields_from_context c)"
  shows "entries_conform (snd (snd (process_hook c h cmd dur next w t))) = entries_conform t"
    "entries_conform (snd (snd (process_pipeline_hook c h cmds dur next w t))) = entries_conform t"
  using assms by (simp_all add: process_hook_def process_pipeline_hook_def end_command_span_def log_command_def
      log_reply_conforms Let_def split: prod.split)

lemma sql_entries_conform:
  "list_all conforms (fields_from_context c) \<Longrightarrow> entries_conform (sql_trace c l sql dur err t) = entries_conform t"
  by (simp add: sql_trace_def emit_trace_span_def sql_fields_def log_with_conforms Let_def)

lemma tracing_entries_conform:
  "entries_conform (snd (snd (sa_init_tracing_from_env is_print float_text parse_float url_parse getenv libs g t))) =
     entries_conform t"
  "entries_conform (snd (sa_handle g err n t)) = entries_conform t"
proof -
  obtain conf perr where l: "fst (load_trace_config_from_env parse_float getenv g) = (conf, perr)" by fastforce
  obtain r g' where i: "start_run url_parse libs conf g = (r, g')" by fastforce
  show "entries_conform (snd (snd (sa_init_tracing_from_env is_print float_text parse_float url_parse getenv libs g t))) =
     entries_conform t"
    by (auto simp: sa_start init_from_env_run [OF l i] entries_conform_def start_entries_def Let_def split: option.split)
  show "entries_conform (snd (sa_handle g err n t)) = entries_conform t"
    by (auto simp: sa_handle_def Let_def split: option.split)
qed

text \<open>A tracer and a propagator put a span into the context and leave the log fields alone.\<close>

definition keeps_log :: "(req_ctx \<Rightarrow> req_ctx) \<Rightarrow> bool" where
  "keeps_log f \<longleftrightarrow> (\<forall>ctx. rx_log (f ctx) = rx_log ctx)"

lemma keeps_log_conforms: "keeps_log f \<Longrightarrow> ctx_conforms (f ctx) = ctx_conforms ctx"
  by (simp add: keeps_log_def ctx_conforms_def)

lemma rpc_entries_conform:
  assumes "\<And>hs. keeps_log (sv_extract sv hs)" "\<And>name. keeps_log (sv_tracer sv name)" "ctx_conforms ctx"
    and "serve_rpc sv req hs now1 now2 handler ctx s t m = (h, s', t', m')"
  shows "entries_conform t' = entries_conform t"
proof -
  obtain h0 s0 where h: "handler (call_ctx sv req hs ctx) s = (h0, s0)" by fastforce
  have "ctx_conforms (call_ctx sv req hs ctx)"
    using assms(1-3) by (simp add: call_ctx_def start_server_span_def Let_def keeps_log_conforms)
  then have "list_all conforms (fields_from_context (Some (rx_log (call_ctx sv req hs ctx))))"
    by (simp add: ctx_conforms_def)
  then have c: "list_all (\<lambda>(lvl, msg, fs). list_all conforms fs) (call_entries sv req now1 now2 (Some (rx_log (call_ctx sv req hs ctx))) h0)"
    by (simp add: call_entries_def base_fields_def Let_def split: handled.split sum.split)
  have f: "list_all conforms (fields_from_context (Some (rx_log ctx)))" using assms(3) by (simp add: ctx_conforms_def)
  note run = traced_call_reports [of handler sv req hs ctx s h0 s0, OF h]
  show ?thesis
    using assms(4) c f
    by (auto simp: serve_rpc_def metrics_interceptor_def run recover_fn_def entries_conform_def log_at_def Let_def
        split: prod.splits sum.splits handled.splits if_splits)
qed

lemma kafka_context_fields_conform:
  "list_all conforms (consumer_context_fields cd)" "list_all conforms (producer_context_fields pd)"
  by (simp_all add: consumer_context_fields_def producer_context_fields_def)

lemma publish_entries_conform:
  assumes "\<And>name sp. keeps_log (kl_tracer lib name sp)" "\<And>c. ctx0 = Some c \<Longrightarrow> ctx_conforms c"
    and "publish lib producer ctx0 msg ts s = (res, s')"
  shows "entries_conform (ks_telemetry s') = entries_conform (ks_telemetry s)"
proof -
  have b: "ctx_conforms background_ctx" by (simp add: ctx_conforms_def background_ctx_def fields_from_context_def)
  have c: "ctx_conforms (case ctx0 of None \<Rightarrow> background_ctx | Some c \<Rightarrow> c)"
    using b assms(2) by (auto split: option.split)
  obtain started now1 now2 where ts: "ts = (started, now1, now2)" using prod_cases3 by blast
  have i: "ctx_conforms pctx" if "ctx_conforms bctx" "start_producer_instrumentation lib bctx brokers topic key hs started = (pctx, sp, d, hs')"
    for bctx brokers topic key hs pctx sp d hs'
    using that assms(1) by (auto simp: start_producer_instrumentation_eq Let_def enrich_conforms keeps_log_conforms kafka_context_fields_conform)
  show ?thesis
  proof (cases "producer = None \<or> (\<exists>p. producer = Some p \<and> kp_client p = None)")
    case True
    then show ?thesis using assms(3) by (auto simp: ts)
  next
    case False
    then obtain p client where p: "producer = Some p" "kp_client p = Some client" by (cases producer) auto
    obtain pctx sp d hs where st: "start_producer_instrumentation lib (case ctx0 of None \<Rightarrow> background_ctx | Some c \<Rightarrow> c)
        (kp_brokers p) (kp_topic p) (ms_key msg) (pm_headers (build_message (kp_topic p) msg)) started = (pctx, sp, d, hs)"
      using prod_cases4 by blast
    obtain part off err w where sent: "kl_send lib client ((build_message (kp_topic p) msg)\<lparr> pm_headers := hs \<rparr>) (ks_world s) = ((part, off, err), w)"
      by (metis prod_cases3 surj_pair)
    have "ks_telemetry s' = finish_producer_instrumentation pctx sp d part off err now1 (ks_telemetry s)"
      using assms(3) by (auto simp: ts p st sent Let_def)
    with i [OF c st] show ?thesis
      by (simp add: finish_producer_instrumentation_def Let_def split: option.split)
  qed
qed

lemma consume_entries_conform:
  assumes "\<And>name sp. keeps_log (kl_tracer lib name sp)" "\<And>get keys. keeps_log (kl_extract lib get keys)" "ctx_conforms ctx"
  shows "entries_conform (ks_telemetry (snd (consume_claim lib c ctx es s))) = entries_conform (ks_telemetry s)"
proof -
  have one: "entries_conform (ks_telemetry (snd (consume_message lib c ctx msg ts s))) = entries_conform (ks_telemetry s)" for msg ts s
  proof -
    obtain started now1 now2 where ts: "ts = (started, now1, now2)" using prod_cases3 by blast
    obtain cctx sp d where st: "start_consumer_instrumentation lib ctx (cw_name c) (cw_consumer_group c) (cw_broker_addr c) msg started = (cctx, sp, d)"
      using prod_cases3 by blast
    obtain h w where h: "handle_message c cctx msg (ks_world s) = (h, w)" by fastforce
    have "ctx_conforms cctx"
      using st assms by (auto simp: start_consumer_instrumentation_eq Let_def enrich_conforms keeps_log_conforms kafka_context_fields_conform)
    then show ?thesis
      by (simp add: ts st h finish_consumer_instrumentation_def Let_def split: option.split handler_end.split)
  qed
  show ?thesis
  proof (induction es arbitrary: s)
    case (Cons e es)
    show ?case
    proof (cases e)
      case (Claim_Message msg ts)
      obtain p s1 where m: "consume_message lib c ctx msg ts s = (p, s1)" by fastforce
      with one [of msg ts s] Claim_Message show ?thesis by (cases p) (simp_all add: Cons.IH)
    qed simp_all
  qed simp
qed

text \<open>C16: the log entries are well typed. Whatever a request, a command, a statement, a message or the start of
  tracing makes a component log, each key has the type that the schema gives it, so no two components
  give one key two types; and the fields that the core writes conform as well, with the defaults and
  after renaming. The tracing library is only assumed to leave the log fields of a context alone.\<close>

theorem log_entries_well_typed:
  assumes "entries_conform t" "ctx_conforms ctx" "entries_conform (ks_telemetry s)"
    and "\<And>hs. keeps_log (sv_extract sv hs)" "\<And>name. keeps_log (sv_tracer sv name)"
    and "\<And>name sp. keeps_log (kl_tracer lib name sp)" "\<And>get keys. keeps_log (kl_extract lib get keys)"
  shows
    "entries_conform (snd (snd (process_hook (Some (rx_log ctx)) h cmd dur next w t))) \<and>
     entries_conform (snd (snd (process_pipeline_hook (Some (rx_log ctx)) h cmds dur next w t))) \<and>
     entries_conform (sql_trace (Some (rx_log ctx)) l sql dur err t) \<and>
     entries_conform (fst (snd (snd (serve_rpc sv req hs now1 now2 handler ctx v t m)))) \<and>
     entries_conform (ks_telemetry (snd (publish lib producer (Some ctx) msg ts s))) \<and>
     entries_conform (ks_telemetry (snd (consume_claim lib c ctx es s))) \<and>
     entries_conform (snd (snd (sa_init_tracing_from_env is_print float_text parse_float url_parse getenv libs g t))) \<and>
     entries_conform (snd (sa_handle g failure n t)) \<and>
     (\<forall>fs. list_all conforms fs \<longrightarrow>
        list_all conforms (rf_fields (new_required_fields_core core (fst (default_injected_fields_from_env getenv))) fs))"
proof (intro conjI)
  show "entries_conform (fst (snd (snd (serve_rpc sv req hs now1 now2 handler ctx v t m))))"
    using rpc_entries_conform [OF assms(4,5,2), of req hs now1 now2 handler v t m] assms(1)
    by (metis prod.collapse)
  show "entries_conform (ks_telemetry (snd (publish lib producer (Some ctx) msg ts s)))"
    using publish_entries_conform [OF assms(6), of "Some ctx" producer msg ts s] assms(2,3)
    by (metis option.inject prod.collapse)
  show "entries_conform (ks_telemetry (snd (consume_claim lib c ctx es s)))"
    using consume_entries_conform [OF assms(6,7,2)] assms(3) by blast
  show "\<forall>fs. list_all conforms fs \<longrightarrow>
      list_all conforms (rf_fields (new_required_fields_core core (fst (default_injected_fields_from_env getenv))) fs)"
    using env_defaults_conform by (simp add: written_fields_conform new_required_fields_core_def)
qed (use assms(1,2) in \<open>simp_all only: ctx_conforms_def redis_entries_conform sql_entries_conform tracing_entries_conform\<close>)

lemma demo_keep_log:
  "keeps_log (sv_extract demo_server hs)" "keeps_log (sv_tracer demo_server name)"
  "keeps_log (kl_tracer demo_lib name sp)" "keeps_log (kl_extract demo_lib get keys)"
  by (simp_all add: keeps_log_def demo_server_def server_tracer_def demo_lib_def demo_tracer_def demo_extract_def Let_def)

theorem log_entries_well_typed_witness:
  "entries_conform (fst (snd (snd (serve_rpc demo_server demo_rpc [] 0 5 (\<lambda>c s. (Returned (Inl ''sold out''), s)) demo_ctx () no_reports no_metrics)))) \<and>
   entries_conform (ks_telemetry (snd (consume_claim demo_lib demo_consumer demo_ctx [Claim_Message (demo_msg 1) (2, 3, 3), Claim_Closed] demo_state)))"
proof -
  have c: "entries_conform no_reports" "ctx_conforms demo_ctx" "entries_conform (ks_telemetry demo_state)"
    by (simp_all add: entries_conform_def ctx_conforms_def demo_ctx_def fields_from_context_def demo_state_def)
  note all = log_entries_well_typed [OF c demo_keep_log, where req = demo_rpc and hs = "[]" and ?now1.0 = 0 and ?now2.0 = 5
      and handler = "\<lambda>c s. (Returned (Inl ''sold out''), s)" and v = "()" and m = no_metrics
      and c = demo_consumer and es = "[Claim_Message (demo_msg 1) (2, 3, 3), Claim_Closed]"]
  show ?thesis
    using all [THEN conjunct2, THEN conjunct2, THEN conjunct2, THEN conjunct1]
      all [THEN conjunct2, THEN conjunct2, THEN conjunct2, THEN conjunct2, THEN conjunct2, THEN conjunct1] ..
qed

section \<open>Nested spans\<close>

text \<open>The fields that the core writes under the key, of those it is given.\<close>

definition span_ids :: "log_field list \<Rightarrow> log_field list" where
  "span_ids fs = filter (\<lambda>f. lf_key f = ''_span_id'') (normalize_fields fs)"

lemma span_ids_append [simp]: "span_ids (fs @ gs) = span_ids fs @ span_ids gs"
  by (simp add: span_ids_def normalize_fields_def)

lemma span_ids_Cons:
  "map_of field_key_aliases k = None \<Longrightarrow> (k = ''_sql'') = False \<Longrightarrow>
   span_ids (field k v # fs) = (if k = ''_span_id'' then [field k v] else []) @ span_ids fs"
  by (auto simp: span_ids_def normalize_fields_def normalize_field_def Let_def)

lemma span_ids_Nil [simp]: "span_ids [] = []"
  by (simp add: span_ids_def normalize_fields_def)

lemma span_ids_other [simp]:
  "span_ids (field ''_span_id'' v # fs) = field ''_span_id'' v # span_ids fs"
  "span_ids (field ''_trace_id'' v # fs) = span_ids fs" "span_ids (field ''_parent_span_id'' v # fs) = span_ids fs"
  "span_ids (field ''_dur_ms'' v # fs) = span_ids fs" "span_ids (field ''_error'' v # fs) = span_ids fs"
  "span_ids (field ''_partition'' v # fs) = span_ids fs" "span_ids (field ''_offset'' v # fs) = span_ids fs"
  "span_ids (field ''_topic'' v # fs) = span_ids fs" "span_ids (field ''_instance_addr'' v # fs) = span_ids fs"
  "span_ids (field ''_instance_port'' v # fs) = span_ids fs" "span_ids (field ''_kafka_key'' v # fs) = span_ids fs"
  by (subst span_ids_Cons, code_simp, code_simp, simp)+

lemma span_ids_with_fields:
  "span_ids (fields_from_context (Some (with_fields c fs))) = span_ids (fields_from_context (Some c)) @ span_ids fs"
  by (auto simp: with_fields_def fields_from_context_def split: option.split)

lemma span_ids_trace_into_log:
  assumes "sc_valid (rx_span ctx)" "sc_span_id (rx_span ctx) \<noteq> []"
  shows "span_ids (fields_from_context (Some (rx_log (trace_into_log ctx parent)))) =
    span_ids (fields_from_context (Some (rx_log ctx))) @ [field ''_span_id'' (F_String (sc_span_id (rx_span ctx)))]"
  using assms
  by (simp add: trace_into_log_def trace_identifiers_def with_trace_def span_ids_with_fields Let_def)

lemma call_ctx_span_field:
  assumes "rpc_traces (sv_tracer sv)"
  shows "\<exists>outer. span_ids (fields_from_context (Some (rx_log (call_ctx sv req hs ctx)))) =
    outer @ [field ''_span_id'' (F_String (sc_span_id (rx_span (call_ctx sv req hs ctx))))]"
proof -
  let ?c = "sv_tracer sv (rq_procedure req) (sv_extract sv hs ctx)"
  have "sc_valid (rx_span ?c)" "sc_span_id (rx_span ?c) \<noteq> []" using rpc_tracesD [OF assms] by simp_all
  from span_ids_trace_into_log [OF this] show ?thesis
    by (simp add: call_ctx_def start_server_span_def Let_def)
qed

lemma producer_ctx_span_field:
  assumes "traces (kl_tracer lib)" "\<And>name sp. keeps_log (kl_tracer lib name sp)"
    and "start_producer_instrumentation lib ctx brokers topic key hs started = (pctx, sp, d, hs')"
  shows "\<exists>inner. span_ids (fields_from_context (Some (rx_log pctx))) =
    span_ids (fields_from_context (Some (rx_log ctx))) @ [field ''_span_id'' (F_String inner)]"
proof -
  let ?c = "kl_tracer lib (kafka_tracer_name (kl_env lib)) (producer_span_name topic) ctx"
  have "sc_valid (rx_span ?c)" "sc_span_id (rx_span ?c) \<noteq> []" using assms(1) by (simp_all add: traces_def Let_def)
  note ids = span_ids_trace_into_log [OF this]
  have "rx_log ?c = rx_log ctx" using assms(2) by (simp add: keeps_log_def)
  moreover have "span_ids (producer_context_fields d) = []" by (simp add: producer_context_fields_def)
  moreover have "pctx = enrich_ctx (trace_into_log ?c (parent_span_id (rx_span ctx))) (producer_context_fields d)"
    using assms(3) by (auto simp: start_producer_instrumentation_eq Let_def)
  ultimately show ?thesis using ids by (simp add: enrich_ctx_def span_ids_with_fields) blast
qed

lemma span_ids_written:
  "span_ids fs \<noteq> [] \<Longrightarrow> filter (\<lambda>f. lf_key f = ''_span_id'') (rf_fields core fs) = span_ids fs"
proof -
  have m: "k \<in> present \<Longrightarrow> filter (\<lambda>f. lf_key f = k) (missing_defaults present ds) = []" for k present ds
    by (induction ds) auto
  assume "span_ids fs \<noteq> []"
  then have "''_span_id'' \<in> lf_key ` set (normalize_fields fs)"
    by (force simp: span_ids_def filter_empty_conv)
  then show ?thesis by (simp add: rf_fields_def Let_def span_ids_def m)
qed

text \<open>A message published while a request is served is logged with two span ids, that of the request and
  that of the publication, under the one key \<open>_span_id\<close>, and the core writes both: \<open>WithFields\<close> appends to
  the fields of the context and replaces none.\<close>

lemma nested_span_ids_repeat:
  assumes "rpc_traces (sv_tracer sv)" "traces (kl_tracer lib)" "\<And>name sp. keeps_log (kl_tracer lib name sp)"
    and "kp_client p = Some client"
    and "publish lib (Some p) (Some (call_ctx sv req hs ctx)) msg ts s = (res, s')"
  shows "\<exists>lvl fs outer inner. tl_entries (ks_telemetry s') = tl_entries (ks_telemetry s) @ [(lvl, ''KAFKA_PRODUCE'', fs)] \<and>
    filter (\<lambda>f. lf_key f = ''_span_id'') (rf_fields core fs) = outer @ [field ''_span_id'' (F_String (sc_span_id (rx_span (call_ctx sv req hs ctx)))),
      field ''_span_id'' (F_String inner)]"
proof -
  let ?c = "call_ctx sv req hs ctx"
  obtain started now1 now2 where ts: "ts = (started, now1, now2)" using prod_cases3 by blast
  obtain pctx sp d hs' where st: "start_producer_instrumentation lib ?c (kp_brokers p) (kp_topic p) (ms_key msg)
      (pm_headers (build_message (kp_topic p) msg)) started = (pctx, sp, d, hs')"
    using prod_cases4 by blast
  obtain part off err w where sent: "kl_send lib client ((build_message (kp_topic p) msg)\<lparr> pm_headers := hs' \<rparr>) (ks_world s) = ((part, off, err), w)"
    by (metis prod_cases3 surj_pair)
  have tel: "ks_telemetry s' = finish_producer_instrumentation pctx sp d part off err now1 (ks_telemetry s)"
    using assms(5) by (auto simp: ts assms(4) st sent Let_def)
  obtain outer where outer: "span_ids (fields_from_context (Some (rx_log ?c))) =
      outer @ [field ''_span_id'' (F_String (sc_span_id (rx_span ?c)))]"
    using call_ctx_span_field [OF assms(1)] by blast
  obtain inner where inner: "span_ids (fields_from_context (Some (rx_log pctx))) =
      span_ids (fields_from_context (Some (rx_log ?c))) @ [field ''_span_id'' (F_String inner)]"
    using producer_ctx_span_field [OF assms(2,3) st] by blast
  define fs where "fs = fields_from_context (Some (rx_log pctx)) @
    (case err of Some e \<Rightarrow> [field ''_dur_ms'' (F_Int ((now1 - pd_started_at d) div 1000000)), field ''_error'' (F_String (ke_text e))]
     | None \<Rightarrow> [field ''_partition'' (F_Int part), field ''_offset'' (F_Int off), field ''_dur_ms'' (F_Int ((now1 - pd_started_at d) div 1000000))])"
  have "span_ids fs = outer @ [field ''_span_id'' (F_String (sc_span_id (rx_span ?c))), field ''_span_id'' (F_String inner)]"
    by (simp add: fs_def outer inner split: option.split)
  moreover have "\<exists>lvl. tl_entries (ks_telemetry s') = tl_entries (ks_telemetry s) @ [(lvl, ''KAFKA_PRODUCE'', fs)]"
    by (simp add: tel finish_producer_instrumentation_def fs_def log_ctx_at_def log_at_def end_span_def Let_def split: option.split)
  ultimately show ?thesis using span_ids_written [of fs core] by auto
qed

lemma nested_span_ids_repeat_witness:
  "\<exists>lvl fs outer inner s'. snd (publish demo_lib
       (Some \<lparr> kp_brokers = ''k1:9092'', kp_topic = ''orders'', kp_client = Some (), kp_closed = False, kp_close_err = None \<rparr>)
       (Some (call_ctx demo_server demo_rpc [] demo_ctx)) \<lparr> ms_key = [], ms_headers = [], ms_payload = ''{}'' \<rparr> (0, 1, 1) demo_state) = s' \<and>
     tl_entries (ks_telemetry s') = [(lvl, ''KAFKA_PRODUCE'', fs)] \<and>
     filter (\<lambda>f. lf_key f = ''_span_id'') (rf_fields demo_core fs) = outer @
       [field ''_span_id'' (F_String (sc_span_id (rx_span (call_ctx demo_server demo_rpc [] demo_ctx)))),
        field ''_span_id'' (F_String inner)]"
proof -
  let ?p = "\<lparr> kp_brokers = ''k1:9092'', kp_topic = ''orders'', kp_client = Some (), kp_closed = False, kp_close_err = None \<rparr>"
  let ?pub = "publish demo_lib (Some ?p) (Some (call_ctx demo_server demo_rpc [] demo_ctx))
    \<lparr> ms_key = [], ms_headers = [], ms_payload = ''{}'' \<rparr> (0, 1, 1) demo_state"
  have s: "rpc_traces (sv_tracer demo_server)" using server_tracer_ok by (simp add: demo_server_def)
  have k: "traces (kl_tracer demo_lib)" using demo_laws by (simp add: demo_lib_def)
  have c: "kp_client ?p = Some ()" and p: "?pub = (fst ?pub, snd ?pub)" and e: "tl_entries (ks_telemetry demo_state) = []"
    by (simp_all add: demo_state_def del: publish.simps)
  from nested_span_ids_repeat [OF s k demo_keep_log(3) c p, of demo_core] show ?thesis
    unfolding e append_Nil by blast
qed

end
