(* ===== verification/Spec2Isabelle.thy ===== *)
theory Spec2Isabelle
  imports Module_Sort App_Config Utils Auth Pprof Redis_Lua Redis_Lua_Conc Log_Core Client_Hooks Interceptors Kafka Kafka_Start
    Trace_Config Trace_Standalone Service Connect_Routes Example_Service Spot_Counter Metrics_Registry Startup Rpc_Report Log_Pool Background Kafka_Open Log_Init Log_Schema
begin

text \<open>
  Verification of \<open>lunaship\<close>, a Go library for RPC services. A service calls \<open>Service.Run\<close>, which loads a
  TOML configuration, starts its modules in the order of their dependencies (logging, tracing, the
  database and queue clients, metrics, profiling), serves, and shuts down. Each theory models one
  part; every definition names the function or type it is translated from through the manifest.

  \<^bold>\<open>Conventions.\<close> A returned \<open>error\<close> is the left of a sum, or an option when nothing else is returned; a
  panic is the result \<open>None\<close> or an explicit state. State is passed and returned. What happens outside
  (client libraries, the operating system, the clock) is an argument of the definition that uses it:
  a function on a world \<open>'w\<close>, a record of answers, or, for the propagator and the tracer, a function
  with a named contract. A Go map is the list of its entries in the order of one iteration. Strings
  are byte lists and are decoded as UTF-8 where Go decodes them.

  \<^bold>\<open>Theories.\<close>
  \<^item> \<open>Prelude\<close>: results, orders within lists, trimming, runs and executions of a step relation.
  \<^item> \<open>Go_Strings\<close>, \<open>Go_Float\<close>: the used part of the Go standard library on strings and of \<open>float64\<close>.
  \<^item> \<open>Module_Sort\<close> (\<open>module/api.go\<close>): nodes, Kahn's loop with its ready queue, execution. The loop is
    shown equal to a reference order; soundness, completeness, stability and the exact content of the
    cycle error follow from it. Its termination measure is queue length plus positive in-degrees.
  \<^item> \<open>Config_Parse\<close> (\<open>configparse/helpers.go\<close>): the problem collector, section lookup, key order, and
    \<open>config_section\<close>, the contract on which loading relies for each section.
  \<^item> \<open>Instance_Config\<close>, \<open>App_Config\<close> (\<open>redis/config.go\<close>, \<open>mysql/app_config.go\<close>, \<open>kafka/config.go\<close>, \<open>config/\<close>):
    the sections, each an interpretation of that contract, and \<open>LoadFromBytes\<close>, which succeeds exactly
    for valid configurations and otherwise reports every problem. The check of the sample rate is
    analysed with the rounding of its floating-point operations.
  \<^item> \<open>Utils\<close> (\<open>utils/\<close>): retrying, sequencing, difference by key.
  \<^item> \<open>Log_Core\<close> (\<open>log/\<close>): the core that injects required fields, the context fields, the level split.
    \<open>Log_Pool\<close>: the pooled field slices of the request log in a store of arrays, and who owns an array.
    \<open>Log_Init\<close>: \<open>InitLog\<close>, and the one application name under which a started service reports, except in its RPC metrics.
    \<open>Log_Schema\<close>: one type for each key over the entries of all components, and what nested spans log.
  \<^item> \<open>Client_Hooks\<close> (\<open>redis/hook.go\<close>, \<open>mysql/\<close>): spans and entries of database commands, addresses.
  \<^item> \<open>Redis_Lua\<close> (\<open>redis/lua.go\<close>, \<open>redis/redis.go\<close>): the script executor with its reload goroutine;
    \<open>Redis_Lua_Conc\<close>: its calls interleaved, and the invariant that no reload is lost.
  \<^item> \<open>Auth\<close> (\<open>infra/mask.go\<close>, \<open>infra/jwt.go\<close>: masking; which requests reach the handler), \<open>Pprof\<close> (\<open>infra/pprof.go\<close>), \<open>Trace_Config\<close>
    (\<open>infra/trace.go\<close>). \<open>Pprof\<close> has two views of \<open>Start\<close> and \<open>Stop\<close>: complete calls in sequence, and the two
    atomic steps of each call (the swap of the state, the locked body) in any interleaving.
    \<open>Trace_Standalone\<close> (\<open>trace/trace.go\<close>): the second copy of the tracing code, equal to \<open>Trace_Config\<close> in
    errors, state and entries. \<open>Background\<close> (\<open>infra/metric.go\<close>, \<open>InitGopprof\<close>): the servers beside the service.
  \<^item> \<open>Interceptors\<close> (\<open>interceptor/\<close>, \<open>infra/recover.go\<close>): rate limit, call counter, metrics, request log, tracing.
    \<open>Rpc_Server\<close>: a call through the whole chain of \<open>example/logs/main.go\<close>, returning or panicking, and whether its
    span, count and entries agree. \<open>Rpc_Report\<close>: the loop that prints the counters.
  \<^item> \<open>Metrics_Registry\<close> (all packages with metrics): their collectors and package initialisation; all
    components register without a conflict, but \<open>infra\<close> and \<open>trace\<close> cannot be linked together.
  \<^item> \<open>Kafka_Carrier\<close>, \<open>Kafka\<close>, \<open>Kafka_Start\<close> (\<open>kafka/\<close>): the header carriers with the contract of a carrier
    (the consumer's can only replace, the producer's also appends), instrumentation, producer and
    claim loop, the contract of \<open>Producer\<close> around \<open>Close\<close>, and the two threads of \<open>Start\<close> from its opening to its three
    ways of returning, with its termination under fairness; \<open>Kafka_Open\<close>: the opening with its data, and which clients it leaves open.
  \<^item> \<open>Service\<close> (\<open>service/setup.go\<close>): the nine default modules on the model of \<open>module.Execute\<close>, and
    \<open>Run\<close> with its deferred clean-up. \<open>Startup\<close>: \<open>Run\<close> on a configuration file against a specification of what it
    connects to, and \<open>serve\<close> with the goroutine of the HTTP server.
  \<^item> \<open>Example_Service\<close> (\<open>example/logs/\<close>): the handlers of the example, on the models of the Lua executor and of
    the interceptor chain: its pages are complete, its transfers keep the trace. \<open>Spot_Counter\<close>: the requests to
    \<open>GetSpot\<close> interleaved, and an account of every run of their script: each belongs to a request past Redis or to a lost answer.
    \<open>Connect_Routes\<close>: the generated client and handler and the mux of \<open>Service.serve\<close>, over \<open>Go_Http\<close>, the used
    part of paths, URLs and \<open>http.ServeMux\<close>; every client method reaches its handler and nothing else is served.

  \<^bold>\<open>Concurrency.\<close> The call counter, the pooled slices, the profiling manager, the script reload, the consumer start,
  \<open>serve\<close>, the starts of tracing and the requests to the example are step relations whose steps are the atomic operations of the code; invariants are proved by induction
  over reachable states. That \<open>Start\<close> of the consumer returns is proved over infinite executions, with weak fairness of the two threads
  and the documented behaviour of \<open>Consume\<close> as named hypotheses. Updates of a Lua executor come at two grains: whole calls with
  pending reloads (\<open>Redis_Lua\<close>), and the lock sections of any number of calls (\<open>Redis_Lua_Conc\<close>), of which a
  call that runs alone is a run. What the proofs share is \<open>Prelude.preserved\<close>, the induction over runs.

  \<^bold>\<open>Bounds.\<close> No model of code takes fuel; \<open>spot_finish\<close>, which only relates \<open>get_spot\<close> to its phases, takes the number of phases,
  seven, and is shown to end within it. Loops recurse on their list, or on a measure (the retry loop, UTF-8
  decoding, Kahn's loop); the report loop, which ends only with its context, is a partial function into an option,
  and is shown to return exactly when the context ends. Counters and millisecond clocks are 64-bit words. Sizes, ports and
  durations, on which the code does no arithmetic that could wrap, are integers.

  \<^bold>\<open>Not modelled.\<close> Generated protobuf code and the tests; TOML parsing, \<open>mapstructure\<close>,
  \<open>zap\<close> encoders and file rotation, HTTP servers beyond their answers. Case mapping leaves non-ASCII letters alone except the
  two whose lower case is ASCII, which is exact where the code compares with ASCII words. HTTP
  paths and URLs are those that need no escaping. The log lines of the script executor and of \<open>InitRedis\<close>, and
  the choice of the logger that gorm writes to.
\<close>

end
